(* ===== verification/Prelude.thy ===== *)
theory Prelude
  imports Main "HOL-Library.AList" "HOL-Library.Char_ord" "HOL-Library.List_Lexorder"
    "HOL-Library.Multiset" "HOL-Library.Sublist"
begin

section \<open>Shared types, maps and automation\<close>

text \<open>
  What every component uses: Go maps as association lists (one entry per key, in the order
  of first insertion), the iteration of a Go map in an arbitrary order, the results of
  fallible Go functions as sums (\<open>Inl\<close> the error, \<open>Inr\<close> the value), and the lemmas and
  theorem collections the component theories share.
\<close>

named_theorems defs_web
  \<comment> \<open>unfoldings of the HTTP layer that several proofs share\<close>

named_theorems store_ops
  \<comment> \<open>the unfoldings of the memory store's operations\<close>

subsection \<open>Results\<close>

type_synonym ('e, 'a) result = "'e + 'a"

abbreviation is_ok :: "'e + 'a \<Rightarrow> bool" where
  "is_ok r \<equiv> \<not> isl r"

lemma is_ok_iff: "is_ok r \<longleftrightarrow> (\<exists>v. r = Inr v)"
  by (cases r) auto

lemma isl_iff: "isl r \<longleftrightarrow> (\<exists>e. r = Inl e)"
  by (cases r) auto

lemma find_SomeD: "find P xs = Some x \<Longrightarrow> x \<in> set xs \<and> P x"
  by (induction xs) (auto split: if_splits)

subsection \<open>Go maps\<close>

text \<open>
  \<open>map[string]T\<close> is an association list. \<open>gget\<close>, \<open>gput\<close> and \<open>gdel\<close> are the two-valued
  lookup, the assignment and \<open>delete\<close>; \<open>gkeys\<close> lists the keys.
\<close>

type_synonym 'v gomap = "(string \<times> 'v) list"

abbreviation gget :: "'v gomap \<Rightarrow> string \<Rightarrow> 'v option" where
  "gget m k \<equiv> map_of m k"

abbreviation gput :: "string \<Rightarrow> 'v \<Rightarrow> 'v gomap \<Rightarrow> 'v gomap" where
  "gput k v m \<equiv> AList.update k v m"

abbreviation gdel :: "string \<Rightarrow> 'v gomap \<Rightarrow> 'v gomap" where
  "gdel k m \<equiv> AList.delete k m"

abbreviation gkeys :: "'v gomap \<Rightarrow> string list" where
  "gkeys m \<equiv> map fst m"

text \<open>A Go map never has two entries for one key.\<close>

abbreviation gmap_ok :: "'v gomap \<Rightarrow> bool" where
  "gmap_ok m \<equiv> distinct (gkeys m)"

lemma gget_gput [simp]: "gget (gput k v m) k' = (if k' = k then Some v else gget m k')"
  by (simp add: AList.update_conv')

lemma gget_gdel [simp]: "gget (gdel k m) k' = (if k' = k then None else gget m k')"
  by (simp add: AList.delete_conv')

lemma gmap_ok_gput [simp]: "gmap_ok m \<Longrightarrow> gmap_ok (gput k v m)"
  by (rule AList.distinct_update)

lemma gmap_ok_gdel [simp]: "gmap_ok m \<Longrightarrow> gmap_ok (gdel k m)"
  by (rule AList.distinct_delete)

declare map_of_eq_Some_iff [simp del]

lemma gget_in_set: "gmap_ok m \<Longrightarrow> (k, v) \<in> set m \<longleftrightarrow> gget m k = Some v"
  by (simp add: map_of_eq_Some_iff)

lemma bex_gomap: "gmap_ok m \<Longrightarrow> (\<exists>p \<in> set m. P p) \<longleftrightarrow> (\<exists>k v. gget m k = Some v \<and> P (k, v))"
  by (metis gget_in_set surj_pair)

lemma gkeys_iff: "k \<in> set (gkeys m) \<longleftrightarrow> gget m k \<noteq> None"
  by (simp add: map_of_eq_None_iff)

lemma gget_map_values: "gget (map (\<lambda>(k, v). (k, f k v)) m) k = map_option (f k) (gget m k)"
  by (induction m) auto

lemma gkeys_map_values [simp]: "gkeys (map (\<lambda>(k, v). (k, f k v)) m) = gkeys m"
  by (induction m) auto

text \<open>A property of every entry of a map.\<close>

definition gball :: "(string \<Rightarrow> 'v \<Rightarrow> bool) \<Rightarrow> 'v gomap \<Rightarrow> bool" where
  "gball P m \<longleftrightarrow> (\<forall>(k, v) \<in> set m. P k v)"

lemma gballD: "gball P m \<Longrightarrow> gget m k = Some v \<Longrightarrow> P k v"
  by (auto simp: gball_def dest: map_of_SomeD)

lemma gball_mono: "gball P m \<Longrightarrow> (\<And>k v. (k, v) \<in> set m \<Longrightarrow> P k v \<Longrightarrow> Q k v) \<Longrightarrow> gball Q m"
  by (auto simp: gball_def)

lemma gball_Nil [simp]: "gball P []"
  by (simp add: gball_def)

lemma gball_gput [simp]: "gball P m \<Longrightarrow> P k v \<Longrightarrow> gball P (gput k v m)"
  by (induction m) (auto simp: gball_def)

lemma gball_gdel [simp]: "gball P m \<Longrightarrow> gball P (gdel k m)"
  by (auto simp: gball_def AList.delete_eq)

lemma gball_map_values: "gball (\<lambda>k v. P k (f k v)) m \<Longrightarrow> gball P (map (\<lambda>(k, v). (k, f k v)) m)"
  by (auto simp: gball_def)

subsection \<open>Iterating over a Go map\<close>

text \<open>
  \<open>for k, v := range m\<close> visits every entry once, in an order that the language leaves open.
  The order is a parameter: a function on lists of keys, read through \<open>visit\<close>, which falls
  back to the list itself where the function does not permute it. \<open>range_map it m\<close> is the
  list of entries in the order of the visit.
\<close>

type_synonym iter_order = "string list \<Rightarrow> string list"

definition visit :: "iter_order \<Rightarrow> string list \<Rightarrow> string list" where
  "visit it ks = (if mset (it ks) = mset ks then it ks else ks)"

definition range_map :: "iter_order \<Rightarrow> 'v gomap \<Rightarrow> (string \<times> 'v) list" where
  "range_map it m = List.map_filter (\<lambda>k. map_option (Pair k) (gget m k)) (visit it (gkeys m))"

definition range_vals :: "iter_order \<Rightarrow> 'v gomap \<Rightarrow> 'v list" where
  "range_vals it m = map snd (range_map it m)"

lemma mset_visit: "mset (visit it ks) = mset ks"
  by (simp add: visit_def)

lemma mset_map_filter: "mset (List.map_filter f xs) = image_mset (\<lambda>x. the (f x)) (filter_mset (\<lambda>x. f x \<noteq> None) (mset xs))"
  by (induction xs) (auto split: option.splits)

lemma in_set_map_filter: "x \<in> set (List.map_filter f xs) \<longleftrightarrow> (\<exists>y \<in> set xs. f y = Some x)"
  by (induction xs) (auto split: option.splits)

lemma map_filter_self: "gmap_ok m \<Longrightarrow> List.map_filter (\<lambda>k. map_option (Pair k) (gget m k)) (gkeys m) = m"
proof -
  assume ok: "gmap_ok m"
  have "List.map_filter (\<lambda>k. map_option (Pair k) (gget m k)) (gkeys xs) = xs" if "set xs \<subseteq> set m" for xs
    using that by (induction xs) (auto simp: gget_in_set [OF ok])
  then show ?thesis by simp
qed

lemma mset_range_map:
  assumes "gmap_ok m"
  shows "mset (range_map it m) = mset m"
proof -
  have "mset (range_map it m) = mset (List.map_filter (\<lambda>k. map_option (Pair k) (gget m k)) (gkeys m))"
    by (simp add: range_map_def mset_map_filter mset_visit)
  then show ?thesis by (simp add: map_filter_self [OF assms])
qed

lemma set_range_map: "gmap_ok m \<Longrightarrow> set (range_map it m) = set m"
  by (metis mset_range_map set_mset_mset)

lemma distinct_range_map: "gmap_ok m \<Longrightarrow> distinct (map fst (range_map it m))"
  by (metis mset_range_map mset_map mset_eq_imp_distinct_iff)

lemma set_range_vals: "gmap_ok m \<Longrightarrow> set (range_vals it m) = ran (map_of m)"
  by (simp add: range_vals_def set_range_map ran_distinct)

text \<open>Values that carry their own key stay distinct.\<close>

lemma map_range_vals:
  assumes "gmap_ok m" and "gball (\<lambda>k v. f v = k) m"
  shows "map f (range_vals it m) = map fst (range_map it m)"
  using assms set_range_map [OF assms(1), of it] by (auto simp: range_vals_def gball_def)

lemma distinct_range_vals:
  "gmap_ok m \<Longrightarrow> gball (\<lambda>k v. f v = k) m \<Longrightarrow> distinct (map f (range_vals it m))"
  by (simp add: map_range_vals distinct_range_map)

subsection \<open>Sorting\<close>

text \<open>
  \<open>sort.Slice\<close> with a strict order on a key leaves the order of equal keys open; the stable
  \<open>sort_key\<close> applied to an arbitrarily ordered list covers every outcome. When the keys are
  distinct, the outcome does not depend on the order of the list.
\<close>

lemma sort_key_perm_eq:
  assumes "mset xs = mset ys" and "inj_on f (set xs)"
  shows "sort_key f xs = sort_key f ys"
proof (rule properties_for_sort_key)
  show "mset (sort_key f ys) = mset xs" by (simp add: assms(1))
  show "sorted (map f (sort_key f ys))" by simp
  fix k
  assume "k \<in> set (sort_key f ys)"
  then have k: "k \<in> set ys" by simp
  have eq: "set xs = set ys" using assms(1) by (metis set_mset_mset)
  have one: "filter (\<lambda>x. f k = f x) zs = replicate (count (mset zs) k) k" if "set zs \<subseteq> set ys" for zs
    using that
  proof (induction zs)
    case Nil
    then show ?case by simp
  next
    case (Cons z zs)
    have "f k = f z \<longleftrightarrow> z = k"
      using Cons.prems assms(2) eq k by (auto dest: inj_onD)
    with Cons show ?case by auto
  qed
  show "filter (\<lambda>x. f k = f x) (sort_key f ys) = filter (\<lambda>x. f k = f x) xs"
    using one [of "sort_key f ys"] one [of xs] eq by (simp add: assms(1))
qed

lemma distinct_map_sort_key [simp]: "distinct (map g (sort_key f xs)) \<longleftrightarrow> distinct (map g xs)"
  by (rule mset_eq_imp_distinct_iff) simp

subsection \<open>Running a sequence of requests\<close>

text \<open>
  The requests of a run, each with the outcome it had and the state it found. If an event needs
  a mark to be absent and sets it, and no request removes the mark, the event happens at most
  once in a run.
\<close>

fun run :: "('r \<Rightarrow> 'w \<Rightarrow> 'o \<times> 'w) \<Rightarrow> 'r list \<Rightarrow> 'w \<Rightarrow> ('r \<times> 'o) list" where
  "run f [] w = []"
| "run f (r # rs) w = (r, fst (f r w)) # run f rs (snd (f r w))"

fun final :: "('r \<Rightarrow> 'w \<Rightarrow> 'o \<times> 'w) \<Rightarrow> 'r list \<Rightarrow> 'w \<Rightarrow> 'w" where
  "final f [] w = w"
| "final f (r # rs) w = final f rs (snd (f r w))"

lemma final_invariant:
  assumes "I w" and "\<And>r w. r \<in> set rs \<Longrightarrow> I w \<Longrightarrow> I (snd (f r w))"
  shows "I (final f rs w)"
  using assms by (induction rs arbitrary: w) auto

lemma run_never:
  assumes "I w" and "S w" and "\<And>r w. r \<in> set rs \<Longrightarrow> I w \<Longrightarrow> I (snd (f r w))"
    and "\<And>r w. r \<in> set rs \<Longrightarrow> I w \<Longrightarrow> S w \<Longrightarrow> S (snd (f r w)) \<and> \<not> ev (r, fst (f r w))"
  shows "filter ev (run f rs w) = []"
  using assms by (induction rs arbitrary: w) auto

lemma run_once:
  assumes "I w" and "\<And>r w. r \<in> set rs \<Longrightarrow> I w \<Longrightarrow> I (snd (f r w))"
    and "\<And>r w. r \<in> set rs \<Longrightarrow> I w \<Longrightarrow> S w \<Longrightarrow> S (snd (f r w)) \<and> \<not> ev (r, fst (f r w))"
    and "\<And>r w. r \<in> set rs \<Longrightarrow> I w \<Longrightarrow> ev (r, fst (f r w)) \<Longrightarrow> S (snd (f r w))"
  shows "length (filter ev (run f rs w)) \<le> 1"
  using assms
proof (induction rs arbitrary: w)
  case Nil
  then show ?case by simp
next
  case (Cons r rs)
  show ?case
  proof (cases "ev (r, fst (f r w))")
    case True
    have "filter ev (run f rs (snd (f r w))) = []"
    proof (rule run_never [where I = I and S = S])
      show "I (snd (f r w))" "S (snd (f r w))" using Cons.prems(1,2,4) True by simp_all
    qed (use Cons.prems(2,3) in auto)
    with True show ?thesis by simp
  next
    case False
    have "length (filter ev (run f rs (snd (f r w)))) \<le> 1"
      by (rule Cons.IH) (use Cons.prems in auto)
    with False show ?thesis by simp
  qed
qed

end
