(* ===== verification/GoStrings.thy ===== *)
theory GoStrings
  imports Prelude
begin

section \<open>Go strings\<close>

text \<open>
  The functions of Go's \<open>strings\<close> and \<open>strconv\<close> packages that the program calls, on byte
  strings (a \<open>char\<close> is a byte). Trimming and splitting at white space follow the UTF-8
  encodings of the Unicode white-space runes; \<open>ToLower\<close> is exact on ASCII and leaves bytes
  from 0x80 on as they are (Go also lowers non-ASCII letters).
\<close>

subsection \<open>White space\<close>

text \<open>The encodings of the runes for which \<open>unicode.IsSpace\<close> holds.\<close>

definition space_runes :: "string list" where
  "space_runes =
    [[CHR 0x09], [CHR 0x0A], [CHR 0x0B], [CHR 0x0C], [CHR 0x0D], [CHR 0x20],
     [CHR 0xC2, CHR 0x85], [CHR 0xC2, CHR 0xA0], [CHR 0xE1, CHR 0x9A, CHR 0x80],
     [CHR 0xE2, CHR 0x80, CHR 0x80], [CHR 0xE2, CHR 0x80, CHR 0x81], [CHR 0xE2, CHR 0x80, CHR 0x82],
     [CHR 0xE2, CHR 0x80, CHR 0x83], [CHR 0xE2, CHR 0x80, CHR 0x84], [CHR 0xE2, CHR 0x80, CHR 0x85],
     [CHR 0xE2, CHR 0x80, CHR 0x86], [CHR 0xE2, CHR 0x80, CHR 0x87], [CHR 0xE2, CHR 0x80, CHR 0x88],
     [CHR 0xE2, CHR 0x80, CHR 0x89], [CHR 0xE2, CHR 0x80, CHR 0x8A], [CHR 0xE2, CHR 0x80, CHR 0xA8],
     [CHR 0xE2, CHR 0x80, CHR 0xA9], [CHR 0xE2, CHR 0x80, CHR 0xAF], [CHR 0xE2, CHR 0x81, CHR 0x9F],
     [CHR 0xE3, CHR 0x80, CHR 0x80]]"

text \<open>The length of the rune of \<open>rs\<close> at the front of the string, 0 if there is none.\<close>

definition lead_len :: "string list \<Rightarrow> string \<Rightarrow> nat" where
  "lead_len rs s = (case find (\<lambda>p. prefix p s) rs of None \<Rightarrow> 0 | Some p \<Rightarrow> length p)"

lemma lead_len_le: "lead_len rs s \<le> length s"
  by (auto simp: lead_len_def find_Some_iff split: option.splits dest: prefix_length_le)

lemma lead_len_Nil [simp]: "lead_len rs [] = 0"
  using lead_len_le [of rs "[]"] by simp

function trim_left :: "string list \<Rightarrow> string \<Rightarrow> string" where
  "trim_left rs s =
    (if lead_len rs s = 0 then s else trim_left rs (drop (lead_len rs s) s))"
  by pat_completeness auto
termination
proof (relation "measure (\<lambda>(rs, s). length s)")
  fix rs :: "string list" and s :: string
  assume "lead_len rs s \<noteq> 0"
  with lead_len_le [of rs s] show "((rs, drop (lead_len rs s) s), rs, s) \<in> measure (\<lambda>(rs, s). length s)"
    by auto
qed simp

declare trim_left.simps [simp del]

definition TrimSpace :: "string \<Rightarrow> string" where
  "TrimSpace s = rev (trim_left (map rev space_runes) (rev (trim_left space_runes s)))"

function fields_from :: "string \<Rightarrow> string \<Rightarrow> string list" where
  "fields_from cur [] = (if cur = [] then [] else [cur])"
| "fields_from cur (c # s) =
    (let n = lead_len space_runes (c # s)
     in if n = 0 then fields_from (cur @ [c]) s
        else (if cur = [] then [] else [cur]) @ fields_from [] (drop n (c # s)))"
  by pat_completeness auto
termination
  by (relation "measure (\<lambda>(cur, s). length s)") auto

definition Fields :: "string \<Rightarrow> string list" where
  "Fields s = fields_from [] s"

text \<open>A byte between 33 and 126 never starts a white-space rune.\<close>

definition visible :: "char \<Rightarrow> bool" where
  "visible c \<longleftrightarrow> 32 < (of_char c :: nat) \<and> (of_char c :: nat) < 127"

lemma lead_len_hd:
  assumes "\<forall>p \<in> set rs. p \<noteq> [] \<and> hd p \<noteq> c"
  shows "lead_len rs (c # s) = 0"
proof -
  have "find (\<lambda>p. prefix p (c # s)) rs = None"
    using assms by (auto simp: find_None_iff prefix_Cons)
  then show ?thesis by (simp add: lead_len_def)
qed

lemma space_runes_hd: "\<forall>p \<in> set space_runes. p \<noteq> [] \<and> \<not> visible (hd p)"
  by (simp add: space_runes_def visible_def)

lemma space_runes_last: "\<forall>p \<in> set (map rev space_runes). p \<noteq> [] \<and> \<not> visible (hd p)"
  by (simp add: space_runes_def visible_def)

lemma lead_len_visible: "visible c \<Longrightarrow> lead_len space_runes (c # s) = 0"
  using space_runes_hd by (intro lead_len_hd) auto

lemma lead_len_rev_visible: "visible c \<Longrightarrow> lead_len (map rev space_runes) (c # s) = 0"
  using space_runes_last by (intro lead_len_hd) auto

lemma lead_len_space: "lead_len space_runes (CHR '' '' # s) = 1"
  by (simp add: lead_len_def space_runes_def)

lemma trim_left_visible: "visible c \<Longrightarrow> trim_left space_runes (c # s) = c # s"
  by (subst trim_left.simps) (simp add: lead_len_visible)

lemma trim_left_rev_visible: "visible c \<Longrightarrow> trim_left (map rev space_runes) (c # s) = c # s"
  by (subst trim_left.simps) (simp add: lead_len_rev_visible)

lemma trim_left_Nil [simp]: "trim_left rs [] = []"
  by (subst trim_left.simps) simp

lemma TrimSpace_Nil [simp]: "TrimSpace [] = []"
  by (simp add: TrimSpace_def)

text \<open>A string that starts and ends with visible bytes is not trimmed.\<close>

lemma TrimSpace_visible:
  assumes "s \<noteq> []" and "visible (hd s)" and "visible (last s)"
  shows "TrimSpace s = s"
proof -
  from assms(1,2) have l: "trim_left space_runes s = s"
    by (cases s) (auto simp: trim_left_visible)
  from assms(1,3) have "trim_left (map rev space_runes) (rev s) = rev s"
    by (cases s rule: rev_cases) (auto simp: trim_left_rev_visible)
  with l show ?thesis by (simp add: TrimSpace_def)
qed

lemma trim_left_stop: "lead_len rs (trim_left rs s) = 0"
proof (induction rs s rule: trim_left.induct)
  case (1 rs s)
  then show ?case by (subst trim_left.simps) auto
qed

lemma trim_left_suffix: "suffix (trim_left rs s) s"
proof (induction rs s rule: trim_left.induct)
  case (1 rs s)
  show ?case
  proof (cases "lead_len rs s = 0")
    case True
    then show ?thesis by (subst trim_left.simps) simp
  next
    case False
    then have "suffix (trim_left rs s) (drop (lead_len rs s) s)"
      using 1 by (subst trim_left.simps) simp
    then show ?thesis using suffix_drop suffix_order.trans by blast
  qed
qed

lemma set_TrimSpace: "set (TrimSpace s) \<subseteq> set s"
proof -
  have "set (trim_left rs t) \<subseteq> set t" for rs t
    using trim_left_suffix by (rule set_mono_suffix)
  then show ?thesis by (simp add: TrimSpace_def) (metis set_rev subset_trans)
qed

subsection \<open>Joining and splitting\<close>

fun join :: "string \<Rightarrow> string list \<Rightarrow> string" where
  "join sep [] = []"
| "join sep [w] = w"
| "join sep (w # v # ws) = w @ sep @ join sep (v # ws)"

fun split_on :: "char \<Rightarrow> string \<Rightarrow> string list" where
  "split_on sep [] = [[]]"
| "split_on sep (c # s) =
    (if c = sep then [] # split_on sep s
     else case split_on sep s of [] \<Rightarrow> [[c]] | w # ws \<Rightarrow> (c # w) # ws)"

text \<open>\<open>strings.Cut\<close> at the first occurrence of a one-byte separator.\<close>

fun cut_at :: "char \<Rightarrow> string \<Rightarrow> (string \<times> string) option" where
  "cut_at sep [] = None"
| "cut_at sep (c # s) =
    (if c = sep then Some ([], s)
     else map_option (\<lambda>(a, b). (c # a, b)) (cut_at sep s))"

definition TrimPrefix :: "string \<Rightarrow> string \<Rightarrow> string" where
  "TrimPrefix s p = (if prefix p s then drop (length p) s else s)"

definition TrimSuffix :: "string \<Rightarrow> string \<Rightarrow> string" where
  "TrimSuffix s p = (if suffix p s then take (length s - length p) s else s)"

text \<open>\<open>strings.TrimRight\<close> with a cutset of one byte.\<close>

definition TrimRight1 :: "string \<Rightarrow> char \<Rightarrow> string" where
  "TrimRight1 s c = rev (dropWhile (\<lambda>x. x = c) (rev s))"

lemma cut_at_notin: "sep \<notin> set s \<Longrightarrow> cut_at sep s = None"
  by (induction s) auto

lemma cut_at_append: "sep \<notin> set a \<Longrightarrow> cut_at sep (a @ sep # b) = Some (a, b)"
  by (induction a) auto

lemma split_on_notin: "sep \<notin> set s \<Longrightarrow> split_on sep s = [s]"
  by (induction s) auto

lemma split_on_append: "sep \<notin> set a \<Longrightarrow> split_on sep (a @ sep # b) = a # split_on sep b"
  by (induction a) auto

lemma split_on_join:
  "ws \<noteq> [] \<Longrightarrow> \<forall>w \<in> set ws. sep \<notin> set w \<Longrightarrow> split_on sep (join [sep] ws) = ws"
  by (induction "[sep]" ws rule: join.induct) (auto simp: split_on_notin split_on_append)

lemma fields_from_word:
  "\<forall>c \<in> set w. visible c \<Longrightarrow> fields_from cur (w @ s) = fields_from (cur @ w) s"
  by (induction w arbitrary: cur) (auto simp: lead_len_visible)

lemma fields_from_space:
  "fields_from cur (CHR '' '' # s) = (if cur = [] then [] else [cur]) @ fields_from [] s"
  by (simp add: lead_len_space)

text \<open>Words of visible bytes, joined by single spaces, are read back by \<open>Fields\<close>.\<close>

lemma Fields_join:
  assumes "\<forall>w \<in> set ws. w \<noteq> [] \<and> (\<forall>c \<in> set w. visible c)"
  shows "Fields (join '' '' ws) = ws"
  unfolding Fields_def using assms
proof (induction "'' ''" ws rule: join.induct)
  case 1
  then show ?case by simp
next
  case (2 w)
  then show ?case using fields_from_word [of w "[]" "[]"] by simp
next
  case (3 w v ws)
  then show ?case
    using fields_from_word [of w "[]" "'' '' @ join '' '' (v # ws)"]
    by (simp add: fields_from_space del: fields_from.simps(2))
qed

subsection \<open>Letter case\<close>

definition lower_char :: "char \<Rightarrow> char" where
  "lower_char c =
    (let n = of_char c :: nat in if 65 \<le> n \<and> n \<le> 90 then char_of (n + 32) else c)"

definition ToLower :: "string \<Rightarrow> string" where
  "ToLower s = map lower_char s"

definition EqualFold :: "string \<Rightarrow> string \<Rightarrow> bool" where
  "EqualFold s t \<longleftrightarrow> ToLower s = ToLower t"

lemma lower_char_idem [simp]: "lower_char (lower_char c) = lower_char c"
  by (auto simp: lower_char_def Let_def)

lemma ToLower_idem [simp]: "ToLower (ToLower s) = ToLower s"
  by (simp add: ToLower_def)

lemma ToLower_Nil [simp]: "ToLower [] = []" and length_ToLower [simp]: "length (ToLower s) = length s"
  by (simp_all add: ToLower_def)

subsection \<open>Decimal numbers\<close>

text \<open>\<open>fmt.Sprintf\<close> with \<open>%d\<close> on a number that is not negative.\<close>

fun dec :: "nat \<Rightarrow> string" where
  "dec n = (if n < 10 then [char_of (48 + n)] else dec (n div 10) @ [char_of (48 + n mod 10)])"

declare dec.simps [simp del]

definition digit_val :: "char \<Rightarrow> nat option" where
  "digit_val c =
    (let n = of_char c :: nat in if 48 \<le> n \<and> n \<le> 57 then Some (n - 48) else None)"

fun parse_digits :: "nat \<Rightarrow> string \<Rightarrow> nat option" where
  "parse_digits acc [] = Some acc"
| "parse_digits acc (c # s) =
    (case digit_val c of None \<Rightarrow> None | Some d \<Rightarrow> parse_digits (10 * acc + d) s)"

text \<open>\<open>strconv.ParseUint(s, 10, bits)\<close>; \<open>None\<close> is a syntax or range error.\<close>

definition ParseUint :: "string \<Rightarrow> nat \<Rightarrow> nat option" where
  "ParseUint s bits =
    (if s = [] then None
     else case parse_digits 0 s of
       None \<Rightarrow> None
     | Some n \<Rightarrow> if n < 2 ^ bits then Some n else None)"

lemma digit_val_char_of: "d < 10 \<Longrightarrow> digit_val (char_of (48 + d)) = Some d"
  by (simp add: digit_val_def)

lemma parse_digits_append:
  "parse_digits acc (s @ t) = (case parse_digits acc s of None \<Rightarrow> None | Some n \<Rightarrow> parse_digits n t)"
  by (induction s arbitrary: acc) (auto split: option.splits)

lemma parse_digits_dec: "parse_digits 0 (dec n) = Some n"
proof (induction n rule: dec.induct)
  case (1 n)
  show ?case
  proof (cases "n < 10")
    case True
    then show ?thesis by (subst dec.simps) (simp add: digit_val_char_of)
  next
    case False
    with 1 show ?thesis
      by (subst dec.simps) (simp add: parse_digits_append digit_val_char_of)
  qed
qed

lemma inj_dec: "inj dec"
  by (rule injI) (metis parse_digits_dec option.inject)

lemma dec_nonempty: "dec n \<noteq> []"
  by (subst dec.simps) simp

lemma ParseUint_dec: "n < 2 ^ bits \<Longrightarrow> ParseUint (dec n) bits = Some n"
  by (simp add: ParseUint_def dec_nonempty parse_digits_dec)

lemma dec_digits: "c \<in> set (dec n) \<Longrightarrow> 48 \<le> (of_char c :: nat) \<and> (of_char c :: nat) \<le> 57"
proof (induction n rule: dec.induct)
  case (1 n)
  show ?case
  proof (cases "n < 10")
    case True
    with "1.prems" show ?thesis by (subst (asm) dec.simps) auto
  next
    case False
    with 1 show ?thesis by (subst (asm) (2) dec.simps) auto
  qed
qed

end
