(* ===== verification/Domain.thy ===== *)
theory Domain
  imports GoStrings
begin

section \<open>The domain model\<close>

text \<open>
  The structs of \<open>internal/domain\<close> as records (field names carry a prefix, since record
  fields share one name space), its string enumerations as datatypes, its sentinel errors, and
  the pending authorization request of \<open>internal/web\<close>. Instants are nanoseconds (\<open>int\<close>), so
  that \<open>t.After(u)\<close> is \<open>u < t\<close>; durations are nanoseconds too.
\<close>

datatype derr =
    ErrNotFound
  | ErrConflict
  | ErrUsed
  | ErrInvalid
  | ErrForbidden
  | ErrOther string

record user =
  uID :: string
  uEmail :: string
  uName :: string
  uPasswordHash :: string
  uEmailVerified :: bool
  uDisabled :: bool
  uCreatedAt :: int

definition zero_user :: user where
  "zero_user = \<lparr>uID = [], uEmail = [], uName = [], uPasswordHash = [], uEmailVerified = False,
     uDisabled = False, uCreatedAt = 0\<rparr>"

datatype client_type = ClientConfidential | ClientPublic

fun client_type_string :: "client_type \<Rightarrow> string" where
  "client_type_string ClientConfidential = ''confidential''"
| "client_type_string ClientPublic = ''public''"

record client =
  cID :: string
  cName :: string
  cType :: client_type
  cSecretHash :: string
  cRedirectURIs :: "string list"
  cPostLogoutRedirectURIs :: "string list"
  cFrontChannelLogoutURI :: string
  cBackChannelLogoutURI :: string
  cTokenEndpointAuth :: string

record client_patch =
  pName :: string
  pRedirectURIs :: "string list"
  pPostLogoutRedirectURIs :: "string list"
  pFrontChannelLogoutURI :: string
  pBackChannelLogoutURI :: string

record session =
  sTokenHash :: string
  sUserID :: string
  sSID :: string
  sActiveOrgID :: string
  sExpiresAt :: int

datatype org_role = OrgRoleOwner | OrgRoleMember

fun org_role_string :: "org_role \<Rightarrow> string" where
  "org_role_string OrgRoleOwner = ''owner''"
| "org_role_string OrgRoleMember = ''member''"

record organization =
  oID :: string
  oName :: string
  oCreatedAt :: int

record membership =
  mOrgID :: string
  mUserID :: string
  mRole :: org_role
  mJoinedAt :: int

record member_detail =
  dUserID :: string
  dRole :: string
  dEmail :: string
  dName :: string
  dJoinedAt :: int

record membership_view =
  vOrgID :: string
  vOrgName :: string
  vRole :: string

record auth_code =
  acHash :: string
  acClientID :: string
  acUserID :: string
  acRedirectURI :: string
  acScopes :: "string list"
  acNonce :: string
  acCodeChallenge :: string
  acSessionSID :: string
  acExpiresAt :: int
  acUsed :: bool

record refresh_token =
  rtHash :: string
  rtFamilyID :: string
  rtClientID :: string
  rtUserID :: string
  rtScopes :: "string list"
  rtSessionSID :: string
  rtExpiresAt :: int
  rtRevoked :: bool

record access_token =
  atHash :: string
  atClientID :: string
  atUserID :: string
  atScopes :: "string list"
  atSessionSID :: string
  atExpiresAt :: int

record consent =
  gUserID :: string
  gClientID :: string
  gScopes :: "string list"

datatype audit_type = AuditLoginFail | AuditConsent | AuditTokenIssue | AuditRevoke

record audit_event =
  aeID :: string
  aeType :: audit_type
  aeAt :: int
  aeSubject :: string
  aeClientID :: string
  aeIP :: string
  aeNote :: string

record audit_page =
  pgItems :: "audit_event list"
  pgNext :: string

record pending_auth =
  paClientID :: string
  paRedirectURI :: string
  paState :: string
  paNonce :: string
  paScopes :: "string list"
  paChallenge :: string
  paExpiresAt :: int

subsection \<open>Newest first\<close>

text \<open>
  Audit events are listed by descending time, then by descending identifier. The order is an
  instance of the library's \<open>linorder\<close>, so that the library's stable \<open>sort_key\<close> is the
  code's \<open>sort.SliceStable\<close>.
\<close>

datatype newest = Newest (newest_at: int) (newest_id: string)

instantiation newest :: linorder
begin

definition less_eq_newest :: "newest \<Rightarrow> newest \<Rightarrow> bool" where
  "x \<le> y \<longleftrightarrow>
    newest_at y < newest_at x \<or> newest_at x = newest_at y \<and> newest_id y \<le> newest_id x"

definition less_newest :: "newest \<Rightarrow> newest \<Rightarrow> bool" where
  "x < y \<longleftrightarrow>
    newest_at y < newest_at x \<or> newest_at x = newest_at y \<and> newest_id y < newest_id x"

instance
  by standard
    (auto simp: less_eq_newest_def less_newest_def newest.expand not_less dest: less_trans)

end

definition newest_key :: "audit_event \<Rightarrow> newest" where
  "newest_key e = Newest (aeAt e) (aeID e)"

subsection \<open>Integers of 64 bits\<close>

text \<open>The value of an \<open>int\<close> result once it is stored in Go's \<open>int64\<close>.\<close>

definition int64 :: "int \<Rightarrow> int" where
  "int64 x = (x + 2 ^ 63) mod 2 ^ 64 - 2 ^ 63"

lemma int64_id: "- (2 ^ 63) \<le> x \<Longrightarrow> x < 2 ^ 63 \<Longrightarrow> int64 x = x"
  by (simp add: int64_def)

abbreviation second :: int where
  "second \<equiv> 1000000000"

end
