(* ===== verification/Repos.thy ===== *)
theory Repos
  imports Domain
begin

section \<open>The persistence interfaces\<close>

text \<open>
  The Go interfaces of \<open>internal/domain/repos.go\<close> as records of functions over a store of
  type \<open>'s\<close>: a reading method maps the store to a result, a writing method returns its result
  and the new store (the context argument is dropped). \<open>repos\<close> is the embedding interface of
  \<open>facade.go\<close>. A component that takes an interface takes the record, as the Go code does.
  \<open>AppendAudit\<close> and the other writers return \<open>Inl\<close> with the error they report.
\<close>

type_synonym 'a res = "derr + 'a"

record 's users_if =
  Create :: "user \<Rightarrow> 's \<Rightarrow> unit res \<times> 's"
  GetByEmail :: "string \<Rightarrow> 's \<Rightarrow> user res"
  GetByID :: "string \<Rightarrow> 's \<Rightarrow> user res"
  ListUsers :: "'s \<Rightarrow> user list res"
  SetUserDisabled :: "string \<Rightarrow> bool \<Rightarrow> 's \<Rightarrow> unit res \<times> 's"

record 's sessions_if =
  PutSession :: "session \<Rightarrow> 's \<Rightarrow> unit res \<times> 's"
  GetSession :: "string \<Rightarrow> 's \<Rightarrow> session res"
  GetSessionBySID :: "string \<Rightarrow> 's \<Rightarrow> session res"
  DeleteSession :: "string \<Rightarrow> 's \<Rightarrow> unit res \<times> 's"
  AddSessionClient :: "string \<Rightarrow> string \<Rightarrow> 's \<Rightarrow> unit res \<times> 's"
  ListSessionClients :: "string \<Rightarrow> 's \<Rightarrow> string list res"

record 's clients_if =
  CreateClient :: "client \<Rightarrow> 's \<Rightarrow> unit res \<times> 's"
  GetClient :: "string \<Rightarrow> 's \<Rightarrow> client res"
  ListClients :: "'s \<Rightarrow> client list res"
  UpdateClient :: "string \<Rightarrow> client_patch \<Rightarrow> 's \<Rightarrow> unit res \<times> 's"
  SetClientSecret :: "string \<Rightarrow> string \<Rightarrow> 's \<Rightarrow> unit res \<times> 's"

record 's auth_codes_if =
  PutCode :: "auth_code \<Rightarrow> 's \<Rightarrow> unit res \<times> 's"
  TakeCode :: "string \<Rightarrow> 's \<Rightarrow> auth_code res \<times> 's"

record 's refresh_tokens_if =
  PutRefresh :: "refresh_token \<Rightarrow> 's \<Rightarrow> unit res \<times> 's"
  GetRefresh :: "string \<Rightarrow> 's \<Rightarrow> refresh_token res"
  TakeRefresh :: "string \<Rightarrow> 's \<Rightarrow> refresh_token res \<times> 's"
  RevokeFamily :: "string \<Rightarrow> 's \<Rightarrow> unit res \<times> 's"

record 's access_tokens_if =
  PutAccess :: "access_token \<Rightarrow> 's \<Rightarrow> unit res \<times> 's"
  GetAccess :: "string \<Rightarrow> 's \<Rightarrow> access_token res"

record 's consents_if =
  PutConsent :: "consent \<Rightarrow> 's \<Rightarrow> unit res \<times> 's"
  GetConsent :: "string \<Rightarrow> string \<Rightarrow> 's \<Rightarrow> consent res"

record 's audits_if =
  AppendAudit :: "audit_event \<Rightarrow> 's \<Rightarrow> unit res \<times> 's"
  ListAudits :: "int \<Rightarrow> string \<Rightarrow> 's \<Rightarrow> audit_page res"

record 's organizations_if =
  CreateOrganization :: "organization \<Rightarrow> 's \<Rightarrow> unit res \<times> 's"
  GetOrganization :: "string \<Rightarrow> 's \<Rightarrow> organization res"
  ListOrganizations :: "'s \<Rightarrow> organization list res"
  ListOrganizationsForUser :: "string \<Rightarrow> 's \<Rightarrow> organization list res"
  AddOrganizationMember :: "membership \<Rightarrow> 's \<Rightarrow> unit res \<times> 's"
  ListOrganizationMembers :: "string \<Rightarrow> 's \<Rightarrow> membership list res"
  GetOrganizationMembership :: "string \<Rightarrow> string \<Rightarrow> 's \<Rightarrow> membership res"
  UpdateOrganizationMemberRole :: "string \<Rightarrow> string \<Rightarrow> org_role \<Rightarrow> 's \<Rightarrow> unit res \<times> 's"
  RemoveOrganizationMember :: "string \<Rightarrow> string \<Rightarrow> 's \<Rightarrow> unit res \<times> 's"
  SetSessionActiveOrg :: "string \<Rightarrow> string \<Rightarrow> 's \<Rightarrow> unit res \<times> 's"
  SetSessionActiveOrgBySID :: "string \<Rightarrow> string \<Rightarrow> 's \<Rightarrow> unit res \<times> 's"

record 's repos =
  Users :: "'s users_if"
  Sessions :: "'s sessions_if"
  Clients :: "'s clients_if"
  AuthCodes :: "'s auth_codes_if"
  RefreshTokens :: "'s refresh_tokens_if"
  AccessTokens :: "'s access_tokens_if"
  Consents :: "'s consents_if"
  Audits :: "'s audits_if"
  Organizations :: "'s organizations_if"

subsection \<open>What a store means\<close>

text \<open>
  The abstract store: one finite map per table and the list of audit events in the order they
  were appended. The contracts below say what each method does to it.
\<close>

record astore =
  av_users :: "string \<rightharpoonup> user"
  av_sessions :: "string \<rightharpoonup> session"
  av_sidRP :: "string \<Rightarrow> string set"
  av_clients :: "string \<rightharpoonup> client"
  av_codes :: "string \<rightharpoonup> auth_code"
  av_refresh :: "string \<rightharpoonup> refresh_token"
  av_access :: "string \<rightharpoonup> access_token"
  av_consents :: "string \<Rightarrow> string \<rightharpoonup> consent"
  av_audits :: "audit_event list"
  av_orgs :: "string \<rightharpoonup> organization"
  av_members :: "string \<Rightarrow> string \<rightharpoonup> membership"

definition found :: "'a option \<Rightarrow> 'a res" where
  "found x = (case x of None \<Rightarrow> Inl ErrNotFound | Some v \<Rightarrow> Inr v)"

lemma found_simps [simp]: "found None = Inl ErrNotFound" "found (Some v) = Inr v"
  by (simp_all add: found_def)

lemma found_Inr [simp]: "found x = Inr v \<longleftrightarrow> x = Some v"
  by (cases x) auto

lemma found_Inl [simp]: "found x = Inl e \<longleftrightarrow> x = None \<and> e = ErrNotFound"
  by (cases x) auto

text \<open>The page of the audit trail that \<open>ListAudits\<close> returns.\<close>

definition clampAuditLimit :: "int \<Rightarrow> int" where
  "clampAuditLimit limit = (if limit \<le> 0 then 20 else if 100 < limit then 100 else limit)"

fun index_of :: "('a \<Rightarrow> bool) \<Rightarrow> 'a list \<Rightarrow> nat option" where
  "index_of P [] = None"
| "index_of P (x # xs) = (if P x then Some 0 else map_option Suc (index_of P xs))"

definition audit_window :: "int \<Rightarrow> string \<Rightarrow> audit_event list \<Rightarrow> audit_page res" where
  "audit_window limit afterID events =
    (let lim = nat (clampAuditLimit limit);
         sorted = sort_key newest_key events
     in case (if afterID = [] then Some 0
              else map_option Suc (index_of (\<lambda>e. aeID e = afterID) sorted)) of
          None \<Rightarrow> Inl ErrNotFound
        | Some start \<Rightarrow>
            if length sorted \<le> start then Inr \<lparr>pgItems = [], pgNext = []\<rparr>
            else
              let hasMore = start + lim < length sorted;
                  items = take lim (drop start sorted)
              in Inr \<lparr>pgItems = items, pgNext = (if hasMore then aeID (last items) else [])\<rparr>)"

subsection \<open>The contracts\<close>

text \<open>
  One locale per interface: what the store means (\<open>abs\<close>), what every state of it satisfies
  (\<open>inv\<close>), and what each method returns and does to the meaning. The \<open>frame\<close> laws say what a
  write leaves alone even when it is refused or replaces a row.
\<close>

locale users_repo =
  fixes U :: "'s users_if"
    and abs :: "'s \<Rightarrow> astore"
    and inv :: "'s \<Rightarrow> bool"
  assumes get_by_id: "GetByID U i s = found (av_users (abs s) i)"
    and user_key: "inv s \<Longrightarrow> av_users (abs s) i = Some u \<Longrightarrow> uID u = i"
    and user_lower: "inv s \<Longrightarrow> av_users (abs s) i = Some u \<Longrightarrow> ToLower (uEmail u) = uEmail u"
    and get_by_email: "inv s \<Longrightarrow>
      GetByEmail U e s = Inr u \<longleftrightarrow> av_users (abs s) (uID u) = Some u \<and> uEmail u = ToLower e"
    and get_by_email_err: "inv s \<Longrightarrow> GetByEmail U e s = Inl x \<Longrightarrow> x = ErrNotFound"
    and create_conflict: "inv s \<Longrightarrow> av_users (abs s) i = Some v \<Longrightarrow> uEmail v = ToLower (uEmail u) \<Longrightarrow>
      Create U u s = (Inl ErrConflict, s)"
    and create_ok: "inv s \<Longrightarrow> av_users (abs s) (uID u) = None \<Longrightarrow>
      (\<And>i v. av_users (abs s) i = Some v \<Longrightarrow> uEmail v \<noteq> ToLower (uEmail u)) \<Longrightarrow>
      fst (Create U u s) = Inr () \<and> inv (snd (Create U u s)) \<and>
      abs (snd (Create U u s)) =
        (abs s)\<lparr>av_users := (av_users (abs s))(uID u \<mapsto> u\<lparr>uEmail := ToLower (uEmail u)\<rparr>)\<rparr>"
    and list_users: "inv s \<Longrightarrow> \<exists>us. ListUsers U s = Inr us \<and>
      set us = ran (av_users (abs s)) \<and> sorted (map uEmail us) \<and> distinct (map uEmail us)"
    and set_disabled: "inv s \<Longrightarrow> av_users (abs s) i = Some u \<Longrightarrow>
      fst (SetUserDisabled U i b s) = Inr () \<and> inv (snd (SetUserDisabled U i b s)) \<and>
      abs (snd (SetUserDisabled U i b s)) =
        (abs s)\<lparr>av_users := (av_users (abs s))(i \<mapsto> u\<lparr>uDisabled := b\<rparr>)\<rparr>"
    and set_disabled_missing: "av_users (abs s) i = None \<Longrightarrow>
      SetUserDisabled U i b s = (Inl ErrNotFound, s)"
begin

text \<open>An email identifies at most one account.\<close>

lemma email_unique:
  assumes "inv s" and "av_users (abs s) i = Some u" and "av_users (abs s) j = Some v"
    and "uEmail u = uEmail v"
  shows "i = j"
proof -
  have "GetByEmail U (uEmail u) s = Inr u"
    using assms user_key user_lower by (auto simp: get_by_email)
  moreover have "GetByEmail U (uEmail u) s = Inr v"
    using assms user_key user_lower by (auto simp: get_by_email)
  ultimately have "u = v" by simp
  then show ?thesis using assms user_key by metis
qed

lemma get_by_email_iff_exists:
  assumes "inv s"
  shows "GetByEmail U e s = Inl ErrNotFound \<longleftrightarrow> (\<forall>i u. av_users (abs s) i = Some u \<longrightarrow> uEmail u \<noteq> ToLower e)"
proof (cases "GetByEmail U e s")
  case (Inl x)
  then have "x = ErrNotFound" using get_by_email_err assms by blast
  moreover have "\<not> (\<exists>i u. av_users (abs s) i = Some u \<and> uEmail u = ToLower e)"
    using Inl get_by_email [OF assms] user_key [OF assms] by (metis Inl_Inr_False)
  ultimately show ?thesis using Inl by auto
next
  case (Inr u)
  then have "av_users (abs s) (uID u) = Some u \<and> uEmail u = ToLower e"
    using get_by_email [OF assms] by blast
  with Inr show ?thesis by auto
qed

end

locale sessions_repo =
  fixes S :: "'s sessions_if"
    and abs :: "'s \<Rightarrow> astore"
    and inv :: "'s \<Rightarrow> bool"
  assumes session_key: "inv s \<Longrightarrow> av_sessions (abs s) h = Some x \<Longrightarrow> sTokenHash x = h"
    and put_session: "inv s \<Longrightarrow> av_users (abs s) (sUserID x) \<noteq> None \<Longrightarrow>
      fst (PutSession S x s) = Inr () \<and> inv (snd (PutSession S x s)) \<and>
      abs (snd (PutSession S x s)) = (abs s)\<lparr>av_sessions := (av_sessions (abs s))(sTokenHash x \<mapsto> x)\<rparr>"
    and put_session_frame: "inv s \<Longrightarrow> inv (snd (PutSession S x s)) \<and>
      (abs (snd (PutSession S x s)))\<lparr>av_sessions := av_sessions (abs s)\<rparr> = abs s \<and>
      (\<forall>h. h \<noteq> sTokenHash x \<longrightarrow> av_sessions (abs (snd (PutSession S x s))) h = av_sessions (abs s) h)"
    and get_session: "GetSession S h s = found (av_sessions (abs s) h)"
    and get_by_sid: "inv s \<Longrightarrow> GetSessionBySID S sid s = Inr x \<Longrightarrow>
      av_sessions (abs s) (sTokenHash x) = Some x \<and> sSID x = sid"
    and get_by_sid_none: "inv s \<Longrightarrow> GetSessionBySID S sid s = Inl e \<Longrightarrow>
      e = ErrNotFound \<and> (\<forall>h x. av_sessions (abs s) h = Some x \<longrightarrow> sSID x \<noteq> sid)"
    and delete_session: "inv s \<Longrightarrow>
      fst (DeleteSession S h s) = Inr () \<and> inv (snd (DeleteSession S h s)) \<and>
      abs (snd (DeleteSession S h s)) =
        (abs s)\<lparr>av_sessions := (av_sessions (abs s))(h := None),
          av_sidRP := (case av_sessions (abs s) h of
             Some x \<Rightarrow> if sSID x = [] then av_sidRP (abs s) else (av_sidRP (abs s))(sSID x := {})
           | None \<Rightarrow> av_sidRP (abs s))\<rparr>"
    and add_client: "inv s \<Longrightarrow>
      fst (AddSessionClient S sid c s) = Inr () \<and> inv (snd (AddSessionClient S sid c s)) \<and>
      abs (snd (AddSessionClient S sid c s)) =
        (if sid = [] \<or> c = [] then abs s
         else (abs s)\<lparr>av_sidRP := (av_sidRP (abs s))(sid := insert c (av_sidRP (abs s) sid))\<rparr>)"
    and list_clients: "inv s \<Longrightarrow> sid \<noteq> [] \<Longrightarrow> \<exists>cs. ListSessionClients S sid s = Inr cs \<and>
      set cs = av_sidRP (abs s) sid \<and> sorted cs \<and> distinct cs"

locale clients_repo =
  fixes C :: "'s clients_if"
    and abs :: "'s \<Rightarrow> astore"
    and inv :: "'s \<Rightarrow> bool"
  assumes client_key: "inv s \<Longrightarrow> av_clients (abs s) i = Some c \<Longrightarrow> cID c = i"
    and get_client: "GetClient C i s = found (av_clients (abs s) i)"
    and create_client_conflict: "av_clients (abs s) (cID c) = Some d \<Longrightarrow>
      CreateClient C c s = (Inl ErrConflict, s)"
    and create_client: "inv s \<Longrightarrow> av_clients (abs s) (cID c) = None \<Longrightarrow>
      fst (CreateClient C c s) = Inr () \<and> inv (snd (CreateClient C c s)) \<and>
      abs (snd (CreateClient C c s)) = (abs s)\<lparr>av_clients := (av_clients (abs s))(cID c \<mapsto> c)\<rparr>"
    and list_all_clients: "inv s \<Longrightarrow> \<exists>cs. ListClients C s = Inr cs \<and>
      set cs = ran (av_clients (abs s)) \<and> sorted (map cID cs) \<and> distinct (map cID cs)"
    and update_client_missing: "av_clients (abs s) i = None \<Longrightarrow>
      UpdateClient C i p s = (Inl ErrNotFound, s)"
    and update_client: "inv s \<Longrightarrow> av_clients (abs s) i = Some c \<Longrightarrow>
      fst (UpdateClient C i p s) = Inr () \<and> inv (snd (UpdateClient C i p s)) \<and>
      abs (snd (UpdateClient C i p s)) =
        (abs s)\<lparr>av_clients := (av_clients (abs s))(i \<mapsto>
          c\<lparr>cName := pName p, cRedirectURIs := pRedirectURIs p,
            cPostLogoutRedirectURIs := pPostLogoutRedirectURIs p,
            cFrontChannelLogoutURI := pFrontChannelLogoutURI p,
            cBackChannelLogoutURI := pBackChannelLogoutURI p\<rparr>)\<rparr>"
    and set_secret_missing: "av_clients (abs s) i = None \<Longrightarrow>
      SetClientSecret C i x s = (Inl ErrNotFound, s)"
    and set_secret: "inv s \<Longrightarrow> av_clients (abs s) i = Some c \<Longrightarrow>
      fst (SetClientSecret C i x s) = Inr () \<and> inv (snd (SetClientSecret C i x s)) \<and>
      abs (snd (SetClientSecret C i x s)) =
        (abs s)\<lparr>av_clients := (av_clients (abs s))(i \<mapsto> c\<lparr>cSecretHash := x\<rparr>)\<rparr>"

text \<open>A run of takes, with the keys in any order; the results are kept with their keys.\<close>

fun run_takes :: "(string \<Rightarrow> 's \<Rightarrow> 'r res \<times> 's) \<Rightarrow> string list \<Rightarrow> 's \<Rightarrow> (string \<times> 'r res) list" where
  "run_takes take_row [] s = []"
| "run_takes take_row (h # hs) s = (h, fst (take_row h s)) # run_takes take_row hs (snd (take_row h s))"

text \<open>
  Authorization codes and refresh tokens are rows that can be taken once: the contract they
  share, and what follows for any sequence of takes.
\<close>

locale take_once =
  fixes take_row :: "string \<Rightarrow> 's \<Rightarrow> 'r res \<times> 's"
    and rows :: "'s \<Rightarrow> string \<rightharpoonup> 'r"
    and inv :: "'s \<Rightarrow> bool"
    and spent :: "'r \<Rightarrow> bool"
    and mark :: "'r \<Rightarrow> 'r"
  assumes take_missing: "rows s h = None \<Longrightarrow> take_row h s = (Inl ErrNotFound, s)"
    and take_spent: "rows s h = Some r \<Longrightarrow> spent r \<Longrightarrow> take_row h s = (Inl ErrUsed, s)"
    and take_live: "inv s \<Longrightarrow> rows s h = Some r \<Longrightarrow> \<not> spent r \<Longrightarrow>
      fst (take_row h s) = Inr (mark r) \<and> inv (snd (take_row h s)) \<and>
      rows (snd (take_row h s)) = (rows s)(h \<mapsto> mark r)"
    and spent_mark: "spent (mark r)"
begin

lemma take_inv: "inv s \<Longrightarrow> inv (snd (take_row h s))"
  using take_missing take_spent take_live by (cases "rows s h") (metis snd_conv option.exhaust)+

lemma take_ok_iff: "inv s \<Longrightarrow> (\<exists>r. fst (take_row h s) = Inr r) \<longleftrightarrow> (\<exists>r. rows s h = Some r \<and> \<not> spent r)"
  using take_missing take_spent take_live
  by (cases "rows s h") (metis fst_conv Inl_Inr_False option.distinct(1) option.inject)+

lemma take_okD:
  assumes "inv s" and "fst (take_row h s) = Inr r"
  obtains r0 where "rows s h = Some r0" "\<not> spent r0" "r = mark r0"
    "rows (snd (take_row h s)) = (rows s)(h \<mapsto> r)"
  using assms take_ok_iff take_live by (metis sum.inject(2))

lemma taken_stays:
  assumes "inv s" and "rows s h = Some r" and "spent r"
  shows "\<exists>r'. rows (snd (take_row k s)) h = Some r' \<and> spent r'"
proof (cases "rows s k")
  case None
  then show ?thesis using take_missing assms by simp
next
  case (Some q)
  show ?thesis
  proof (cases "spent q")
    case True
    then show ?thesis using take_spent [OF Some True] assms by simp
  next
    case False
    then show ?thesis using take_live [OF assms(1) Some False] assms spent_mark by auto
  qed
qed

lemma takes_spent:
  "inv s \<Longrightarrow> rows s h = Some r \<Longrightarrow> spent r \<Longrightarrow> (h, Inr x) \<notin> set (run_takes take_row hs s)"
proof (induction hs arbitrary: s r)
  case Nil
  then show ?case by simp
next
  case (Cons k hs)
  obtain r' where r': "rows (snd (take_row k s)) h = Some r'" "spent r'"
    using taken_stays Cons.prems by blast
  have "(h, Inr x) \<notin> set (run_takes take_row hs (snd (take_row k s)))"
    using Cons.IH [OF take_inv [OF Cons.prems(1)] r'] .
  then show ?case using take_spent [OF Cons.prems(2,3)] by auto
qed

text \<open>Of all the takes of one key in a run, at most one succeeds.\<close>

lemma takes_once: "inv s \<Longrightarrow> length (filter (\<lambda>(k, x). k = h \<and> is_ok x) (run_takes take_row hs s)) \<le> 1"
proof (induction hs arbitrary: s)
  case Nil
  then show ?case by simp
next
  case (Cons k hs)
  let ?s = "snd (take_row k s)"
  have inv': "inv ?s" using take_inv Cons.prems by blast
  show ?case
  proof (cases "k = h \<and> is_ok (fst (take_row k s))")
    case True
    then obtain r where r: "fst (take_row h s) = Inr r" by (auto simp: is_ok_iff)
    then obtain r0 where r0: "rows ?s h = Some r" "r = mark r0"
      using take_okD [OF Cons.prems r] True by (metis fun_upd_same)
    have "(h, Inr x) \<notin> set (run_takes take_row hs ?s)" for x
      using takes_spent [OF inv' r0(1)] spent_mark r0(2) by blast
    then have "filter (\<lambda>(k, x). k = h \<and> is_ok x) (run_takes take_row hs ?s) = []"
      by (auto simp: filter_empty_conv is_ok_iff)
    with True show ?thesis by simp
  next
    case False
    then show ?thesis using Cons.IH [OF inv'] by auto
  qed
qed

end

locale auth_codes_repo =
  fixes A :: "'s auth_codes_if"
    and abs :: "'s \<Rightarrow> astore"
    and inv :: "'s \<Rightarrow> bool"
  assumes put_code: "inv s \<Longrightarrow> av_codes (abs s) (acHash c) = None \<Longrightarrow>
      fst (PutCode A c s) = Inr () \<and> inv (snd (PutCode A c s)) \<and>
      abs (snd (PutCode A c s)) = (abs s)\<lparr>av_codes := (av_codes (abs s))(acHash c \<mapsto> c)\<rparr>"
    and put_code_frame: "inv s \<Longrightarrow> inv (snd (PutCode A c s)) \<and>
      (abs (snd (PutCode A c s)))\<lparr>av_codes := av_codes (abs s)\<rparr> = abs s \<and>
      (\<forall>h. av_codes (abs (snd (PutCode A c s))) h = av_codes (abs s) h \<or>
        h = acHash c \<and> av_codes (abs (snd (PutCode A c s))) h = Some c)"
    and take_code_missing: "av_codes (abs s) h = None \<Longrightarrow> TakeCode A h s = (Inl ErrNotFound, s)"
    and take_code_used: "av_codes (abs s) h = Some c \<Longrightarrow> acUsed c \<Longrightarrow> TakeCode A h s = (Inl ErrUsed, s)"
    and take_code: "inv s \<Longrightarrow> av_codes (abs s) h = Some c \<Longrightarrow> \<not> acUsed c \<Longrightarrow>
      fst (TakeCode A h s) = Inr (c\<lparr>acUsed := True\<rparr>) \<and> inv (snd (TakeCode A h s)) \<and>
      abs (snd (TakeCode A h s)) = (abs s)\<lparr>av_codes := (av_codes (abs s))(h \<mapsto> c\<lparr>acUsed := True\<rparr>)\<rparr>"

sublocale auth_codes_repo \<subseteq> codes: take_once "TakeCode A" "\<lambda>s. av_codes (abs s)" inv acUsed "\<lambda>c. c\<lparr>acUsed := True\<rparr>"
  by unfold_locales (auto simp: take_code_missing take_code_used take_code)

locale refresh_tokens_repo =
  fixes T :: "'s refresh_tokens_if"
    and abs :: "'s \<Rightarrow> astore"
    and inv :: "'s \<Rightarrow> bool"
  assumes put_refresh: "inv s \<Longrightarrow>
      fst (PutRefresh T t s) = Inr () \<and> inv (snd (PutRefresh T t s)) \<and>
      abs (snd (PutRefresh T t s)) = (abs s)\<lparr>av_refresh := (av_refresh (abs s))(rtHash t \<mapsto> t)\<rparr>"
    and get_refresh: "GetRefresh T h s = found (av_refresh (abs s) h)"
    and take_refresh_missing: "av_refresh (abs s) h = None \<Longrightarrow> TakeRefresh T h s = (Inl ErrNotFound, s)"
    and take_refresh_used: "av_refresh (abs s) h = Some t \<Longrightarrow> rtRevoked t \<Longrightarrow> TakeRefresh T h s = (Inl ErrUsed, s)"
    and take_refresh: "inv s \<Longrightarrow> av_refresh (abs s) h = Some t \<Longrightarrow> \<not> rtRevoked t \<Longrightarrow>
      fst (TakeRefresh T h s) = Inr (t\<lparr>rtRevoked := True\<rparr>) \<and> inv (snd (TakeRefresh T h s)) \<and>
      abs (snd (TakeRefresh T h s)) =
        (abs s)\<lparr>av_refresh := (av_refresh (abs s))(h \<mapsto> t\<lparr>rtRevoked := True\<rparr>)\<rparr>"
    and revoke_family: "inv s \<Longrightarrow>
      fst (RevokeFamily T f s) = Inr () \<and> inv (snd (RevokeFamily T f s)) \<and>
      abs (snd (RevokeFamily T f s)) =
        (abs s)\<lparr>av_refresh := (\<lambda>h. map_option
          (\<lambda>t. if rtFamilyID t = f then t\<lparr>rtRevoked := True\<rparr> else t) (av_refresh (abs s) h))\<rparr>"

sublocale refresh_tokens_repo \<subseteq> refreshes: take_once "TakeRefresh T" "\<lambda>s. av_refresh (abs s)" inv rtRevoked "\<lambda>t. t\<lparr>rtRevoked := True\<rparr>"
  by unfold_locales (auto simp: take_refresh_missing take_refresh_used take_refresh)

locale access_tokens_repo =
  fixes B :: "'s access_tokens_if"
    and abs :: "'s \<Rightarrow> astore"
    and inv :: "'s \<Rightarrow> bool"
  assumes put_access: "inv s \<Longrightarrow>
      fst (PutAccess B t s) = Inr () \<and> inv (snd (PutAccess B t s)) \<and>
      abs (snd (PutAccess B t s)) = (abs s)\<lparr>av_access := (av_access (abs s))(atHash t \<mapsto> t)\<rparr>"
    and get_access: "GetAccess B h s = found (av_access (abs s) h)"

locale consents_repo =
  fixes G :: "'s consents_if"
    and abs :: "'s \<Rightarrow> astore"
    and inv :: "'s \<Rightarrow> bool"
  assumes put_consent: "inv s \<Longrightarrow> CHR ''|'' \<notin> set (gUserID c) \<Longrightarrow>
      fst (PutConsent G c s) = Inr () \<and> inv (snd (PutConsent G c s)) \<and>
      abs (snd (PutConsent G c s)) =
        (abs s)\<lparr>av_consents := (av_consents (abs s))(gUserID c :=
          (av_consents (abs s) (gUserID c))(gClientID c \<mapsto> c))\<rparr>"
    and put_consent_frame: "inv s \<Longrightarrow> inv (snd (PutConsent G c s)) \<and>
      (abs (snd (PutConsent G c s)))\<lparr>av_consents := av_consents (abs s)\<rparr> = abs s"
    and get_consent: "CHR ''|'' \<notin> set u \<Longrightarrow> GetConsent G u cl s = found (av_consents (abs s) u cl)"

locale audits_repo =
  fixes L :: "'s audits_if"
    and abs :: "'s \<Rightarrow> astore"
    and inv :: "'s \<Rightarrow> bool"
  assumes append_audit: "inv s \<Longrightarrow> aeID e \<notin> aeID ` set (av_audits (abs s)) \<Longrightarrow>
      fst (AppendAudit L e s) = Inr () \<and> inv (snd (AppendAudit L e s)) \<and>
      abs (snd (AppendAudit L e s)) = (abs s)\<lparr>av_audits := av_audits (abs s) @ [e]\<rparr>"
    and append_frame: "inv s \<Longrightarrow> inv (snd (AppendAudit L e s)) \<and>
      (abs (snd (AppendAudit L e s)))\<lparr>av_audits := av_audits (abs s)\<rparr> = abs s"
    and list_audits: "inv s \<Longrightarrow> distinct (map aeID (av_audits (abs s))) \<Longrightarrow>
      ListAudits L limit after s = audit_window limit after (av_audits (abs s))"

locale organizations_repo =
  fixes N :: "'s organizations_if"
    and abs :: "'s \<Rightarrow> astore"
    and inv :: "'s \<Rightarrow> bool"
  assumes org_key: "inv s \<Longrightarrow> av_orgs (abs s) i = Some org \<Longrightarrow> oID org = i"
    and member_key: "inv s \<Longrightarrow> av_members (abs s) i u = Some m \<Longrightarrow> mOrgID m = i \<and> mUserID m = u"
    and create_org: "inv s \<Longrightarrow> av_orgs (abs s) (oID org) = None \<Longrightarrow>
      fst (CreateOrganization N org s) = Inr () \<and> inv (snd (CreateOrganization N org s)) \<and>
      abs (snd (CreateOrganization N org s)) = (abs s)\<lparr>av_orgs := (av_orgs (abs s))(oID org \<mapsto> org)\<rparr>"
    and get_org: "GetOrganization N i s = found (av_orgs (abs s) i)"
    and list_orgs: "inv s \<Longrightarrow> \<exists>os. ListOrganizations N s = Inr os \<and>
      set os = ran (av_orgs (abs s)) \<and> distinct (map oID os) \<and> sorted (map oCreatedAt os)"
    and list_for_user: "inv s \<Longrightarrow> \<exists>os. ListOrganizationsForUser N u s = Inr os \<and>
      set os = {org. \<exists>i. av_members (abs s) i u \<noteq> None \<and> av_orgs (abs s) i = Some org} \<and>
      distinct (map oID os) \<and> sorted (map oCreatedAt os)"
    and add_member_conflict: "inv s \<Longrightarrow> av_members (abs s) (mOrgID m) (mUserID m) = Some m' \<Longrightarrow>
      fst (AddOrganizationMember N m s) = Inl ErrConflict \<and> inv (snd (AddOrganizationMember N m s)) \<and>
      abs (snd (AddOrganizationMember N m s)) = abs s"
    and add_member: "inv s \<Longrightarrow> av_members (abs s) (mOrgID m) (mUserID m) = None \<Longrightarrow>
      av_orgs (abs s) (mOrgID m) \<noteq> None \<Longrightarrow> av_users (abs s) (mUserID m) \<noteq> None \<Longrightarrow>
      fst (AddOrganizationMember N m s) = Inr () \<and> inv (snd (AddOrganizationMember N m s)) \<and>
      abs (snd (AddOrganizationMember N m s)) =
        (abs s)\<lparr>av_members := (av_members (abs s))(mOrgID m :=
          (av_members (abs s) (mOrgID m))(mUserID m \<mapsto> m))\<rparr>"
    and list_members: "inv s \<Longrightarrow> \<exists>ms. ListOrganizationMembers N i s = Inr ms \<and>
      set ms = ran (av_members (abs s) i) \<and> distinct (map mUserID ms) \<and> sorted (map mJoinedAt ms)"
    and get_membership: "GetOrganizationMembership N i u s = found (av_members (abs s) i u)"
    and update_role_missing: "av_members (abs s) i u = None \<Longrightarrow>
      UpdateOrganizationMemberRole N i u r s = (Inl ErrNotFound, s)"
    and update_role: "inv s \<Longrightarrow> av_members (abs s) i u = Some m \<Longrightarrow>
      fst (UpdateOrganizationMemberRole N i u r s) = Inr () \<and>
      inv (snd (UpdateOrganizationMemberRole N i u r s)) \<and>
      abs (snd (UpdateOrganizationMemberRole N i u r s)) =
        (abs s)\<lparr>av_members := (av_members (abs s))(i := (av_members (abs s) i)(u \<mapsto> m\<lparr>mRole := r\<rparr>))\<rparr>"
    and remove_member_missing: "av_members (abs s) i u = None \<Longrightarrow>
      RemoveOrganizationMember N i u s = (Inl ErrNotFound, s)"
    and remove_member: "inv s \<Longrightarrow> av_members (abs s) i u = Some m \<Longrightarrow>
      fst (RemoveOrganizationMember N i u s) = Inr () \<and>
      inv (snd (RemoveOrganizationMember N i u s)) \<and>
      abs (snd (RemoveOrganizationMember N i u s)) =
        (abs s)\<lparr>av_members := (av_members (abs s))(i := (av_members (abs s) i)(u := None))\<rparr>"
    and set_active_missing: "av_sessions (abs s) h = None \<Longrightarrow>
      SetSessionActiveOrg N h i s = (Inl ErrNotFound, s)"
    and set_active: "inv s \<Longrightarrow> av_sessions (abs s) h = Some x \<Longrightarrow>
      fst (SetSessionActiveOrg N h i s) = Inr () \<and> inv (snd (SetSessionActiveOrg N h i s)) \<and>
      abs (snd (SetSessionActiveOrg N h i s)) =
        (abs s)\<lparr>av_sessions := (av_sessions (abs s))(h \<mapsto> x\<lparr>sActiveOrgID := i\<rparr>)\<rparr>"
    and set_active_by_sid_blank: "SetSessionActiveOrgBySID N [] i s = (Inl ErrInvalid, s)"
    and set_active_by_sid_missing: "inv s \<Longrightarrow> TrimSpace sid \<noteq> [] \<Longrightarrow>
      (\<And>k y. av_sessions (abs s) k = Some y \<Longrightarrow> sSID y \<noteq> sid) \<Longrightarrow>
      SetSessionActiveOrgBySID N sid i s = (Inl ErrNotFound, s)"
    and set_active_by_sid: "inv s \<Longrightarrow> sid \<noteq> [] \<Longrightarrow> av_sessions (abs s) h = Some x \<Longrightarrow> sSID x = sid \<Longrightarrow>
      (\<And>k y. av_sessions (abs s) k = Some y \<Longrightarrow> sSID y = sid \<Longrightarrow> k = h) \<Longrightarrow>
      fst (SetSessionActiveOrgBySID N sid i s) = Inr () \<and>
      inv (snd (SetSessionActiveOrgBySID N sid i s)) \<and>
      abs (snd (SetSessionActiveOrgBySID N sid i s)) =
        (abs s)\<lparr>av_sessions := (av_sessions (abs s))(h \<mapsto> x\<lparr>sActiveOrgID := i\<rparr>)\<rparr>"
    and set_active_by_sid_frame: "inv s \<Longrightarrow> inv (snd (SetSessionActiveOrgBySID N sid i s)) \<and>
      (abs (snd (SetSessionActiveOrgBySID N sid i s)))\<lparr>av_sessions := av_sessions (abs s)\<rparr> = abs s \<and>
      (\<forall>h. map_option (sActiveOrgID_update (\<lambda>_. [])) (av_sessions (abs (snd (SetSessionActiveOrgBySID N sid i s))) h) =
        map_option (sActiveOrgID_update (\<lambda>_. [])) (av_sessions (abs s) h))"

text \<open>The full persistence surface.\<close>

locale repos_contract =
  users_repo "Users R" abs inv + sessions_repo "Sessions R" abs inv +
  clients_repo "Clients R" abs inv + auth_codes_repo "AuthCodes R" abs inv +
  refresh_tokens_repo "RefreshTokens R" abs inv + access_tokens_repo "AccessTokens R" abs inv +
  consents_repo "Consents R" abs inv + audits_repo "Audits R" abs inv +
  organizations_repo "Organizations R" abs inv
  for R :: "'s repos" and abs :: "'s \<Rightarrow> astore" and inv :: "'s \<Rightarrow> bool"

end
