(* ===== verification/Codec.thy ===== *)
theory Codec
  imports GoStrings "HOL-Library.Word"
begin

section \<open>SHA-256 and base64\<close>

text \<open>
  The two codecs of the standard library that the program stores and compares: SHA-256
  (\<open>crypto/sha256\<close>) and base64 without padding (\<open>base64.RawURLEncoding\<close> for tokens and PKCE
  challenges, \<open>base64.RawStdEncoding\<close> inside password hashes). Byte slices are byte strings.
\<close>

unbundle bit_operations_syntax

subsection \<open>SHA-256\<close>

type_synonym u32 = "32 word"

definition rotr32 :: "nat \<Rightarrow> u32 \<Rightarrow> u32" where
  "rotr32 n x = drop_bit n x OR push_bit (32 - n) x"

definition sha_k :: "u32 list" where
  "sha_k =
    [1116352408, 1899447441, 3049323471, 3921009573, 961987163, 1508970993, 2453635748, 2870763221,
     3624381080, 310598401, 607225278, 1426881987, 1925078388, 2162078206, 2614888103, 3248222580,
     3835390401, 4022224774, 264347078, 604807628, 770255983, 1249150122, 1555081692, 1996064986,
     2554220882, 2821834349, 2952996808, 3210313671, 3336571891, 3584528711, 113926993, 338241895,
     666307205, 773529912, 1294757372, 1396182291, 1695183700, 1986661051, 2177026350, 2456956037,
     2730485921, 2820302411, 3259730800, 3345764771, 3516065817, 3600352804, 4094571909, 275423344,
     430227734, 506948616, 659060556, 883997877, 958139571, 1322822218, 1537002063, 1747873779,
     1955562222, 2024104815, 2227730452, 2361852424, 2428436474, 2756734187, 3204031479, 3329325298]"

type_synonym sha_state = "u32 \<times> u32 \<times> u32 \<times> u32 \<times> u32 \<times> u32 \<times> u32 \<times> u32"

definition sha_init :: sha_state where
  "sha_init =
    (1779033703, 3144134277, 1013904242, 2773480762, 1359893119, 2600822924, 528734635, 1541459225)"

text \<open>The message schedule, newest word first.\<close>

fun sha_sched :: "nat \<Rightarrow> u32 list \<Rightarrow> u32 list" where
  "sha_sched 0 ws = ws"
| "sha_sched (Suc n) ws =
    (let w15 = ws ! 14; w2 = ws ! 1;
         s0 = rotr32 7 w15 XOR rotr32 18 w15 XOR drop_bit 3 w15;
         s1 = rotr32 17 w2 XOR rotr32 19 w2 XOR drop_bit 10 w2
     in sha_sched n ((ws ! 15 + s0 + ws ! 6 + s1) # ws))"

fun sha_round :: "u32 \<times> u32 \<Rightarrow> sha_state \<Rightarrow> sha_state" where
  "sha_round (k, w) (a, b, c, d, e, f, g, h) =
    (let t1 = h + (rotr32 6 e XOR rotr32 11 e XOR rotr32 25 e) + ((e AND f) XOR (NOT e AND g)) + k + w;
         t2 = (rotr32 2 a XOR rotr32 13 a XOR rotr32 22 a) + ((a AND b) XOR (a AND c) XOR (b AND c))
     in (t1 + t2, a, b, c, d + t1, e, f, g))"

fun sha_add :: "sha_state \<Rightarrow> sha_state \<Rightarrow> sha_state" where
  "sha_add (a, b, c, d, e, f, g, h) (a', b', c', d', e', f', g', h') =
    (a + a', b + b', c + c', d + d', e + e', f + f', g + g', h + h')"

definition sha_block :: "sha_state \<Rightarrow> u32 list \<Rightarrow> sha_state" where
  "sha_block st blk = sha_add st (fold sha_round (zip sha_k (rev (sha_sched 48 (rev blk)))) st)"

fun be_words :: "string \<Rightarrow> u32 list" where
  "be_words (a # b # c # d # r) =
    of_int (of_char a * 16777216 + of_char b * 65536 + of_char c * 256 + of_char d) # be_words r"
| "be_words _ = []"

definition sha_pad :: "string \<Rightarrow> string" where
  "sha_pad m =
    m @ [CHR 0x80] @ replicate ((119 - length m mod 64) mod 64) (CHR 0x00) @
    map (\<lambda>i. char_of (8 * int (length m) div 256 ^ i mod 256)) (rev [0..<8])"

function sha_blocks :: "sha_state \<Rightarrow> u32 list \<Rightarrow> sha_state" where
  "sha_blocks st ws =
    (if length ws < 16 then st else sha_blocks (sha_block st (take 16 ws)) (drop 16 ws))"
  by pat_completeness auto
termination
  by (relation "measure (\<lambda>(st, ws). length ws)") auto

declare sha_blocks.simps [simp del]

fun be_bytes :: "u32 \<Rightarrow> string" where
  "be_bytes w =
    [char_of (uint (drop_bit 24 w)), char_of (uint (drop_bit 16 w) mod 256),
     char_of (uint (drop_bit 8 w) mod 256), char_of (uint w mod 256)]"

definition Sum256 :: "string \<Rightarrow> string" where
  "Sum256 m =
    (case sha_blocks sha_init (be_words (sha_pad m)) of
      (a, b, c, d, e, f, g, h) \<Rightarrow> concat (map be_bytes [a, b, c, d, e, f, g, h]))"

lemma length_Sum256: "length (Sum256 m) = 32"
  by (simp add: Sum256_def split: prod.splits)

subsection \<open>Base64\<close>

definition std_char :: "nat \<Rightarrow> char" where
  "std_char i =
    (if i < 26 then char_of (65 + i) else if i < 52 then char_of (71 + i)
     else if i < 62 then char_of (i - 4) else if i = 62 then CHR ''+'' else CHR ''/'')"

definition url_char :: "nat \<Rightarrow> char" where
  "url_char i = (if i < 62 then std_char i else if i = 62 then CHR ''-'' else CHR ''_'')"

definition std_val :: "char \<Rightarrow> nat option" where
  "std_val c =
    (let n = of_char c :: nat
     in if 65 \<le> n \<and> n \<le> 90 then Some (n - 65) else if 97 \<le> n \<and> n \<le> 122 then Some (n - 71)
        else if 48 \<le> n \<and> n \<le> 57 then Some (n + 4) else if c = CHR ''+'' then Some 62
        else if c = CHR ''/'' then Some 63 else None)"

fun b64_enc :: "(nat \<Rightarrow> 'c) \<Rightarrow> string \<Rightarrow> 'c list" where
  "b64_enc al [] = []"
| "b64_enc al [a] = [al (of_char a div 4), al (of_char a mod 4 * 16)]"
| "b64_enc al [a, b] =
    [al (of_char a div 4), al (of_char a mod 4 * 16 + of_char b div 16), al (of_char b mod 16 * 4)]"
| "b64_enc al (a # b # c # r) =
    [al (of_char a div 4), al (of_char a mod 4 * 16 + of_char b div 16),
     al (of_char b mod 16 * 4 + of_char c div 64), al (of_char c mod 64)] @ b64_enc al r"

text \<open>
  Decoding skips line breaks; a single left-over digit is an error, and the unused bits of a
  short last group are ignored (the encodings are not strict).
\<close>

fun b64_dec :: "nat list \<Rightarrow> string option" where
  "b64_dec [] = Some []"
| "b64_dec [x] = None"
| "b64_dec [x, y] = Some [char_of (x * 4 + y div 16)]"
| "b64_dec [x, y, z] = Some [char_of (x * 4 + y div 16), char_of (y mod 16 * 16 + z div 4)]"
| "b64_dec (x # y # z # w # r) =
    map_option (\<lambda>t. char_of (x * 4 + y div 16) # char_of (y mod 16 * 16 + z div 4) #
        char_of (z mod 4 * 64 + w) # t) (b64_dec r)"

fun all_some :: "'a option list \<Rightarrow> 'a list option" where
  "all_some [] = Some []"
| "all_some (None # xs) = None"
| "all_some (Some x # xs) = map_option (Cons x) (all_some xs)"

definition RawURLEncode :: "string \<Rightarrow> string" where
  "RawURLEncode s = b64_enc url_char s"

definition RawStdEncode :: "string \<Rightarrow> string" where
  "RawStdEncode s = b64_enc std_char s"

definition RawStdDecode :: "string \<Rightarrow> string option" where
  "RawStdDecode s =
    (case all_some (map std_val (filter (\<lambda>c. c \<noteq> CHR 0x0A \<and> c \<noteq> CHR 0x0D) s)) of
       None \<Rightarrow> None
     | Some vs \<Rightarrow> b64_dec vs)"

lemma b64_enc_map: "b64_enc al s = map al (b64_enc (\<lambda>i. i) s)"
  by (induction "\<lambda>i::nat. i" s rule: b64_enc.induct) auto

lemma b64_join:
  fixes x y :: nat
  assumes "y < 256"
  shows "(x mod 4 * 16 + y div 16) div 16 = x mod 4"
    and "(x mod 4 * 16 + y div 16) mod 16 = y div 16"
    and "(x mod 16 * 4 + y div 64) div 4 = x mod 16"
    and "(x mod 16 * 4 + y div 64) mod 4 = y div 64"
  using assms by (simp_all add: div_mult_self3 mod_mult_self3 div_less_iff_less_mult)

lemma b64_small:
  fixes y :: nat
  assumes "y < 256"
  shows "y div 4 < 64" and "y div 16 < 16" and "y div 64 < 4"
    and "y div 16 div 16 = 0" and "y div 16 mod 16 = y div 16"
    and "y div 64 div 4 = 0" and "y div 64 mod 4 = y div 64"
  using assms by (simp_all add: div_less_iff_less_mult)

lemma b64_digit2: "y < 256 \<Longrightarrow> x mod 4 * 16 + y div 16 < 64" for x y :: nat
proof -
  assume "y < 256"
  then have "y div 16 < 16" by (rule b64_small)
  moreover have "x mod 4 < 4" by simp
  ultimately show ?thesis by linarith
qed

lemma b64_digit3: "y < 256 \<Longrightarrow> x mod 16 * 4 + y div 64 < 64" for x y :: nat
proof -
  assume "y < 256"
  then have "y div 64 < 4" by (rule b64_small)
  moreover have "x mod 16 < 16" by simp
  ultimately show ?thesis by linarith
qed

lemma b64_digit1: "x mod 4 * 16 < 64" "x mod 16 * 4 < 64" for x :: nat
  using b64_digit2 [of 0 x] b64_digit3 [of 0 x] by simp_all

lemma b64_digits_lt: "d \<in> set (b64_enc (\<lambda>i. i) s) \<Longrightarrow> d < 64"
  by (induction "\<lambda>i::nat. i" s rule: b64_enc.induct)
    (auto simp: b64_small b64_digit1 b64_digit2 b64_digit3)

lemma b64_dec_enc: "b64_dec (b64_enc (\<lambda>i. i) s) = Some s"
  by (induction "\<lambda>i::nat. i" s rule: b64_enc.induct) (simp_all add: b64_join b64_small)

lemma all_some_map: "\<forall>x \<in> set xs. f x = Some (g x) \<Longrightarrow> all_some (map f xs) = Some (map g xs)"
  by (induction xs) auto

lemma std_val_char: "i < 64 \<Longrightarrow> std_val (std_char i) = Some i"
  by (auto simp: std_val_def std_char_def Let_def)

lemma std_char_range: "i < 64 \<Longrightarrow> std_char i \<noteq> CHR 0x0A \<and> std_char i \<noteq> CHR 0x0D \<and> std_char i \<noteq> CHR ''$''"
  using std_val_char [of i] by (auto simp: std_val_def split: if_splits)

lemma set_RawStdEncode: "c \<in> set (RawStdEncode s) \<Longrightarrow> c \<noteq> CHR 0x0A \<and> c \<noteq> CHR 0x0D \<and> c \<noteq> CHR ''$''"
  unfolding RawStdEncode_def by (subst (asm) b64_enc_map) (auto dest: b64_digits_lt std_char_range)

text \<open>Decoding inverts encoding, so the encoding is injective.\<close>

lemma RawStdDecode_Encode: "RawStdDecode (RawStdEncode s) = Some s"
proof -
  let ?ds = "b64_enc (\<lambda>i. i) s"
  have "filter (\<lambda>c. c \<noteq> CHR 0x0A \<and> c \<noteq> CHR 0x0D) (RawStdEncode s) = RawStdEncode s"
    using set_RawStdEncode by (auto simp: filter_id_conv)
  moreover have "RawStdEncode s = map std_char ?ds"
    unfolding RawStdEncode_def by (rule b64_enc_map)
  moreover have "all_some (map std_val (map std_char ?ds)) = Some ?ds"
    using all_some_map [of ?ds "std_val \<circ> std_char" "\<lambda>x. x"] b64_digits_lt [of _ s] by (simp add: std_val_char)
  ultimately show ?thesis by (simp add: RawStdDecode_def b64_dec_enc)
qed

definition url_inv :: "char \<Rightarrow> nat" where
  "url_inv c = (if c = CHR ''-'' then 62 else if c = CHR ''_'' then 63 else the (std_val c))"

lemma url_inv_char: "i < 64 \<Longrightarrow> url_inv (url_char i) = i"
proof -
  assume "i < 64"
  then consider "i < 62" | "i = 62" | "i = 63" by arith
  then show ?thesis
  proof cases
    case 1
    then have v: "std_val (std_char i) = Some i" by (simp add: std_val_char)
    then have "std_char i \<noteq> CHR ''-''" and "std_char i \<noteq> CHR ''_''"
      by (auto simp: std_val_def)
    with 1 v show ?thesis by (simp add: url_inv_def url_char_def)
  qed (simp_all add: url_inv_def url_char_def)
qed

lemma url_char_inj: "i < 64 \<Longrightarrow> j < 64 \<Longrightarrow> url_char i = url_char j \<Longrightarrow> i = j"
  by (metis url_inv_char)

lemma RawURLEncode_inj: "RawURLEncode s = RawURLEncode t \<longleftrightarrow> s = t"
proof
  assume "RawURLEncode s = RawURLEncode t"
  then have "map url_char (b64_enc (\<lambda>i. i) s) = map url_char (b64_enc (\<lambda>i. i) t)"
    unfolding RawURLEncode_def by (simp add: b64_enc_map [of url_char])
  then have "b64_enc (\<lambda>i. i) s = b64_enc (\<lambda>i. i) t"
    by (rule map_inj_on) (auto intro!: inj_onI url_char_inj dest: b64_digits_lt)
  then have "b64_dec (b64_enc (\<lambda>i. i) s) = b64_dec (b64_enc (\<lambda>i. i) t)" by simp
  then show "s = t" by (simp add: b64_dec_enc)
qed simp

lemma length_b64_enc: "length (b64_enc al s) = (4 * length s + 2) div 3"
  by (induction al s rule: b64_enc.induct) auto

lemma length_RawURLEncode: "length (RawURLEncode s) = (4 * length s + 2) div 3"
  by (simp add: RawURLEncode_def length_b64_enc)

lemma url_char_visible: "i < 64 \<Longrightarrow> visible (url_char i)"
proof -
  assume "i < 64"
  then consider "i < 26" | "26 \<le> i" "i < 52" | "52 \<le> i" "i < 62" | "i = 62" | "i = 63" by arith
  then show ?thesis by cases (auto simp: visible_def url_char_def std_char_def)
qed

lemma RawURLEncode_visible: "c \<in> set (RawURLEncode s) \<Longrightarrow> visible c"
  unfolding RawURLEncode_def by (subst (asm) b64_enc_map) (auto dest: b64_digits_lt intro: url_char_visible)

end
