(* ===== verification/GoURL.thy ===== *)
theory GoURL
  imports GoStrings
begin

section \<open>URLs\<close>

text \<open>
  What the program uses of Go's \<open>net/url\<close>: \<open>Parse\<close>, \<open>String\<close>, \<open>Query\<close>, \<open>Values.Set\<close>,
  \<open>Values.Encode\<close> and \<open>QueryEscape\<close>, with the escaping rules of each part of a URL. A
  parse error is \<open>None\<close> (the callers only test for it). The rules are those of the release that
  \<open>go.mod\<close> names (1.26): a host has at most one colon outside brackets, and brackets hold an
  IPv6 address. The library's cap on the number of query parameters is not modelled.
\<close>

datatype url_part = PathPart | HostPart | ZonePart | UserPart | QueryPart | FragmentPart

record url =
  url_Scheme :: string
  url_Opaque :: string
  url_User :: "(string \<times> string option) option"
  url_Host :: string
  url_Path :: string
  url_RawPath :: string
  url_OmitHost :: bool
  url_ForceQuery :: bool
  url_RawQuery :: string
  url_Fragment :: string
  url_RawFragment :: string

definition empty_url :: url where
  "empty_url = \<lparr>url_Scheme = [], url_Opaque = [], url_User = None, url_Host = [], url_Path = [],
     url_RawPath = [], url_OmitHost = False, url_ForceQuery = False, url_RawQuery = [],
     url_Fragment = [], url_RawFragment = []\<rparr>"

subsection \<open>Escaping\<close>

definition is_alpha :: "char \<Rightarrow> bool" where
  "is_alpha c = (let n = of_char c :: nat in 65 \<le> n \<and> n \<le> 90 \<or> 97 \<le> n \<and> n \<le> 122)"

definition is_digit :: "char \<Rightarrow> bool" where
  "is_digit c = (let n = of_char c :: nat in 48 \<le> n \<and> n \<le> 57)"

definition shouldEscape :: "char \<Rightarrow> url_part \<Rightarrow> bool" where
  "shouldEscape c part =
    (if is_alpha c \<or> is_digit c then False
     else if (part = HostPart \<or> part = ZonePart) \<and> c \<in> set (CHR 0x27 # ''!$&()*+,;=:[]<>'' @ [CHR 0x22]) then False
     else if c \<in> set ''-_.~'' then False
     else if c \<in> set ''$&+,/:;=?@'' \<and> part = PathPart then c = CHR ''?''
     else if c \<in> set ''$&+,/:;=?@'' \<and> part = UserPart then c \<in> set ''@/?:''
     else if c \<in> set ''$&+,/:;=?@'' \<and> part = QueryPart then True
     else if c \<in> set ''$&+,/:;=?@'' \<and> part = FragmentPart then False
     else if part = FragmentPart \<and> c \<in> set ''!()*'' then False
     else True)"

definition hex_char :: "nat \<Rightarrow> char" where
  "hex_char d = (if d < 10 then char_of (48 + d) else char_of (55 + d))"

definition unhex :: "char \<Rightarrow> nat option" where
  "unhex c =
    (let n = of_char c :: nat
     in if 48 \<le> n \<and> n \<le> 57 then Some (n - 48) else if 97 \<le> n \<and> n \<le> 102 then Some (n - 87)
        else if 65 \<le> n \<and> n \<le> 70 then Some (n - 55) else None)"

fun escape :: "url_part \<Rightarrow> string \<Rightarrow> string" where
  "escape part [] = []"
| "escape part (c # s) =
    (if part = QueryPart \<and> c = CHR '' '' then CHR ''+'' # escape part s
     else if shouldEscape c part then
       CHR ''%'' # hex_char (of_char c div 16) # hex_char (of_char c mod 16) # escape part s
     else c # escape part s)"

text \<open>A percent sign with its two hexadecimal digits: the byte, when the part allows it.\<close>

definition pct_byte :: "url_part \<Rightarrow> char \<Rightarrow> char \<Rightarrow> char option" where
  "pct_byte part h l =
    (case (unhex h, unhex l) of
       (Some x, Some y) \<Rightarrow>
         (let v = char_of (x * 16 + y)
          in if part = HostPart \<and> x < 8 \<and> [h, l] \<noteq> ''25'' then None
             else if part = ZonePart \<and> [h, l] \<noteq> ''25'' \<and> v \<noteq> CHR '' '' \<and> shouldEscape v HostPart then None
             else Some v)
     | _ \<Rightarrow> None)"

fun unescape :: "url_part \<Rightarrow> string \<Rightarrow> string option" where
  "unescape part [] = Some []"
| "unescape part (c # s) =
    (if c = CHR ''%'' then
       (case s of
          h # l # t \<Rightarrow>
            (case pct_byte part h l of
               None \<Rightarrow> None
             | Some v \<Rightarrow> map_option (Cons v) (unescape part t))
        | _ \<Rightarrow> None)
     else if c = CHR ''+'' \<and> part = QueryPart then map_option (Cons (CHR '' '')) (unescape part s)
     else if (part = HostPart \<or> part = ZonePart) \<and> (of_char c :: nat) < 128 \<and> shouldEscape c part then None
     else map_option (Cons c) (unescape part s))"

subsection \<open>Parsing\<close>

definition is_ctl :: "char \<Rightarrow> bool" where
  "is_ctl c \<longleftrightarrow> (of_char c :: nat) < 32 \<or> (of_char c :: nat) = 127"

text \<open>The scheme and the rest; \<open>None\<close> when the colon comes first.\<close>

fun scheme_from :: "string \<Rightarrow> string \<Rightarrow> string \<Rightarrow> (string \<times> string) option" where
  "scheme_from raw acc [] = Some ([], raw)"
| "scheme_from raw acc (c # s) =
    (if is_alpha c then scheme_from raw (acc @ [c]) s
     else if is_digit c \<or> c \<in> set ''+-.'' then
       (if acc = [] then Some ([], raw) else scheme_from raw (acc @ [c]) s)
     else if c = CHR '':'' then (if acc = [] then None else Some (acc, s))
     else Some ([], raw))"

definition getScheme :: "string \<Rightarrow> (string \<times> string) option" where
  "getScheme raw = scheme_from raw [] raw"

definition before :: "char \<Rightarrow> string \<Rightarrow> string" where
  "before c s = (case cut_at c s of None \<Rightarrow> s | Some (a, b) \<Rightarrow> a)"

definition last_cut :: "char \<Rightarrow> string \<Rightarrow> (string \<times> string) option" where
  "last_cut c s = (case cut_at c (rev s) of None \<Rightarrow> None | Some (b, a) \<Rightarrow> Some (rev a, rev b))"

fun validOptionalPort :: "string \<Rightarrow> bool" where
  "validOptionalPort [] = True"
| "validOptionalPort (c # s) = (c = CHR '':'' \<and> list_all is_digit s)"

definition validUserinfo :: "string \<Rightarrow> bool" where
  "validUserinfo s = list_all (\<lambda>c. is_alpha c \<or> is_digit c \<or> c \<in> set (CHR 0x27 # ''-._:~!$&()*+,;=%@'')) s"

text \<open>The part before the first \<open>%25\<close> and the part from there on.\<close>

fun cut_zone :: "string \<Rightarrow> string \<Rightarrow> (string \<times> string) option" where
  "cut_zone acc [] = None"
| "cut_zone acc (c # s) =
    (if prefix ''%25'' (c # s) then Some (acc, c # s) else cut_zone (acc @ [c]) s)"

text \<open>The address inside the brackets of a host: an IPv6 address, with a zone or without.\<close>

definition hex_group :: "string \<Rightarrow> bool" where
  "hex_group g \<longleftrightarrow> g \<noteq> [] \<and> length g \<le> 4 \<and> list_all (\<lambda>c. unhex c \<noteq> None) g"

definition v4_field :: "string \<Rightarrow> bool" where
  "v4_field f \<longleftrightarrow> f \<noteq> [] \<and> length f \<le> 3 \<and> list_all is_digit f \<and> (length f = 1 \<or> hd f \<noteq> CHR ''0'') \<and>
    (case ParseUint f 32 of None \<Rightarrow> False | Some n \<Rightarrow> n \<le> 255)"

definition v4_tail :: "string \<Rightarrow> bool" where
  "v4_tail g \<longleftrightarrow> length (split_on CHR ''.'' g) = 4 \<and> list_all v4_field (split_on CHR ''.'' g)"

text \<open>The 16-bit fields of a colon separated list, the last of which may be an IPv4 address.\<close>

fun v6_fields :: "string list \<Rightarrow> nat option" where
  "v6_fields [] = Some 0"
| "v6_fields [g] = (if hex_group g then Some 1 else if v4_tail g then Some 2 else None)"
| "v6_fields (g # gs) = (if hex_group g then map_option Suc (v6_fields gs) else None)"

fun cut_double :: "string \<Rightarrow> (string \<times> string) option" where
  "cut_double (a # b # s) =
    (if a = CHR '':'' \<and> b = CHR '':'' then Some ([], s)
     else map_option (\<lambda>(l, r). (a # l, r)) (cut_double (b # s)))"
| "cut_double s = None"

definition v6_side :: "bool \<Rightarrow> string \<Rightarrow> nat option" where
  "v6_side last_part s =
    (if s = [] then Some 0
     else if \<not> last_part \<and> \<not> list_all hex_group (split_on CHR '':'' s) then None
     else v6_fields (split_on CHR '':'' s))"

definition valid_ipv6 :: "string \<Rightarrow> bool" where
  "valid_ipv6 s =
    (let (addr, zone_ok) = (case cut_at CHR ''%'' s of None \<Rightarrow> (s, True) | Some (a, z) \<Rightarrow> (a, z \<noteq> []))
     in zone_ok \<and>
        (case cut_double addr of
           None \<Rightarrow> v6_fields (split_on CHR '':'' addr) = Some 8
         | Some (l, r) \<Rightarrow>
             (case (v6_side False l, v6_side True r) of
                (Some m, Some n) \<Rightarrow> m + n \<le> 7
              | _ \<Rightarrow> False)))"

definition parseLiteral :: "string \<Rightarrow> string \<Rightarrow> string option" where
  "parseLiteral inner port =
    (case (case cut_zone [] inner of
             None \<Rightarrow> unescape HostPart inner
           | Some (h1, h2) \<Rightarrow>
               (case (unescape HostPart h1, unescape ZonePart h2) of
                  (Some a, Some b) \<Rightarrow> Some (a @ b)
                | _ \<Rightarrow> None)) of
       None \<Rightarrow> None
     | Some addr \<Rightarrow> if valid_ipv6 addr then Some (''['' @ addr @ '']'' @ port) else None)"

definition parseHost :: "string \<Rightarrow> string option" where
  "parseHost host =
    (if CHR ''['' \<in> set host then
       (case (host, last_cut CHR '']'' (drop 1 host)) of
          (c # s, Some (inner, port)) \<Rightarrow>
            if c = CHR ''['' \<and> CHR ''['' \<notin> set s \<and> validOptionalPort port then parseLiteral inner port
            else None
        | _ \<Rightarrow> None)
     else
       (case cut_at CHR '':'' host of
          None \<Rightarrow> unescape HostPart host
        | Some (h, port) \<Rightarrow> if list_all is_digit port then unescape HostPart host else None))"

definition parseAuthority :: "string \<Rightarrow> ((string \<times> string option) option \<times> string) option" where
  "parseAuthority authority =
    (case last_cut CHR ''@'' authority of
       None \<Rightarrow> map_option (Pair None) (parseHost authority)
     | Some (userinfo, h) \<Rightarrow>
         (case parseHost h of
            None \<Rightarrow> None
          | Some host \<Rightarrow>
              if \<not> validUserinfo userinfo then None
              else case cut_at CHR '':'' userinfo of
                None \<Rightarrow> map_option (\<lambda>name. (Some (name, None), host)) (unescape UserPart userinfo)
              | Some (name, pw) \<Rightarrow>
                  (case (unescape UserPart name, unescape UserPart pw) of
                     (Some n, Some p) \<Rightarrow> Some (Some (n, Some p), host)
                   | _ \<Rightarrow> None)))"

definition setPath :: "string \<Rightarrow> url \<Rightarrow> url option" where
  "setPath p u =
    map_option (\<lambda>path. u\<lparr>url_Path := path, url_RawPath := (if p = escape PathPart path then [] else p)\<rparr>)
      (unescape PathPart p)"

definition setFragment :: "string \<Rightarrow> url \<Rightarrow> url option" where
  "setFragment f u =
    map_option (\<lambda>frag. u\<lparr>url_Fragment := frag, url_RawFragment := (if f = escape FragmentPart frag then [] else f)\<rparr>)
      (unescape FragmentPart f)"

text \<open>The part of \<open>parse\<close> after the query has been cut off.\<close>

definition parseHierarchy :: "string \<Rightarrow> url \<Rightarrow> url option" where
  "parseHierarchy rest u =
    (if \<not> prefix ''/'' rest \<and> url_Scheme u \<noteq> [] then Some (u\<lparr>url_Opaque := rest\<rparr>)
     else if \<not> prefix ''/'' rest \<and> CHR '':'' \<in> set (before CHR ''/'' rest) then None
     else if (url_Scheme u \<noteq> [] \<or> \<not> prefix ''///'' rest) \<and> prefix ''//'' rest then
       (let authority = before CHR ''/'' (drop 2 rest);
            path = drop (length authority) (drop 2 rest)
        in case parseAuthority authority of
             None \<Rightarrow> None
           | Some (usr, host) \<Rightarrow> setPath path (u\<lparr>url_User := usr, url_Host := host\<rparr>))
     else setPath rest (u\<lparr>url_OmitHost := (url_Scheme u \<noteq> [] \<and> prefix ''/'' rest)\<rparr>))"

definition parse_nofrag :: "string \<Rightarrow> url option" where
  "parse_nofrag raw =
    (if list_ex is_ctl raw then None
     else if raw = ''*'' then Some (empty_url\<lparr>url_Path := ''*''\<rparr>)
     else case getScheme raw of
       None \<Rightarrow> None
     | Some (scheme, rest) \<Rightarrow>
         (let u = empty_url\<lparr>url_Scheme := ToLower scheme\<rparr>
          in if suffix ''?'' rest \<and> count_list rest CHR ''?'' = 1 then
               parseHierarchy (butlast rest) (u\<lparr>url_ForceQuery := True\<rparr>)
             else case cut_at CHR ''?'' rest of
               None \<Rightarrow> parseHierarchy rest u
             | Some (a, q) \<Rightarrow> parseHierarchy a (u\<lparr>url_RawQuery := q\<rparr>)))"

definition url_Parse :: "string \<Rightarrow> url option" where
  "url_Parse raw =
    (case cut_at CHR ''#'' raw of
       None \<Rightarrow> parse_nofrag raw
     | Some (u, frag) \<Rightarrow>
         (case parse_nofrag u of
            None \<Rightarrow> None
          | Some v \<Rightarrow> if frag = [] then Some v else setFragment frag v))"

subsection \<open>Printing\<close>

definition validEncoded :: "string \<Rightarrow> url_part \<Rightarrow> bool" where
  "validEncoded s part =
    list_all (\<lambda>c. c \<in> set (CHR 0x27 # ''!$&()*+,;=:@[]%'') \<or> \<not> shouldEscape c part) s"

definition EscapedPath :: "url \<Rightarrow> string" where
  "EscapedPath u =
    (if url_RawPath u \<noteq> [] \<and> validEncoded (url_RawPath u) PathPart \<and>
        unescape PathPart (url_RawPath u) = Some (url_Path u) then url_RawPath u
     else if url_Path u = ''*'' then ''*''
     else escape PathPart (url_Path u))"

definition EscapedFragment :: "url \<Rightarrow> string" where
  "EscapedFragment u =
    (if url_RawFragment u \<noteq> [] \<and> validEncoded (url_RawFragment u) FragmentPart \<and>
        unescape FragmentPart (url_RawFragment u) = Some (url_Fragment u) then url_RawFragment u
     else escape FragmentPart (url_Fragment u))"

definition userinfo_string :: "string \<times> string option \<Rightarrow> string" where
  "userinfo_string ui =
    escape UserPart (fst ui) @ (case snd ui of None \<Rightarrow> [] | Some p \<Rightarrow> '':'' @ escape UserPart p)"

definition url_String :: "url \<Rightarrow> string" where
  "url_String u =
    (let scheme = (if url_Scheme u \<noteq> [] then url_Scheme u @ '':'' else []);
         hier =
           (if url_Opaque u \<noteq> [] then scheme @ url_Opaque u
            else
              let auth =
                (if (url_Scheme u \<noteq> [] \<or> url_Host u \<noteq> [] \<or> url_User u \<noteq> None) \<and>
                    \<not> (url_OmitHost u \<and> url_Host u = [] \<and> url_User u = None)
                 then (if url_Host u \<noteq> [] \<or> url_Path u \<noteq> [] \<or> url_User u \<noteq> None then ''//'' else []) @
                      (case url_User u of None \<Rightarrow> [] | Some ui \<Rightarrow> userinfo_string ui @ ''@'') @
                      escape HostPart (url_Host u)
                 else []);
                path = EscapedPath u;
                start = scheme @ auth @
                  (if path \<noteq> [] \<and> hd path \<noteq> CHR ''/'' \<and> url_Host u \<noteq> [] then ''/'' else [])
              in start @
                 (if start = [] \<and> CHR '':'' \<in> set (before CHR ''/'' path) then ''./'' else []) @ path)
     in hier @
        (if url_ForceQuery u \<or> url_RawQuery u \<noteq> [] then ''?'' @ url_RawQuery u else []) @
        (if url_Fragment u \<noteq> [] then ''#'' @ EscapedFragment u else []))"

subsection \<open>Queries\<close>

type_synonym url_values = "string list gomap"

definition values_add :: "string \<Rightarrow> string \<Rightarrow> url_values \<Rightarrow> url_values" where
  "values_add k v q = gput k ((case gget q k of None \<Rightarrow> [] | Some vs \<Rightarrow> vs) @ [v]) q"

definition values_set :: "string \<Rightarrow> string \<Rightarrow> url_values \<Rightarrow> url_values" where
  "values_set k v q = gput k [v] q"

definition values_get :: "url_values \<Rightarrow> string \<Rightarrow> string" where
  "values_get q k = (case gget q k of Some (v # vs) \<Rightarrow> v | _ \<Rightarrow> [])"

text \<open>One setting of a query; malformed settings are dropped, as \<open>u.Query()\<close> drops them.\<close>

definition parse_setting :: "string \<Rightarrow> (string \<times> string) option" where
  "parse_setting kv =
    (if CHR '';'' \<in> set kv \<or> kv = [] then None
     else
       let (k, v) = (case cut_at CHR ''='' kv of None \<Rightarrow> (kv, []) | Some p \<Rightarrow> p)
       in case (unescape QueryPart k, unescape QueryPart v) of
            (Some k', Some v') \<Rightarrow> Some (k', v')
          | _ \<Rightarrow> None)"

definition ParseQuery :: "string \<Rightarrow> url_values" where
  "ParseQuery raw =
    fold (\<lambda>kv q. case parse_setting kv of None \<Rightarrow> q | Some (k, v) \<Rightarrow> values_add k v q)
      (split_on CHR ''&'' raw) []"

definition QueryEscape :: "string \<Rightarrow> string" where
  "QueryEscape s = escape QueryPart s"

definition values_Encode :: "url_values \<Rightarrow> string" where
  "values_Encode q =
    join ''&'' (concat (map (\<lambda>k.
      map (\<lambda>v. QueryEscape k @ ''='' @ QueryEscape v) (case gget q k of None \<Rightarrow> [] | Some vs \<Rightarrow> vs))
      (sort (gkeys q))))"

definition url_Query :: "url \<Rightarrow> url_values" where
  "url_Query u = ParseQuery (url_RawQuery u)"

subsection \<open>What parsing keeps\<close>

lemma cut_at_Some: "cut_at c s = Some (a, b) \<Longrightarrow> s = a @ c # b \<and> c \<notin> set a"
  by (induction s arbitrary: a) (auto split: if_splits option.splits)

lemma cut_at_None: "cut_at c s = None \<Longrightarrow> c \<notin> set s"
  by (induction s) (auto split: if_splits option.splits)

lemma setPath_scheme: "setPath p u = Some v \<Longrightarrow> url_Scheme v = url_Scheme u \<and> url_Host v = url_Host u"
  by (auto simp: setPath_def)

lemma parseHierarchy_scheme: "parseHierarchy rest u = Some v \<Longrightarrow> url_Scheme v = url_Scheme u"
  by (auto simp: parseHierarchy_def Let_def dest!: setPath_scheme split: if_splits option.splits)

lemma setFragment_scheme: "setFragment f u = Some v \<Longrightarrow> url_Scheme v = url_Scheme u"
  by (auto simp: setFragment_def)

lemma unescape_Nil: "unescape part s = Some [] \<longleftrightarrow> s = []"
  by (induction part s rule: unescape.induct) (auto split: if_splits option.splits list.splits)

lemma setFragment_nonempty: "setFragment f u = Some v \<Longrightarrow> f \<noteq> [] \<Longrightarrow> url_Fragment v \<noteq> []"
  by (auto simp: setFragment_def unescape_Nil)

lemma parse_nofrag_ctl: "parse_nofrag raw = Some v \<Longrightarrow> \<not> list_ex is_ctl raw"
  by (auto simp: parse_nofrag_def split: if_splits)

lemma scheme_from_alpha:
  "list_all is_alpha a \<Longrightarrow> acc @ a \<noteq> [] \<Longrightarrow> scheme_from raw acc (a @ CHR '':'' # t) = Some (acc @ a, t)"
  by (induction a arbitrary: acc) (auto simp: is_alpha_def is_digit_def Let_def)

text \<open>A string that starts with letters and a colon has them, in lower case, as its scheme.\<close>

lemma parse_nofrag_scheme:
  assumes "parse_nofrag (a @ CHR '':'' # t) = Some u" and "list_all is_alpha a" and "a \<noteq> []"
  shows "url_Scheme u = ToLower a"
proof -
  have "getScheme (a @ CHR '':'' # t) = Some (a, t)"
    using scheme_from_alpha [of a "[]"] assms(2,3) by (simp add: getScheme_def)
  moreover have "a @ CHR '':'' # t \<noteq> ''*''" using assms(3) by (cases a) auto
  ultimately show ?thesis using assms(1)
    by (auto simp: parse_nofrag_def Let_def dest!: parseHierarchy_scheme
        split: if_splits option.splits prod.splits)
qed

lemma lower_alpha: "lower_char c = d \<Longrightarrow> 97 \<le> (of_char d :: nat) \<Longrightarrow> (of_char d :: nat) \<le> 122 \<Longrightarrow> is_alpha c"
  by (auto simp: lower_char_def is_alpha_def Let_def split: if_splits)

lemma lower_char_colon: "lower_char c = CHR '':'' \<Longrightarrow> c = CHR '':''"
proof -
  assume l: "lower_char c = CHR '':''"
  have "\<not> (65 \<le> (of_char c :: nat) \<and> (of_char c :: nat) \<le> 90)"
  proof
    assume r: "65 \<le> (of_char c :: nat) \<and> (of_char c :: nat) \<le> 90"
    then have "(of_char (lower_char c) :: nat) = of_char c + 32"
      by (simp add: lower_char_def Let_def)
    with l r show False by simp
  qed
  with l show ?thesis by (auto simp: lower_char_def Let_def split: if_splits)
qed

end
