(* ===== verification/OAuth.thy ===== *)
theory OAuth
  imports Repos Codec GoURL
begin

section \<open>OAuth helpers\<close>

text \<open>
  The package \<open>internal/oauth\<close>: redirect URIs (\<open>redirect.go\<close>), scopes (\<open>scope.go\<close>), PKCE
  (\<open>pkce.go\<close>) and the digest under which bearer secrets are stored (\<open>tokenhash.go\<close>). Errors
  made with \<open>fmt.Errorf\<close> are \<open>ErrOther\<close> with their text, since one of them is shown to the
  client.
\<close>

definition HashToken :: "string \<Rightarrow> string" where
  "HashToken raw = (let sum = Sum256 raw in RawURLEncode sum)"

lemma length_HashToken: "length (HashToken raw) = 43"
  by (simp add: HashToken_def Let_def length_RawURLEncode length_Sum256)

lemma HashToken_nonempty [simp]: "HashToken raw \<noteq> []"
  using length_HashToken [of raw] by auto

subsection \<open>Redirect URIs\<close>

definition errInvalidRedirect :: derr where
  "errInvalidRedirect =
    ErrOther ''redirect_uri must be an absolute http or https URI without a fragment''"

definition RedirectURIExact :: "string \<Rightarrow> string list \<Rightarrow> bool" where
  "RedirectURIExact requested registered =
    (if requested = [] then False else list_ex (\<lambda>allowed. requested = allowed) registered)"

definition blockedRedirectSchemes :: "string list" where
  "blockedRedirectSchemes = [''javascript'', ''data'', ''file'', ''vbscript'']"

definition ParseRedirectURI :: "string \<Rightarrow> url res" where
  "ParseRedirectURI raw =
    (case url_Parse raw of
       None \<Rightarrow> Inl (ErrOther ''url'')
     | Some u \<Rightarrow>
         if url_Scheme u = [] then Inl errInvalidRedirect
         else if url_Fragment u \<noteq> [] then Inl errInvalidRedirect
         else if ToLower (url_Scheme u) \<in> set blockedRedirectSchemes then Inl errInvalidRedirect
         else if url_Scheme u = ''http'' \<or> url_Scheme u = ''https'' then
           (if url_Host u = [] then Inl errInvalidRedirect else Inr u)
         else
           (if url_Host u = [] \<and> url_Path u = [] \<and> url_Opaque u = [] then Inl errInvalidRedirect
            else Inr u))"

lemma RedirectURIExact_iff:
  "RedirectURIExact r registered \<longleftrightarrow> r \<noteq> [] \<and> r \<in> set registered"
  by (auto simp: RedirectURIExact_def list_ex_iff)

subsection \<open>Scopes\<close>

text \<open>
  \<open>%q\<close> of a scope name: double quotes, with the quote, the backslash and the ASCII control
  characters escaped. Bytes above 127 are copied, as for printable characters.
\<close>

definition quote_char :: "char \<Rightarrow> string" where
  "quote_char c =
    (let n = of_char c :: nat
     in if n = 34 then [CHR 0x5C, CHR 0x22] else if n = 92 then [CHR 0x5C, CHR 0x5C]
        else if n = 7 then CHR 0x5C # ''a'' else if n = 8 then CHR 0x5C # ''b''
        else if n = 9 then CHR 0x5C # ''t'' else if n = 10 then CHR 0x5C # ''n''
        else if n = 11 then CHR 0x5C # ''v'' else if n = 12 then CHR 0x5C # ''f''
        else if n = 13 then CHR 0x5C # ''r''
        else if n < 32 \<or> n = 127 then
          CHR 0x5C # CHR ''x'' # map (\<lambda>d. lower_char (hex_char d)) [n div 16, n mod 16]
        else [c])"

definition Quote :: "string \<Rightarrow> string" where
  "Quote s = CHR 0x22 # concat (map quote_char s) @ [CHR 0x22]"

definition allowed :: "string list" where
  "allowed = [''openid'', ''profile'', ''email'', ''offline_access'', ''org'']"

text \<open>The loop over the fields; \<open>out\<close> holds the names seen, in the order of their first use.\<close>

fun scope_loop :: "string list \<Rightarrow> string list \<Rightarrow> string list res" where
  "scope_loop out [] = Inr out"
| "scope_loop out (s # ss) =
    (if s \<notin> set allowed then Inl (ErrOther (''unsupported scope '' @ Quote s))
     else if s \<in> set out then scope_loop out ss
     else scope_loop (out @ [s]) ss)"

definition NormalizeScopes :: "string \<Rightarrow> bool \<Rightarrow> string list res" where
  "NormalizeScopes raw requireOpenID =
    (if TrimSpace raw = [] then Inl (ErrOther ''scope is required'')
     else case scope_loop [] (Fields raw) of
       Inl e \<Rightarrow> Inl e
     | Inr out \<Rightarrow>
         if requireOpenID \<and> ''openid'' \<notin> set out then Inl (ErrOther ''openid scope is required'')
         else Inr (sort out))"

fun Contains :: "string list \<Rightarrow> string \<Rightarrow> bool" where
  "Contains [] name = False"
| "Contains (s # ss) name = (if s = name then True else Contains ss name)"

lemma Contains_iff [simp]: "Contains ss name \<longleftrightarrow> name \<in> set ss"
  by (induction ss) auto

lemma scope_loop_ok: "is_ok (scope_loop out ss) \<longleftrightarrow> set ss \<subseteq> set allowed"
  by (induction ss arbitrary: out) auto

lemma scope_loop_set:
  "scope_loop out ss = Inr res \<Longrightarrow> distinct out \<Longrightarrow> distinct res \<and> set res = set out \<union> set ss"
  by (induction ss arbitrary: out) (auto split: if_splits)

lemma NormalizeScopes_Inr:
  "NormalizeScopes raw req = Inr out \<longleftrightarrow>
    TrimSpace raw \<noteq> [] \<and> set (Fields raw) \<subseteq> set allowed \<and>
    (req \<longrightarrow> ''openid'' \<in> set (Fields raw)) \<and> out = sorted_list_of_set (set (Fields raw))"
proof (cases "scope_loop [] (Fields raw)")
  case (Inl e)
  then have "\<not> set (Fields raw) \<subseteq> set allowed" using scope_loop_ok [of "[]" "Fields raw"] by simp
  with Inl show ?thesis by (simp add: NormalizeScopes_def)
next
  case (Inr xs)
  then have sub: "set (Fields raw) \<subseteq> set allowed" using scope_loop_ok [of "[]" "Fields raw"] by simp
  have xs: "distinct xs" "set xs = set (Fields raw)" using scope_loop_set [OF Inr] by simp_all
  then have "sort xs = sorted_list_of_set (set (Fields raw))"
    by (metis sorted_list_of_set_sort_remdups distinct_remdups_id)
  with Inr sub xs show ?thesis by (auto simp: NormalizeScopes_def)
qed

lemma allowed_visible: "s \<in> set allowed \<Longrightarrow> s \<noteq> [] \<and> list_all visible s"
  by (auto simp: allowed_def visible_def)

subsection \<open>PKCE\<close>

definition ChallengeS256 :: string where
  "ChallengeS256 = ''S256''"

definition VerifyS256 :: "string \<Rightarrow> string \<Rightarrow> unit res" where
  "VerifyS256 verifier challenge =
    (if verifier = [] \<or> challenge = [] then Inl (ErrOther ''pkce verifier and challenge are required'')
     else if length verifier < 43 \<or> 128 < length verifier then
       Inl (ErrOther ''pkce verifier length out of spec range'')
     else
       let sum = Sum256 verifier;
           computed = RawURLEncode sum
       in if computed \<noteq> challenge then Inl (ErrOther ''pkce verification failed'') else Inr ())"

lemma VerifyS256_ok:
  "VerifyS256 v ch = Inr () \<longleftrightarrow> 43 \<le> length v \<and> length v \<le> 128 \<and> ch = HashToken v"
  using HashToken_nonempty [of v]
  by (auto simp: VerifyS256_def HashToken_def Let_def)

subsection \<open>Correctness\<close>

lemma blocked_lower_letters:
  "b \<in> set blockedRedirectSchemes \<Longrightarrow> b \<noteq> [] \<and> (\<forall>d \<in> set b. 97 \<le> (of_char d :: nat) \<and> (of_char d :: nat) \<le> 122)"
  by (auto simp: blockedRedirectSchemes_def)

lemma blocked_ToLower: "b \<in> set blockedRedirectSchemes \<Longrightarrow> ToLower b = b"
  by (auto simp: blockedRedirectSchemes_def ToLower_def lower_char_def)

lemma prefix_ToLower:
  assumes "prefix (b @ '':'') (ToLower s)"
  obtains a t where "s = a @ CHR '':'' # t" "ToLower a = b"
proof -
  obtain z where z: "map lower_char s = b @ CHR '':'' # z"
    using assms by (auto simp: prefix_def ToLower_def)
  then obtain a r where ar: "s = a @ r" "map lower_char a = b" "map lower_char r = CHR '':'' # z"
    by (auto simp: map_eq_append_conv)
  then obtain d t where "r = d # t" "lower_char d = CHR '':''" by (cases r) auto
  with ar lower_char_colon that show ?thesis by (auto simp: ToLower_def)
qed

lemma url_Parse_blocked:
  assumes "url_Parse raw = Some u" and "b \<in> set blockedRedirectSchemes"
    and "prefix (b @ '':'') (ToLower raw)"
  shows "url_Scheme u = b"
proof -
  obtain a t where raw: "raw = a @ CHR '':'' # t" and a: "ToLower a = b"
    using prefix_ToLower assms(3) by metis
  have alpha: "list_all is_alpha a" and ne: "a \<noteq> []"
    using blocked_lower_letters [OF assms(2)] lower_alpha a by (auto simp: ToLower_def list_all_iff)
  have hash: "CHR ''#'' \<notin> set a" using alpha by (auto simp: list_all_iff is_alpha_def)
  show ?thesis
  proof (cases "cut_at CHR ''#'' raw")
    case None
    then have "parse_nofrag (a @ CHR '':'' # t) = Some u" using assms(1) raw by (simp add: url_Parse_def)
    then show ?thesis using parse_nofrag_scheme alpha ne a by blast
  next
    case (Some p)
    then obtain q frag where c: "cut_at CHR ''#'' raw = Some (q, frag)" by (cases p) auto
    have "raw = q @ CHR ''#'' # frag" using cut_at_Some [OF c] by simp
    with raw hash obtain t' where q: "q = a @ CHR '':'' # t'"
      by (auto simp: append_eq_append_conv2 append_eq_Cons_conv Cons_eq_append_conv)
    obtain v where v: "parse_nofrag q = Some v" "url_Scheme u = url_Scheme v"
      using assms(1) c by (auto simp: url_Parse_def dest: setFragment_scheme split: option.splits if_splits)
    then show ?thesis using parse_nofrag_scheme [of a t' v] alpha ne a q by simp
  qed
qed

lemma url_Parse_no_fragment:
  assumes "url_Parse raw = Some u" and "url_Fragment u = []"
  shows "\<exists>q. parse_nofrag q = Some u \<and> CHR ''#'' \<notin> set q \<and> (raw = q \<or> raw = q @ ''#'')"
  using assms
  by (auto simp: url_Parse_def dest!: cut_at_Some dest: cut_at_None setFragment_nonempty
      split: option.splits if_splits)

text \<open>
  C25. A redirect URI that \<open>ParseRedirectURI\<close> accepts has a scheme; no spelling of
  \<open>javascript:\<close>, \<open>data:\<close>, \<open>file:\<close> or \<open>vbscript:\<close>, in any letter case, starts it; it contains no
  control character, no fragment, and an http or https URI has a host.
\<close>

theorem ParseRedirectURI_safe:
  assumes "ParseRedirectURI raw = Inr u"
  shows "url_Scheme u \<noteq> []
    \<and> (\<forall>b \<in> set blockedRedirectSchemes. \<not> prefix (b @ '':'') (ToLower raw))
    \<and> (\<forall>c \<in> set raw. \<not> is_ctl c)
    \<and> CHR ''#'' \<notin> set (butlast raw)
    \<and> (url_Scheme u \<in> {''http'', ''https''} \<longrightarrow> url_Host u \<noteq> [])"
proof -
  have u: "url_Parse raw = Some u" "url_Scheme u \<noteq> []" "url_Fragment u = []"
    "ToLower (url_Scheme u) \<notin> set blockedRedirectSchemes"
    "url_Scheme u \<in> {''http'', ''https''} \<longrightarrow> url_Host u \<noteq> []"
    using assms by (auto simp: ParseRedirectURI_def split: option.splits if_splits)
  obtain q where q: "parse_nofrag q = Some u" "CHR ''#'' \<notin> set q" "raw = q \<or> raw = q @ ''#''"
    using url_Parse_no_fragment [OF u(1,3)] by blast
  have "\<forall>b \<in> set blockedRedirectSchemes. \<not> prefix (b @ '':'') (ToLower raw)"
    using url_Parse_blocked [OF u(1)] u(4) by (metis blocked_ToLower)
  moreover have "\<forall>c \<in> set raw. \<not> is_ctl c"
    using parse_nofrag_ctl [OF q(1)] q(3) by (auto simp: list_ex_iff is_ctl_def)
  moreover have "CHR ''#'' \<notin> set (butlast raw)"
    using q by (auto dest: in_set_butlastD)
  ultimately show ?thesis using u by simp
qed

theorem ParseRedirectURI_safe_witness:
  "\<exists>u. ParseRedirectURI ''pfhabit://callback'' = Inr u \<and> url_Scheme u \<noteq> []"
proof -
  have "is_ok (ParseRedirectURI ''pfhabit://callback'')" by code_simp
  then obtain u where u: "ParseRedirectURI ''pfhabit://callback'' = Inr u" by (auto simp: is_ok_iff)
  with ParseRedirectURI_safe [OF u] show ?thesis by simp
qed

text \<open>
  C26. \<open>NormalizeScopes\<close> succeeds exactly on a string that is not blank, whose fields are all
  supported scopes and include \<open>openid\<close> where it is required; the result is the set of its
  fields, sorted and without duplicates.
\<close>

theorem NormalizeScopes_exact:
  "NormalizeScopes raw req = Inr out \<longleftrightarrow>
    TrimSpace raw \<noteq> [] \<and> set (Fields raw) \<subseteq> {''openid'', ''profile'', ''email'', ''offline_access'', ''org''} \<and>
    (req \<longrightarrow> ''openid'' \<in> set (Fields raw)) \<and> out = sorted_list_of_set (set (Fields raw))"
  by (simp add: NormalizeScopes_Inr allowed_def)

theorem NormalizeScopes_exact_witness:
  "NormalizeScopes ''openid email openid'' True = Inr [''email'', ''openid'']"
proof -
  have f: "Fields ''openid email openid'' = [''openid'', ''email'', ''openid'']"
    "TrimSpace ''openid email openid'' \<noteq> []" by code_simp+
  show ?thesis
    unfolding NormalizeScopes_exact f(1) using f(2)
    by (simp add: sorted_list_of_set_sort_remdups [of "[''openid'', ''email'', ''openid'']", simplified])
qed

lemma join_nonempty: "w \<noteq> [] \<Longrightarrow> join sep (w # ws) \<noteq> []"
  by (cases ws) auto

lemma TrimSpace_join:
  assumes "ws \<noteq> []" and "\<forall>w \<in> set ws. w \<noteq> [] \<and> (\<forall>c \<in> set w. visible c)"
  shows "TrimSpace (join '' '' ws) = join '' '' ws"
proof (rule TrimSpace_visible)
  show "join '' '' ws \<noteq> []" using assms by (cases ws) (auto simp: join_nonempty)
  show "visible (hd (join '' '' ws))"
    using assms by (cases ws rule: list.exhaust, simp, cases "tl ws") auto
  show "visible (last (join '' '' ws))"
    using assms by (induction "'' ''" ws rule: join.induct) (auto simp: join_nonempty)
qed

text \<open>
  The scope string of a token response reads back: joining the scopes that were granted and
  normalizing the result gives the same list.
\<close>

theorem scopes_roundtrip:
  assumes "NormalizeScopes raw True = Inr out"
  shows "NormalizeScopes (join '' '' out) True = Inr out"
proof -
  have out: "set out \<subseteq> set allowed" "''openid'' \<in> set out" "out = sorted_list_of_set (set out)"
    using assms unfolding NormalizeScopes_Inr by auto
  have vis: "\<forall>w \<in> set out. w \<noteq> [] \<and> (\<forall>c \<in> set w. visible c)"
    using allowed_visible out(1) by (auto simp: list_all_iff)
  have "out \<noteq> []" using out(2) by auto
  then have "TrimSpace (join '' '' out) \<noteq> []"
    using TrimSpace_join [OF _ vis] vis by (cases out) (auto simp: join_nonempty)
  then show ?thesis
    unfolding NormalizeScopes_Inr Fields_join [OF vis] using out by simp
qed

theorem scopes_roundtrip_witness:
  "NormalizeScopes (join '' '' [''email'', ''openid'']) True = Inr [''email'', ''openid'']"
proof (rule scopes_roundtrip)
  show "NormalizeScopes ''openid email'' True = Inr [''email'', ''openid'']" by code_simp
qed

text \<open>
  C24. PKCE: \<open>VerifyS256\<close> accepts exactly the verifiers of 43 to 128 bytes whose SHA-256 digest, in
  unpadded base64url, is the stored challenge.
\<close>

theorem VerifyS256_exact:
  "VerifyS256 verifier challenge = Inr () \<longleftrightarrow>
    length verifier \<in> {43..128} \<and> challenge = RawURLEncode (Sum256 verifier)"
  using VerifyS256_ok [of verifier challenge] by (auto simp: HashToken_def)

end
