(* ===== verification/Config.thy ===== *)
theory Config
  imports OAuth
begin

section \<open>Process settings\<close>

text \<open>
  \<open>internal/config/config.go\<close>: the settings read from the environment and the checks that
  reject an unusable or unsafe profile. The environment is a function from variable names to
  values (the empty string when unset), and \<open>time.ParseDuration\<close> is an argument that gives
  nanoseconds or \<open>None\<close>.
\<close>

definition StoreMemory :: string where "StoreMemory = ''memory''"
definition StorePostgres :: string where "StorePostgres = ''postgres''"
definition EnvDevelopment :: string where "EnvDevelopment = ''development''"
definition EnvStaging :: string where "EnvStaging = ''staging''"
definition EnvProduction :: string where "EnvProduction = ''production''"

record config =
  Env :: string
  HTTPAddr :: string
  Issuer :: string
  DatabaseURL :: string
  CookieSecure :: bool
  DevGenerateKeys :: bool
  RSAPrivateKeyPath :: string
  Store :: string
  SessionTTL :: int
  CodeTTL :: int
  AccessTTL :: int
  RefreshTTL :: int
  SeedPublicClientID :: string
  SeedPublicClientName :: string
  SeedPublicRedirect :: string
  SeedPublicPostLogout :: string
  SeedDemoRPBClientID :: string
  SeedDemoRPBClientName :: string
  SeedDemoRPBRedirect :: string
  SeedDemoRPBPostLogout :: string
  AdminToken :: string
  SeedDemoEmail :: string
  SeedDemoPassword :: string
  SeedDemoName :: string
  SeedExtraClientsJSON :: string

type_synonym environ = "string \<Rightarrow> string"

definition normalizeEnv :: "string \<Rightarrow> string" where
  "normalizeEnv v =
    (let e = ToLower (TrimSpace v)
     in if e \<in> set ['''', ''dev'', ''development'', ''local'', ''demo''] then EnvDevelopment
        else if e \<in> set [''staging'', ''stage''] then EnvStaging
        else if e \<in> set [''production'', ''prod''] then EnvProduction
        else e)"

definition envOr :: "environ \<Rightarrow> string \<Rightarrow> string \<Rightarrow> string" where
  "envOr getenv key fallback =
    (let v = TrimSpace (getenv key) in if v \<noteq> [] then v else fallback)"

definition ParseBool :: "string \<Rightarrow> bool option" where
  "ParseBool s =
    (if s \<in> set [''1'', ''t'', ''T'', ''TRUE'', ''true'', ''True''] then Some True
     else if s \<in> set [''0'', ''f'', ''F'', ''FALSE'', ''false'', ''False''] then Some False
     else None)"

definition envBool :: "environ \<Rightarrow> string \<Rightarrow> bool \<Rightarrow> bool" where
  "envBool getenv key fallback =
    (let v = TrimSpace (getenv key)
     in if v = [] then fallback
        else case ParseBool v of None \<Rightarrow> fallback | Some b \<Rightarrow> b)"

definition envDuration ::
  "(string \<Rightarrow> int option) \<Rightarrow> environ \<Rightarrow> string \<Rightarrow> int \<Rightarrow> int res" where
  "envDuration ParseDuration getenv key fallback =
    (let v = TrimSpace (getenv key)
     in if v = [] then Inr fallback
        else case ParseDuration v of
          None \<Rightarrow> Inl (ErrOther (''invalid '' @ key))
        | Some d \<Rightarrow> if d \<le> 0 then Inl (ErrOther (key @ '' must be positive'')) else Inr d)"

definition validateProfile :: "config \<Rightarrow> unit res" where
  "validateProfile cfg =
    (if Env cfg = EnvDevelopment then Inr ()
     else if Env cfg = EnvStaging \<or> Env cfg = EnvProduction then
       (if DevGenerateKeys cfg then
          Inl (ErrOther (''IDENTITY_DEV_GENERATE_KEYS must be false when IDENTITY_ENV='' @ Env cfg))
        else if Store cfg \<noteq> StorePostgres then
          Inl (ErrOther (''IDENTITY_STORE=postgres is required when IDENTITY_ENV='' @ Env cfg))
        else if TrimSpace (RSAPrivateKeyPath cfg) = [] then
          Inl (ErrOther (''IDENTITY_RSA_PRIVATE_KEY_PATH is required when IDENTITY_ENV='' @ Env cfg))
        else if Env cfg = EnvProduction \<and> \<not> CookieSecure cfg then
          Inl (ErrOther ''IDENTITY_COOKIE_SECURE=true is required when IDENTITY_ENV=production'')
        else Inr ())
     else
       Inl (ErrOther (''unsupported IDENTITY_ENV '' @ Quote (Env cfg) @
         '' (use development, staging, or production)'')))"

text \<open>The settings that cannot fail; the four lifetimes are set afterwards.\<close>

definition baseConfig :: "environ \<Rightarrow> config" where
  "baseConfig getenv =
    \<lparr>Env = normalizeEnv (getenv ''IDENTITY_ENV''),
     HTTPAddr = envOr getenv ''IDENTITY_HTTP_ADDR'' '':8080'',
     Issuer = TrimRight1 (envOr getenv ''IDENTITY_ISSUER'' ''http://localhost:8080'') CHR ''/'',
     DatabaseURL = getenv ''IDENTITY_DATABASE_URL'',
     CookieSecure = envBool getenv ''IDENTITY_COOKIE_SECURE'' False,
     DevGenerateKeys = envBool getenv ''IDENTITY_DEV_GENERATE_KEYS'' False,
     RSAPrivateKeyPath = getenv ''IDENTITY_RSA_PRIVATE_KEY_PATH'',
     Store = ToLower (envOr getenv ''IDENTITY_STORE'' StoreMemory),
     SessionTTL = 0, CodeTTL = 0, AccessTTL = 0, RefreshTTL = 0,
     SeedPublicClientID = TrimSpace (getenv ''IDENTITY_SEED_PUBLIC_CLIENT_ID''),
     SeedPublicClientName = envOr getenv ''IDENTITY_SEED_PUBLIC_CLIENT_NAME'' ''Sample RP'',
     SeedPublicRedirect = TrimSpace (getenv ''IDENTITY_SEED_PUBLIC_REDIRECT_URI''),
     SeedPublicPostLogout = TrimSpace (getenv ''IDENTITY_SEED_PUBLIC_POST_LOGOUT_REDIRECT_URI''),
     SeedDemoRPBClientID = TrimSpace (getenv ''IDENTITY_SEED_DEMO_RP_B_CLIENT_ID''),
     SeedDemoRPBClientName = envOr getenv ''IDENTITY_SEED_DEMO_RP_B_CLIENT_NAME'' ''Sample RP B'',
     SeedDemoRPBRedirect = TrimSpace (getenv ''IDENTITY_SEED_DEMO_RP_B_REDIRECT_URI''),
     SeedDemoRPBPostLogout = TrimSpace (getenv ''IDENTITY_SEED_DEMO_RP_B_POST_LOGOUT_REDIRECT_URI''),
     AdminToken = TrimSpace (getenv ''IDENTITY_ADMIN_TOKEN''),
     SeedDemoEmail = TrimSpace (getenv ''IDENTITY_SEED_DEMO_EMAIL''),
     SeedDemoPassword = getenv ''IDENTITY_SEED_DEMO_PASSWORD'',
     SeedDemoName = envOr getenv ''IDENTITY_SEED_DEMO_NAME'' ''Demo User'',
     SeedExtraClientsJSON = TrimSpace (getenv ''IDENTITY_SEED_EXTRA_CLIENTS'')\<rparr>"

abbreviation minute :: int where
  "minute \<equiv> 60 * second"

abbreviation hour :: int where
  "hour \<equiv> 60 * minute"

definition FromEnv :: "(string \<Rightarrow> int option) \<Rightarrow> environ \<Rightarrow> config res" where
  "FromEnv ParseDuration getenv =
    (let cfg = baseConfig getenv in
     case envDuration ParseDuration getenv ''IDENTITY_SESSION_TTL'' (8 * hour) of Inl e \<Rightarrow> Inl e
     | Inr sessionTTL \<Rightarrow>
     case envDuration ParseDuration getenv ''IDENTITY_CODE_TTL'' minute of Inl e \<Rightarrow> Inl e
     | Inr codeTTL \<Rightarrow>
     case envDuration ParseDuration getenv ''IDENTITY_ACCESS_TTL'' (15 * minute) of Inl e \<Rightarrow> Inl e
     | Inr accessTTL \<Rightarrow>
     case envDuration ParseDuration getenv ''IDENTITY_REFRESH_TTL'' (7 * 24 * hour) of Inl e \<Rightarrow> Inl e
     | Inr refreshTTL \<Rightarrow>
     let cfg = cfg\<lparr>SessionTTL := sessionTTL, CodeTTL := codeTTL, AccessTTL := accessTTL,
                   RefreshTTL := refreshTTL\<rparr> in
     if Store cfg \<noteq> StoreMemory \<and> Store cfg \<noteq> StorePostgres then
       Inl (ErrOther (''unsupported IDENTITY_STORE '' @ Quote (Store cfg)))
     else if Store cfg = StorePostgres \<and> DatabaseURL cfg = [] then
       Inl (ErrOther ''IDENTITY_DATABASE_URL is required when IDENTITY_STORE=postgres'')
     else if \<not> DevGenerateKeys cfg \<and> RSAPrivateKeyPath cfg = [] then
       Inl (ErrOther ''set IDENTITY_RSA_PRIVATE_KEY_PATH or IDENTITY_DEV_GENERATE_KEYS=true'')
     else case validateProfile cfg of Inl e \<Rightarrow> Inl e | Inr u \<Rightarrow> Inr cfg)"

subsection \<open>What an accepted configuration guarantees\<close>

lemma envDuration_pos:
  "envDuration P g k d = Inr x \<Longrightarrow> 0 < d \<Longrightarrow> 0 < x"
  by (auto simp: envDuration_def Let_def split: if_splits option.splits)

lemmas env_names = EnvDevelopment_def EnvStaging_def EnvProduction_def StoreMemory_def StorePostgres_def

lemma validateProfile_ok:
  "validateProfile cfg = Inr () \<longleftrightarrow>
    Env cfg = EnvDevelopment \<or>
    (Env cfg = EnvStaging \<or> Env cfg = EnvProduction \<and> CookieSecure cfg) \<and>
    \<not> DevGenerateKeys cfg \<and> Store cfg = StorePostgres \<and> TrimSpace (RSAPrivateKeyPath cfg) \<noteq> []"
  by (auto simp: validateProfile_def env_names)

lemma FromEnv_fields:
  assumes "FromEnv P g = Inr cfg"
  shows "validateProfile cfg = Inr ()"
    and "0 < SessionTTL cfg" "0 < CodeTTL cfg" "0 < AccessTTL cfg" "0 < RefreshTTL cfg"
    and "Store cfg = StoreMemory \<or> Store cfg = StorePostgres \<and> DatabaseURL cfg \<noteq> []"
    and "DevGenerateKeys cfg \<or> RSAPrivateKeyPath cfg \<noteq> []"
  using assms
  by (auto simp: FromEnv_def Let_def dest: envDuration_pos split: sum.splits if_splits)

text \<open>
  C30. Whatever the environment, a configuration that \<open>FromEnv\<close> accepts has four positive
  lifetimes and a known store (Postgres with a database URL); it names a key file or asks for
  a development key; and outside development it uses Postgres and a key file that is not blank
  and never a generated key, in production with secure cookies only.
\<close>

theorem FromEnv_safe:
  assumes "FromEnv ParseDuration getenv = Inr cfg"
  shows "0 < SessionTTL cfg \<and> 0 < CodeTTL cfg \<and> 0 < AccessTTL cfg \<and> 0 < RefreshTTL cfg
    \<and> Env cfg \<in> {EnvDevelopment, EnvStaging, EnvProduction}
    \<and> (Store cfg = StoreMemory \<or> Store cfg = StorePostgres \<and> DatabaseURL cfg \<noteq> [])
    \<and> (DevGenerateKeys cfg \<or> RSAPrivateKeyPath cfg \<noteq> [])
    \<and> (Env cfg \<noteq> EnvDevelopment \<longrightarrow>
        Store cfg = StorePostgres \<and> \<not> DevGenerateKeys cfg \<and> TrimSpace (RSAPrivateKeyPath cfg) \<noteq> [])
    \<and> (Env cfg = EnvProduction \<longrightarrow> CookieSecure cfg)"
  using FromEnv_fields [OF assms] by (auto simp: validateProfile_ok env_names)

theorem FromEnv_safe_witness:
  "\<exists>cfg. FromEnv (\<lambda>s. None) (\<lambda>k. if k = ''IDENTITY_DEV_GENERATE_KEYS'' then ''true'' else []) = Inr cfg
    \<and> 0 < CodeTTL cfg"
proof -
  have "is_ok (FromEnv (\<lambda>s. None) (\<lambda>k. if k = ''IDENTITY_DEV_GENERATE_KEYS'' then ''true'' else []))"
    by code_simp
  then obtain cfg where c: "FromEnv (\<lambda>s. None) (\<lambda>k. if k = ''IDENTITY_DEV_GENERATE_KEYS'' then ''true'' else []) = Inr cfg"
    by (auto simp: is_ok_iff)
  with FromEnv_safe [OF c] show ?thesis by simp
qed

end
