(* ===== verification/Runtime.thy ===== *)
theory Runtime
  imports Config
begin

section \<open>The process and what surrounds it\<close>

text \<open>
  What the services and handlers read from outside the repository (record \<open>env\<close>) and the
  state of one server process (record \<open>world\<close>): the store, the number of random and ULID
  draws so far, the failures of the login limiter (\<open>Limiter.hits\<close>), the authorization
  requests that wait for consent (\<open>Server.pending\<close>), and the back-channel notices sent.

  \<open>Now\<close> is the clock, read as one instant per request. \<open>Rand k n\<close> is the \<open>k\<close>-th read of
  \<open>crypto/rand\<close> for \<open>n\<close> bytes, \<open>ULID k\<close> the \<open>k\<close>-th identifier of \<open>ulid.Make\<close>, \<open>IDKey\<close> is
  \<open>argon2.IDKey\<close>, \<open>MailOK\<close> says whether \<open>mail.ParseAddress\<close> accepts a string, and \<open>SignJWT\<close>
  and \<open>ParseJWT\<close> are building and signing a token, and parsing one with its signature verified.
  Below them: \<open>internal/random\<close> and \<open>id.New\<close>.
\<close>

datatype json =
    JNull
  | JBool bool
  | JNum int
  | JStr string
  | JArr "json list"
  | JObj "(string \<times> json) list"

type_synonym claims = "(string \<times> json) list"

record env =
  Now :: int
  Rand :: "nat \<Rightarrow> nat \<Rightarrow> string option"
  ULID :: "nat \<Rightarrow> string"
  IDKey :: "string \<Rightarrow> string \<Rightarrow> nat \<Rightarrow> nat \<Rightarrow> nat \<Rightarrow> nat \<Rightarrow> string"
  MailOK :: "string \<Rightarrow> bool"
  SignJWT :: "claims \<Rightarrow> string option"
  ParseJWT :: "string \<Rightarrow> claims option"
  Cfg :: config

record 's world =
  w_store :: 's
  w_draws :: nat
  w_ids :: nat
  w_hits :: "int list gomap"
  w_pending :: "pending_auth gomap"
  w_sent :: "(string \<times> string) list"

text \<open>A writing method of the store, run on the world.\<close>

definition on_store :: "('s \<Rightarrow> 'a \<times> 's) \<Rightarrow> 's world \<Rightarrow> 'a \<times> 's world" where
  "on_store f w = (let (r, s) = f (w_store w) in (r, w\<lparr>w_store := s\<rparr>))"

lemma fst_on_store [simp]: "fst (on_store f w) = fst (f (w_store w))"
  by (simp add: on_store_def split: prod.split)

lemma snd_on_store [simp]: "snd (on_store f w) = w\<lparr>w_store := snd (f (w_store w))\<rparr>"
  by (simp add: on_store_def split: prod.split)

subsection \<open>Random tokens and identifiers\<close>

definition random_Bytes :: "env \<Rightarrow> nat \<Rightarrow> 's world \<Rightarrow> string res \<times> 's world" where
  "random_Bytes E n w =
    (if n < 16 then (Inl (ErrOther (''random byte length '' @ dec n @ '' is below 16'')), w)
     else case Rand E (w_draws w) n of
       None \<Rightarrow> (Inl (ErrOther ''crypto/rand''), w\<lparr>w_draws := w_draws w + 1\<rparr>)
     | Some b \<Rightarrow> (Inr b, w\<lparr>w_draws := w_draws w + 1\<rparr>))"

definition random_Token :: "env \<Rightarrow> 's world \<Rightarrow> string res \<times> 's world" where
  "random_Token E w =
    (case random_Bytes E 32 w of
       (Inl e, w) \<Rightarrow> (Inl e, w)
     | (Inr b, w) \<Rightarrow> (Inr (RawURLEncode b), w))"

definition id_New :: "env \<Rightarrow> 's world \<Rightarrow> string \<times> 's world" where
  "id_New E w = (ULID E (w_ids w), w\<lparr>w_ids := w_ids w + 1\<rparr>)"

text \<open>The token the next draw gives, if it gives one.\<close>

definition token_at :: "env \<Rightarrow> nat \<Rightarrow> string option" where
  "token_at E k = map_option RawURLEncode (Rand E k 32)"

lemma random_Token_eq:
  "random_Token E w =
    (case token_at E (w_draws w) of
       None \<Rightarrow> (Inl (ErrOther ''crypto/rand''), w\<lparr>w_draws := w_draws w + 1\<rparr>)
     | Some t \<Rightarrow> (Inr t, w\<lparr>w_draws := w_draws w + 1\<rparr>))"
  by (simp add: random_Token_def random_Bytes_def token_at_def split: option.split)

lemma token_at_length:
  assumes "\<And>k n b. Rand E k n = Some b \<Longrightarrow> length b = n" and "token_at E k = Some t"
  shows "length t = 43"
  using assms by (auto simp: token_at_def length_RawURLEncode)

text \<open>Documented behaviour of \<open>crypto/rand\<close>: a read fills the slice it was given.\<close>

definition rand_fills :: "env \<Rightarrow> bool" where
  "rand_fills E \<longleftrightarrow> (\<forall>k n b. Rand E k n = Some b \<longrightarrow> length b = n)"

lemma token_length: "rand_fills E \<Longrightarrow> token_at E k = Some t \<Longrightarrow> length t = 43"
  using token_at_length [of E k t] by (simp add: rand_fills_def)

end
