(* ===== verification/SampleEnv.thy ===== *)
theory SampleEnv
  imports Runtime
begin

section \<open>A concrete environment\<close>

text \<open>
  The environment in which the witnesses run the services and handlers: distinct random draws
  and identifiers, a key derivation that depends on the password only, and a configuration.
\<close>

definition sample_config :: config where
  "sample_config = (baseConfig (\<lambda>_. []))\<lparr>Issuer := ''https://id'', AdminToken := ''root'',
     SessionTTL := 8 * hour, CodeTTL := minute, AccessTTL := 15 * minute, RefreshTTL := 24 * hour\<rparr>"

definition sample_env :: env where
  "sample_env = \<lparr>Now = 1000 * second,
     Rand = (\<lambda>k n. Some (map (\<lambda>i. char_of (k div 2 ^ i mod 2)) [0..<n])),
     ULID = dec,
     IDKey = (\<lambda>p s t m th k. take k (p @ replicate k CHR ''.'')),
     MailOK = (\<lambda>a. True),
     SignJWT = (\<lambda>c. Some ''jwt''),
     ParseJWT = (\<lambda>c. None),
     Cfg = sample_config\<rparr>"

lemma sample_sel [simp]:
  "Now sample_env = 1000 * second"
  "token_at sample_env k = Some (RawURLEncode (map (\<lambda>i. char_of (k div 2 ^ i mod 2)) [0..<32]))"
  "ULID sample_env = dec"
  "Cfg sample_env = sample_config"
  by (simp_all add: sample_env_def token_at_def)

lemma sample_rand [simp]: "Rand sample_env k n = Some (map (\<lambda>i. char_of (k div 2 ^ i mod 2)) [0..<n])"
  by (simp add: sample_env_def)

lemma dec_not_u [simp]: "dec n \<noteq> CHR ''u'' # s"
  using dec_digits [of "CHR ''u''" n] by auto

lemma sample_fills [simp]: "rand_fills sample_env"
  by (auto simp: rand_fills_def sample_env_def)

lemma sample_key_len: "length (IDKey sample_env p s t m th k) = k"
  by (simp add: sample_env_def)

end
