(* ===== verification/Password.thy ===== *)
theory Password
  imports SampleEnv
begin

section \<open>Password hashes\<close>

text \<open>
  \<open>internal/password/password.go\<close>: hashing with Argon2id (the argument \<open>IDKey\<close> of \<open>env\<close>)
  into a PHC string, and verifying a password against such a string, with the parser of the
  PHC format. \<open>subtle.ConstantTimeCompare\<close> is equality of byte strings.
\<close>

definition algo :: string where "algo = ''argon2id''"
definition argon_version :: nat where "argon_version = 19"
definition memoryKiB :: nat where "memoryKiB = 64 * 1024"
definition timeCost :: nat where "timeCost = 1"
definition threads :: nat where "threads = 4"
definition keyLen :: nat where "keyLen = 32"
definition saltLen :: nat where "saltLen = 16"

lemmas argon_params =
  algo_def argon_version_def memoryKiB_def timeCost_def threads_def keyLen_def saltLen_def

definition phc_string :: "string \<Rightarrow> string \<Rightarrow> string" where
  "phc_string salt key =
    ''$'' @ algo @ ''$v='' @ dec argon_version @
    ''$m='' @ dec memoryKiB @ '',t='' @ dec timeCost @ '',p='' @ dec threads @
    ''$'' @ RawStdEncode salt @ ''$'' @ RawStdEncode key"

definition Hash_password :: "env \<Rightarrow> string \<Rightarrow> 's world \<Rightarrow> string res \<times> 's world" where
  "Hash_password E plain w =
    (if plain = [] then (Inl (ErrOther ''password must not be empty''), w)
     else case Rand E (w_draws w) saltLen of
       None \<Rightarrow> (Inl (ErrOther ''salt''), w\<lparr>w_draws := w_draws w + 1\<rparr>)
     | Some salt \<Rightarrow>
         let key = IDKey E plain salt timeCost memoryKiB threads keyLen
         in (Inr (phc_string salt key), w\<lparr>w_draws := w_draws w + 1\<rparr>))"

text \<open>The parameters \<open>m\<close>, \<open>t\<close> and \<open>p\<close>, in any order; other names are skipped.\<close>

fun phc_params :: "string list \<Rightarrow> nat \<times> nat \<times> nat \<Rightarrow> (nat \<times> nat \<times> nat) res" where
  "phc_params [] mtp = Inr mtp"
| "phc_params (kv # kvs) (m, t, p) =
    (case cut_at CHR ''='' kv of
       None \<Rightarrow> Inl (ErrOther (''invalid phc param '' @ Quote kv))
     | Some (k, v) \<Rightarrow>
         (case ParseUint v 32 of
            None \<Rightarrow> Inl (ErrOther ''invalid phc value'')
          | Some n \<Rightarrow>
              phc_params kvs
                (if k = ''m'' then (n, t, p) else if k = ''t'' then (m, n, p)
                 else if k = ''p'' then (m, t, n) else (m, t, p))))"

record phc =
  phc_salt :: string
  phc_hash :: string
  phc_memory :: nat
  phc_time :: nat
  phc_threads :: nat

definition parsePHC :: "string \<Rightarrow> phc res" where
  "parsePHC encoded =
    (let parts = split_on CHR ''$'' encoded in
     if length parts \<noteq> 6 \<or> parts ! 1 \<noteq> algo then
       Inl (ErrOther ''unsupported password hash format'')
     else if parts ! 2 \<noteq> ''v='' @ dec argon_version then
       Inl (ErrOther ''unsupported argon2 version'')
     else case phc_params (split_on CHR '','' (parts ! 3)) (0, 0, 0) of
       Inl e \<Rightarrow> Inl e
     | Inr (memory, tcost, p) \<Rightarrow>
         if memory = 0 \<or> tcost = 0 \<or> p = 0 \<or> 255 < p then
           Inl (ErrOther ''incomplete phc parameters'')
         else case RawStdDecode (parts ! 4) of
           None \<Rightarrow> Inl (ErrOther ''salt'')
         | Some salt \<Rightarrow>
             (case RawStdDecode (parts ! 5) of
                None \<Rightarrow> Inl (ErrOther ''hash'')
              | Some h \<Rightarrow>
                  Inr \<lparr>phc_salt = salt, phc_hash = h, phc_memory = memory, phc_time = tcost,
                       phc_threads = p\<rparr>))"

definition Verify :: "env \<Rightarrow> string \<Rightarrow> string \<Rightarrow> bool res" where
  "Verify E plain encoded =
    (if plain = [] \<or> encoded = [] then Inr False
     else case parsePHC encoded of
       Inl e \<Rightarrow> Inl e
     | Inr x \<Rightarrow>
         let got = IDKey E plain (phc_salt x) (phc_time x) (phc_memory x) (phc_threads x)
                     (length (phc_hash x) mod 2 ^ 32)
         in Inr (got = phc_hash x))"

subsection \<open>Round trip\<close>

lemma dec_no_mark: "c \<in> {CHR ''$'', CHR '','', CHR ''=''} \<Longrightarrow> c \<notin> set (dec n)"
  using dec_digits [of c n] by auto

lemma RawStdEncode_no_dollar: "CHR ''$'' \<notin> set (RawStdEncode s)"
  using set_RawStdEncode by blast

lemma phc_parts:
  "split_on CHR ''$'' (phc_string salt key) =
    [[], algo, ''v='' @ dec argon_version,
     ''m='' @ dec memoryKiB @ '',t='' @ dec timeCost @ '',p='' @ dec threads,
     RawStdEncode salt, RawStdEncode key]"
proof -
  let ?ps = "[[], algo, ''v='' @ dec argon_version,
     ''m='' @ dec memoryKiB @ '',t='' @ dec timeCost @ '',p='' @ dec threads,
     RawStdEncode salt, RawStdEncode key]"
  have "split_on CHR ''$'' (join [CHR ''$''] ?ps) = ?ps"
    by (rule split_on_join) (auto simp: dec_no_mark RawStdEncode_no_dollar algo_def)
  then show ?thesis by (simp add: phc_string_def)
qed

lemma phc_param_parts:
  "split_on CHR '','' (''m='' @ dec m @ '',t='' @ dec t @ '',p='' @ dec p) =
    [''m='' @ dec m, ''t='' @ dec t, ''p='' @ dec p]"
  using split_on_join [of "[''m='' @ dec m, ''t='' @ dec t, ''p='' @ dec p]" "CHR '',''"]
  by (simp add: dec_no_mark)

lemma parsePHC_phc_string:
  "parsePHC (phc_string salt key) =
    Inr \<lparr>phc_salt = salt, phc_hash = key, phc_memory = memoryKiB, phc_time = timeCost,
         phc_threads = threads\<rparr>"
proof -
  have "phc_params (split_on CHR '','' (''m='' @ dec memoryKiB @ '',t='' @ dec timeCost @ '',p='' @ dec threads))
      (0, 0, 0) = Inr (memoryKiB, timeCost, threads)"
    unfolding phc_param_parts
    by (simp add: ParseUint_dec memoryKiB_def timeCost_def threads_def)
  then show ?thesis
    by (simp add: parsePHC_def phc_parts Let_def RawStdDecode_Encode memoryKiB_def timeCost_def threads_def)
qed

lemma phc_string_nonempty [simp]: "phc_string salt key \<noteq> []"
  by (simp add: phc_string_def)

lemma Verify_phc_string:
  "Verify E q (phc_string salt key) =
    Inr (q \<noteq> [] \<and> IDKey E q salt timeCost memoryKiB threads (length key mod 2 ^ 32) = key)"
  by (simp add: Verify_def parsePHC_phc_string Let_def)

lemma Hash_password_ok:
  "Hash_password E plain w = (Inr h, w') \<longleftrightarrow>
    plain \<noteq> [] \<and> w' = w\<lparr>w_draws := w_draws w + 1\<rparr> \<and>
    (\<exists>salt. Rand E (w_draws w) saltLen = Some salt \<and>
      h = phc_string salt (IDKey E plain salt timeCost memoryKiB threads keyLen))"
  by (auto simp: Hash_password_def Let_def split: option.splits)

lemma Verify_Hash:
  assumes "Hash_password E plain w = (Inr h, w')"
    and len: "\<And>p s t m th k. length (IDKey E p s t m th k) = k"
  shows "\<exists>salt. Rand E (w_draws w) saltLen = Some salt \<and>
    (\<forall>q. Verify E q h = Inr (q \<noteq> [] \<and>
      IDKey E q salt timeCost memoryKiB threads keyLen = IDKey E plain salt timeCost memoryKiB threads keyLen))"
  using assms(1) unfolding Hash_password_ok
  by (auto simp: Verify_phc_string len keyLen_def)

text \<open>
  C23. A password that was hashed verifies against its hash; a wrong one is accepted only if
  Argon2id derives the same key from it under the stored salt and cost. Documented behaviour
  used: \<open>argon2.IDKey\<close> returns as many bytes as it is asked for.
\<close>

theorem password_roundtrip:
  assumes "Hash_password E plain w = (Inr h, w')"
    and "\<And>p s t m th k. length (IDKey E p s t m th k) = k"
  shows "Verify E plain h = Inr True
    \<and> (\<forall>q. is_ok (Verify E q h))
    \<and> (\<exists>salt. Rand E (w_draws w) saltLen = Some salt \<and>
        (\<forall>q. Verify E q h = Inr True \<longleftrightarrow> q \<noteq> [] \<and>
          IDKey E q salt timeCost memoryKiB threads keyLen =
          IDKey E plain salt timeCost memoryKiB threads keyLen))"
proof -
  obtain salt where "Rand E (w_draws w) saltLen = Some salt"
    "\<forall>q. Verify E q h = Inr (q \<noteq> [] \<and>
      IDKey E q salt timeCost memoryKiB threads keyLen = IDKey E plain salt timeCost memoryKiB threads keyLen)"
    using Verify_Hash [OF assms] by blast
  moreover have "plain \<noteq> []" using assms(1) Hash_password_ok by blast
  ultimately show ?thesis by auto
qed

theorem password_roundtrip_witness:
  "\<exists>h w'. Hash_password sample_env ''pw'' (\<lparr>w_store = (), w_draws = 0, w_ids = 0, w_hits = [],
      w_pending = [], w_sent = []\<rparr>) = (Inr h, w') \<and> Verify sample_env ''pw'' h = Inr True"
proof -
  let ?w = "\<lparr>w_store = (), w_draws = 0, w_ids = 0, w_hits = [], w_pending = [], w_sent = []\<rparr>"
  obtain h w' where h: "Hash_password sample_env ''pw'' ?w = (Inr h, w')"
    by (simp add: Hash_password_def Let_def)
  from password_roundtrip [OF h] h show ?thesis by (auto simp: sample_key_len)
qed

end
