(* ===== verification/MemStore.thy ===== *)
theory MemStore
  imports Repos
begin

section \<open>The memory store\<close>

text \<open>
  \<open>internal/store/memory\<close>: the state is the \<open>Store\<close> struct (its mutex makes every method
  one atomic step), one definition per method. Methods that range over a map take the
  order of the iteration. The last part proves the representation invariant, and interprets
  the contracts of \<open>Repos\<close> on the store.
\<close>

record store =
  st_users :: "user gomap"
  st_byEmail :: "string gomap"
  st_sessions :: "session gomap"
  st_clients :: "client gomap"
  st_codes :: "auth_code gomap"
  st_refresh :: "refresh_token gomap"
  st_access :: "access_token gomap"
  st_consent :: "consent gomap"
  st_audits :: "audit_event list"
  st_sidRP :: "unit gomap gomap"
  st_orgs :: "organization gomap"
  st_orgMembers :: "membership gomap gomap"

definition NewStore :: store where
  "NewStore = \<lparr>st_users = [], st_byEmail = [], st_sessions = [], st_clients = [], st_codes = [],
     st_refresh = [], st_access = [], st_consent = [], st_audits = [], st_sidRP = [],
     st_orgs = [], st_orgMembers = []\<rparr>"

subsection \<open>Users\<close>

definition mem_Create :: "user \<Rightarrow> store \<Rightarrow> unit res \<times> store" where
  "mem_Create u st =
    (let email = ToLower (uEmail u)
     in if gget (st_byEmail st) email \<noteq> None then (Inl ErrConflict, st)
        else (Inr (), st\<lparr>st_users := gput (uID u) (u\<lparr>uEmail := email\<rparr>) (st_users st),
                         st_byEmail := gput email (uID u) (st_byEmail st)\<rparr>))"

definition mem_GetByEmail :: "string \<Rightarrow> store \<Rightarrow> user res" where
  "mem_GetByEmail email st =
    (case gget (st_byEmail st) (ToLower email) of
       None \<Rightarrow> Inl ErrNotFound
     | Some i \<Rightarrow> Inr (case gget (st_users st) i of None \<Rightarrow> zero_user | Some u \<Rightarrow> u))"

definition mem_GetByID :: "string \<Rightarrow> store \<Rightarrow> user res" where
  "mem_GetByID i st = found (gget (st_users st) i)"

definition mem_ListUsers :: "iter_order \<Rightarrow> store \<Rightarrow> user list res" where
  "mem_ListUsers it st = Inr (sort_key uEmail (range_vals it (st_users st)))"

definition mem_SetUserDisabled :: "string \<Rightarrow> bool \<Rightarrow> store \<Rightarrow> unit res \<times> store" where
  "mem_SetUserDisabled i disabled st =
    (case gget (st_users st) i of
       None \<Rightarrow> (Inl ErrNotFound, st)
     | Some u \<Rightarrow> (Inr (), st\<lparr>st_users := gput i (u\<lparr>uDisabled := disabled\<rparr>) (st_users st)\<rparr>))"

subsection \<open>Sessions\<close>

definition mem_PutSession :: "session \<Rightarrow> store \<Rightarrow> unit res \<times> store" where
  "mem_PutSession sess st = (Inr (), st\<lparr>st_sessions := gput (sTokenHash sess) sess (st_sessions st)\<rparr>)"

definition mem_GetSession :: "string \<Rightarrow> store \<Rightarrow> session res" where
  "mem_GetSession tokenHash st = found (gget (st_sessions st) tokenHash)"

definition mem_GetSessionBySID :: "iter_order \<Rightarrow> string \<Rightarrow> store \<Rightarrow> session res" where
  "mem_GetSessionBySID it sid st = found (find (\<lambda>sess. sSID sess = sid) (range_vals it (st_sessions st)))"

definition mem_DeleteSession :: "string \<Rightarrow> store \<Rightarrow> unit res \<times> store" where
  "mem_DeleteSession tokenHash st =
    (let st1 = (case gget (st_sessions st) tokenHash of
                  None \<Rightarrow> st
                | Some sess \<Rightarrow>
                    if sSID sess \<noteq> [] then st\<lparr>st_sidRP := gdel (sSID sess) (st_sidRP st)\<rparr> else st)
     in (Inr (), st1\<lparr>st_sessions := gdel tokenHash (st_sessions st1)\<rparr>))"

definition mem_AddSessionClient :: "string \<Rightarrow> string \<Rightarrow> store \<Rightarrow> unit res \<times> store" where
  "mem_AddSessionClient sid clientID st =
    (if sid = [] \<or> clientID = [] then (Inr (), st)
     else
       let inner = (case gget (st_sidRP st) sid of None \<Rightarrow> [] | Some m \<Rightarrow> m)
       in (Inr (), st\<lparr>st_sidRP := gput sid (gput clientID () inner) (st_sidRP st)\<rparr>))"

definition mem_ListSessionClients :: "iter_order \<Rightarrow> string \<Rightarrow> store \<Rightarrow> string list res" where
  "mem_ListSessionClients it sid st =
    (let inner = (case gget (st_sidRP st) sid of None \<Rightarrow> [] | Some m \<Rightarrow> m)
     in Inr (sort (map fst (range_map it inner))))"

subsection \<open>Clients\<close>

definition mem_CreateClient :: "client \<Rightarrow> store \<Rightarrow> unit res \<times> store" where
  "mem_CreateClient c st =
    (if gget (st_clients st) (cID c) \<noteq> None then (Inl ErrConflict, st)
     else (Inr (), st\<lparr>st_clients := gput (cID c) c (st_clients st)\<rparr>))"

definition mem_GetClient :: "string \<Rightarrow> store \<Rightarrow> client res" where
  "mem_GetClient i st = found (gget (st_clients st) i)"

definition mem_ListClients :: "iter_order \<Rightarrow> store \<Rightarrow> client list res" where
  "mem_ListClients it st = Inr (sort_key cID (range_vals it (st_clients st)))"

definition mem_UpdateClient :: "string \<Rightarrow> client_patch \<Rightarrow> store \<Rightarrow> unit res \<times> store" where
  "mem_UpdateClient i patch st =
    (case gget (st_clients st) i of
       None \<Rightarrow> (Inl ErrNotFound, st)
     | Some c \<Rightarrow>
         (Inr (), st\<lparr>st_clients := gput i
           (c\<lparr>cName := pName patch, cRedirectURIs := pRedirectURIs patch,
              cPostLogoutRedirectURIs := pPostLogoutRedirectURIs patch,
              cFrontChannelLogoutURI := pFrontChannelLogoutURI patch,
              cBackChannelLogoutURI := pBackChannelLogoutURI patch\<rparr>) (st_clients st)\<rparr>))"

definition mem_SetClientSecret :: "string \<Rightarrow> string \<Rightarrow> store \<Rightarrow> unit res \<times> store" where
  "mem_SetClientSecret i secretHash st =
    (case gget (st_clients st) i of
       None \<Rightarrow> (Inl ErrNotFound, st)
     | Some c \<Rightarrow> (Inr (), st\<lparr>st_clients := gput i (c\<lparr>cSecretHash := secretHash\<rparr>) (st_clients st)\<rparr>))"

subsection \<open>Authorization codes\<close>

definition mem_PutCode :: "auth_code \<Rightarrow> store \<Rightarrow> unit res \<times> store" where
  "mem_PutCode c st = (Inr (), st\<lparr>st_codes := gput (acHash c) c (st_codes st)\<rparr>)"

definition mem_TakeCode :: "string \<Rightarrow> store \<Rightarrow> auth_code res \<times> store" where
  "mem_TakeCode hash st =
    (case gget (st_codes st) hash of
       None \<Rightarrow> (Inl ErrNotFound, st)
     | Some c \<Rightarrow>
         if acUsed c then (Inl ErrUsed, st)
         else let c' = c\<lparr>acUsed := True\<rparr>
              in (Inr c', st\<lparr>st_codes := gput hash c' (st_codes st)\<rparr>))"

subsection \<open>Refresh tokens\<close>

definition mem_PutRefresh :: "refresh_token \<Rightarrow> store \<Rightarrow> unit res \<times> store" where
  "mem_PutRefresh t st = (Inr (), st\<lparr>st_refresh := gput (rtHash t) t (st_refresh st)\<rparr>)"

definition mem_GetRefresh :: "string \<Rightarrow> store \<Rightarrow> refresh_token res" where
  "mem_GetRefresh hash st = found (gget (st_refresh st) hash)"

definition mem_TakeRefresh :: "string \<Rightarrow> store \<Rightarrow> refresh_token res \<times> store" where
  "mem_TakeRefresh hash st =
    (case gget (st_refresh st) hash of
       None \<Rightarrow> (Inl ErrNotFound, st)
     | Some t \<Rightarrow>
         if rtRevoked t then (Inl ErrUsed, st)
         else let t' = t\<lparr>rtRevoked := True\<rparr>
              in (Inr t', st\<lparr>st_refresh := gput hash t' (st_refresh st)\<rparr>))"

text \<open>The loop writes back every entry of the family; the order of the visit does not matter.\<close>

definition mem_RevokeFamily :: "string \<Rightarrow> store \<Rightarrow> unit res \<times> store" where
  "mem_RevokeFamily familyID st =
    (Inr (), st\<lparr>st_refresh :=
       map (\<lambda>(k, t). (k, if rtFamilyID t = familyID then t\<lparr>rtRevoked := True\<rparr> else t)) (st_refresh st)\<rparr>)"

subsection \<open>Access tokens, consents, audit events\<close>

definition mem_PutAccess :: "access_token \<Rightarrow> store \<Rightarrow> unit res \<times> store" where
  "mem_PutAccess t st = (Inr (), st\<lparr>st_access := gput (atHash t) t (st_access st)\<rparr>)"

definition mem_GetAccess :: "string \<Rightarrow> store \<Rightarrow> access_token res" where
  "mem_GetAccess hash st = found (gget (st_access st) hash)"

definition mem_PutConsent :: "consent \<Rightarrow> store \<Rightarrow> unit res \<times> store" where
  "mem_PutConsent c st =
    (Inr (), st\<lparr>st_consent := gput (gUserID c @ ''|'' @ gClientID c) c (st_consent st)\<rparr>)"

definition mem_GetConsent :: "string \<Rightarrow> string \<Rightarrow> store \<Rightarrow> consent res" where
  "mem_GetConsent userID clientID st = found (gget (st_consent st) (userID @ ''|'' @ clientID))"

definition mem_AppendAudit :: "audit_event \<Rightarrow> store \<Rightarrow> unit res \<times> store" where
  "mem_AppendAudit e st = (Inr (), st\<lparr>st_audits := st_audits st @ [e]\<rparr>)"

definition mem_ListAudits :: "int \<Rightarrow> string \<Rightarrow> store \<Rightarrow> audit_page res" where
  "mem_ListAudits limit afterID st = audit_window limit afterID (st_audits st)"

subsection \<open>Organizations\<close>

definition mem_CreateOrganization :: "organization \<Rightarrow> store \<Rightarrow> unit res \<times> store" where
  "mem_CreateOrganization org st = (Inr (), st\<lparr>st_orgs := gput (oID org) org (st_orgs st)\<rparr>)"

definition mem_GetOrganization :: "string \<Rightarrow> store \<Rightarrow> organization res" where
  "mem_GetOrganization i st = found (gget (st_orgs st) i)"

definition mem_ListOrganizations :: "iter_order \<Rightarrow> store \<Rightarrow> organization list res" where
  "mem_ListOrganizations it st = Inr (sort_key oCreatedAt (range_vals it (st_orgs st)))"

definition mem_ListOrganizationsForUser :: "iter_order \<Rightarrow> string \<Rightarrow> store \<Rightarrow> organization list res" where
  "mem_ListOrganizationsForUser it userID st =
    Inr (sort_key oCreatedAt
      (List.map_filter (\<lambda>(orgID, members).
         if gget members userID \<noteq> None then gget (st_orgs st) orgID else None)
       (range_map it (st_orgMembers st))))"

definition mem_AddOrganizationMember :: "membership \<Rightarrow> store \<Rightarrow> unit res \<times> store" where
  "mem_AddOrganizationMember m st =
    (let st1 = (if gget (st_orgMembers st) (mOrgID m) = None
                then st\<lparr>st_orgMembers := gput (mOrgID m) [] (st_orgMembers st)\<rparr> else st);
         members = (case gget (st_orgMembers st1) (mOrgID m) of None \<Rightarrow> [] | Some ms \<Rightarrow> ms)
     in if gget members (mUserID m) \<noteq> None then (Inl ErrConflict, st1)
        else (Inr (), st1\<lparr>st_orgMembers :=
                gput (mOrgID m) (gput (mUserID m) m members) (st_orgMembers st1)\<rparr>))"

definition mem_ListOrganizationMembers :: "iter_order \<Rightarrow> string \<Rightarrow> store \<Rightarrow> membership list res" where
  "mem_ListOrganizationMembers it orgID st =
    (case gget (st_orgMembers st) orgID of
       None \<Rightarrow> Inr []
     | Some members \<Rightarrow> Inr (sort_key mJoinedAt (range_vals it members)))"

definition mem_GetOrganizationMembership :: "string \<Rightarrow> string \<Rightarrow> store \<Rightarrow> membership res" where
  "mem_GetOrganizationMembership orgID userID st =
    (case gget (st_orgMembers st) orgID of
       None \<Rightarrow> Inl ErrNotFound
     | Some members \<Rightarrow> found (gget members userID))"

definition mem_UpdateOrganizationMemberRole ::
    "string \<Rightarrow> string \<Rightarrow> org_role \<Rightarrow> store \<Rightarrow> unit res \<times> store" where
  "mem_UpdateOrganizationMemberRole orgID userID role st =
    (case gget (st_orgMembers st) orgID of
       None \<Rightarrow> (Inl ErrNotFound, st)
     | Some members \<Rightarrow>
         (case gget members userID of
            None \<Rightarrow> (Inl ErrNotFound, st)
          | Some m \<Rightarrow>
              (Inr (), st\<lparr>st_orgMembers :=
                 gput orgID (gput userID (m\<lparr>mRole := role\<rparr>) members) (st_orgMembers st)\<rparr>)))"

definition mem_RemoveOrganizationMember :: "string \<Rightarrow> string \<Rightarrow> store \<Rightarrow> unit res \<times> store" where
  "mem_RemoveOrganizationMember orgID userID st =
    (case gget (st_orgMembers st) orgID of
       None \<Rightarrow> (Inl ErrNotFound, st)
     | Some members \<Rightarrow>
         if gget members userID = None then (Inl ErrNotFound, st)
         else (Inr (), st\<lparr>st_orgMembers := gput orgID (gdel userID members) (st_orgMembers st)\<rparr>))"

definition mem_SetSessionActiveOrg :: "string \<Rightarrow> string \<Rightarrow> store \<Rightarrow> unit res \<times> store" where
  "mem_SetSessionActiveOrg tokenHash orgID st =
    (case gget (st_sessions st) tokenHash of
       None \<Rightarrow> (Inl ErrNotFound, st)
     | Some sess \<Rightarrow>
         (Inr (), st\<lparr>st_sessions := gput tokenHash (sess\<lparr>sActiveOrgID := orgID\<rparr>) (st_sessions st)\<rparr>))"

definition mem_SetSessionActiveOrgBySID ::
    "iter_order \<Rightarrow> string \<Rightarrow> string \<Rightarrow> store \<Rightarrow> unit res \<times> store" where
  "mem_SetSessionActiveOrgBySID it sid orgID st =
    (if sid = [] then (Inl ErrInvalid, st)
     else case find (\<lambda>(hash, sess). sSID sess = sid) (range_map it (st_sessions st)) of
            None \<Rightarrow> (Inl ErrNotFound, st)
          | Some (hash, sess) \<Rightarrow>
              (Inr (), st\<lparr>st_sessions := gput hash (sess\<lparr>sActiveOrgID := orgID\<rparr>) (st_sessions st)\<rparr>))"

subsection \<open>The store as an implementation of the interfaces\<close>

definition mem_repos :: "iter_order \<Rightarrow> store repos" where
  "mem_repos it = \<lparr>
     Users = \<lparr>Create = mem_Create, GetByEmail = mem_GetByEmail, GetByID = mem_GetByID,
       ListUsers = mem_ListUsers it, SetUserDisabled = mem_SetUserDisabled\<rparr>,
     Sessions = \<lparr>PutSession = mem_PutSession, GetSession = mem_GetSession,
       GetSessionBySID = mem_GetSessionBySID it, DeleteSession = mem_DeleteSession,
       AddSessionClient = mem_AddSessionClient, ListSessionClients = mem_ListSessionClients it\<rparr>,
     Clients = \<lparr>CreateClient = mem_CreateClient, GetClient = mem_GetClient,
       ListClients = mem_ListClients it, UpdateClient = mem_UpdateClient,
       SetClientSecret = mem_SetClientSecret\<rparr>,
     AuthCodes = \<lparr>PutCode = mem_PutCode, TakeCode = mem_TakeCode\<rparr>,
     RefreshTokens = \<lparr>PutRefresh = mem_PutRefresh, GetRefresh = mem_GetRefresh,
       TakeRefresh = mem_TakeRefresh, RevokeFamily = mem_RevokeFamily\<rparr>,
     AccessTokens = \<lparr>PutAccess = mem_PutAccess, GetAccess = mem_GetAccess\<rparr>,
     Consents = \<lparr>PutConsent = mem_PutConsent, GetConsent = mem_GetConsent\<rparr>,
     Audits = \<lparr>AppendAudit = mem_AppendAudit, ListAudits = mem_ListAudits\<rparr>,
     Organizations = \<lparr>CreateOrganization = mem_CreateOrganization,
       GetOrganization = mem_GetOrganization, ListOrganizations = mem_ListOrganizations it,
       ListOrganizationsForUser = mem_ListOrganizationsForUser it,
       AddOrganizationMember = mem_AddOrganizationMember,
       ListOrganizationMembers = mem_ListOrganizationMembers it,
       GetOrganizationMembership = mem_GetOrganizationMembership,
       UpdateOrganizationMemberRole = mem_UpdateOrganizationMemberRole,
       RemoveOrganizationMember = mem_RemoveOrganizationMember,
       SetSessionActiveOrg = mem_SetSessionActiveOrg,
       SetSessionActiveOrgBySID = mem_SetSessionActiveOrgBySID it\<rparr>\<rparr>"

subsection \<open>The representation invariant\<close>

text \<open>
  Every map has one entry per key; every row is stored under its own key; the email index
  and the user table agree.
\<close>

definition user_row_ok :: "string gomap \<Rightarrow> string \<Rightarrow> user \<Rightarrow> bool" where
  "user_row_ok byEmail i u \<longleftrightarrow>
    uID u = i \<and> ToLower (uEmail u) = uEmail u \<and> gget byEmail (uEmail u) = Some i"

definition email_row_ok :: "user gomap \<Rightarrow> string \<Rightarrow> string \<Rightarrow> bool" where
  "email_row_ok users e i \<longleftrightarrow>
    (case gget users i of None \<Rightarrow> False | Some u \<Rightarrow> uEmail u = e)"

definition mem_inv :: "store \<Rightarrow> bool" where
  "mem_inv st \<longleftrightarrow>
    gmap_ok (st_users st) \<and> gmap_ok (st_sessions st) \<and> gmap_ok (st_clients st) \<and>
    gmap_ok (st_sidRP st) \<and> gball (\<lambda>_ m. gmap_ok m) (st_sidRP st) \<and>
    gmap_ok (st_orgs st) \<and> gmap_ok (st_orgMembers st) \<and> gball (\<lambda>_ m. gmap_ok m) (st_orgMembers st) \<and>
    gball (user_row_ok (st_byEmail st)) (st_users st) \<and>
    gball (email_row_ok (st_users st)) (st_byEmail st) \<and>
    gball (\<lambda>h x. sTokenHash x = h) (st_sessions st) \<and>
    gball (\<lambda>i c. cID c = i) (st_clients st) \<and>
    gball (\<lambda>i org. oID org = i) (st_orgs st) \<and>
    gball (\<lambda>i ms. gball (\<lambda>u m. mOrgID m = i \<and> mUserID m = u) ms) (st_orgMembers st)"

definition sidRP_view :: "unit gomap gomap \<Rightarrow> string \<Rightarrow> string set" where
  "sidRP_view m sid = (case gget m sid of None \<Rightarrow> {} | Some inner \<Rightarrow> set (gkeys inner))"

definition consents_view :: "consent gomap \<Rightarrow> string \<Rightarrow> string \<rightharpoonup> consent" where
  "consents_view m u c = (if CHR ''|'' \<in> set u then None else gget m (u @ ''|'' @ c))"

definition members_view :: "membership gomap gomap \<Rightarrow> string \<Rightarrow> string \<rightharpoonup> membership" where
  "members_view m i u = (case gget m i of None \<Rightarrow> None | Some ms \<Rightarrow> gget ms u)"

definition mem_abs :: "store \<Rightarrow> astore" where
  "mem_abs st = \<lparr>
     av_users = map_of (st_users st),
     av_sessions = map_of (st_sessions st),
     av_sidRP = sidRP_view (st_sidRP st),
     av_clients = map_of (st_clients st),
     av_codes = map_of (st_codes st),
     av_refresh = map_of (st_refresh st),
     av_access = map_of (st_access st),
     av_consents = consents_view (st_consent st),
     av_audits = st_audits st,
     av_orgs = map_of (st_orgs st),
     av_members = members_view (st_orgMembers st)\<rparr>"

lemma mem_inv_NewStore: "mem_inv NewStore"
  by (simp add: mem_inv_def NewStore_def)

lemmas mem_ops [store_ops] =
  mem_Create_def mem_GetByEmail_def mem_GetByID_def mem_SetUserDisabled_def
  mem_PutSession_def mem_GetSession_def mem_DeleteSession_def mem_AddSessionClient_def
  mem_CreateClient_def mem_GetClient_def mem_UpdateClient_def mem_SetClientSecret_def
  mem_PutCode_def mem_TakeCode_def mem_PutRefresh_def mem_GetRefresh_def mem_TakeRefresh_def
  mem_RevokeFamily_def mem_PutAccess_def mem_GetAccess_def mem_PutConsent_def mem_GetConsent_def
  mem_AppendAudit_def mem_CreateOrganization_def mem_GetOrganization_def
  mem_AddOrganizationMember_def mem_GetOrganizationMembership_def
  mem_UpdateOrganizationMemberRole_def mem_RemoveOrganizationMember_def
  mem_SetSessionActiveOrg_def

text \<open>The methods of the interface record are the store's.\<close>

lemma mem_repos_sel [simp]:
  "Create (Users (mem_repos it)) = mem_Create"
  "GetByEmail (Users (mem_repos it)) = mem_GetByEmail"
  "GetByID (Users (mem_repos it)) = mem_GetByID"
  "ListUsers (Users (mem_repos it)) = mem_ListUsers it"
  "SetUserDisabled (Users (mem_repos it)) = mem_SetUserDisabled"
  "PutSession (Sessions (mem_repos it)) = mem_PutSession"
  "GetSession (Sessions (mem_repos it)) = mem_GetSession"
  "GetSessionBySID (Sessions (mem_repos it)) = mem_GetSessionBySID it"
  "DeleteSession (Sessions (mem_repos it)) = mem_DeleteSession"
  "AddSessionClient (Sessions (mem_repos it)) = mem_AddSessionClient"
  "ListSessionClients (Sessions (mem_repos it)) = mem_ListSessionClients it"
  "CreateClient (Clients (mem_repos it)) = mem_CreateClient"
  "GetClient (Clients (mem_repos it)) = mem_GetClient"
  "ListClients (Clients (mem_repos it)) = mem_ListClients it"
  "UpdateClient (Clients (mem_repos it)) = mem_UpdateClient"
  "SetClientSecret (Clients (mem_repos it)) = mem_SetClientSecret"
  "PutCode (AuthCodes (mem_repos it)) = mem_PutCode"
  "TakeCode (AuthCodes (mem_repos it)) = mem_TakeCode"
  "PutRefresh (RefreshTokens (mem_repos it)) = mem_PutRefresh"
  "GetRefresh (RefreshTokens (mem_repos it)) = mem_GetRefresh"
  "TakeRefresh (RefreshTokens (mem_repos it)) = mem_TakeRefresh"
  "RevokeFamily (RefreshTokens (mem_repos it)) = mem_RevokeFamily"
  "PutAccess (AccessTokens (mem_repos it)) = mem_PutAccess"
  "GetAccess (AccessTokens (mem_repos it)) = mem_GetAccess"
  "PutConsent (Consents (mem_repos it)) = mem_PutConsent"
  "GetConsent (Consents (mem_repos it)) = mem_GetConsent"
  "AppendAudit (Audits (mem_repos it)) = mem_AppendAudit"
  "ListAudits (Audits (mem_repos it)) = mem_ListAudits"
  "CreateOrganization (Organizations (mem_repos it)) = mem_CreateOrganization"
  "GetOrganization (Organizations (mem_repos it)) = mem_GetOrganization"
  "ListOrganizations (Organizations (mem_repos it)) = mem_ListOrganizations it"
  "ListOrganizationsForUser (Organizations (mem_repos it)) = mem_ListOrganizationsForUser it"
  "AddOrganizationMember (Organizations (mem_repos it)) = mem_AddOrganizationMember"
  "ListOrganizationMembers (Organizations (mem_repos it)) = mem_ListOrganizationMembers it"
  "GetOrganizationMembership (Organizations (mem_repos it)) = mem_GetOrganizationMembership"
  "UpdateOrganizationMemberRole (Organizations (mem_repos it)) = mem_UpdateOrganizationMemberRole"
  "RemoveOrganizationMember (Organizations (mem_repos it)) = mem_RemoveOrganizationMember"
  "SetSessionActiveOrg (Organizations (mem_repos it)) = mem_SetSessionActiveOrg"
  "SetSessionActiveOrgBySID (Organizations (mem_repos it)) = mem_SetSessionActiveOrgBySID it"
  by (simp_all add: mem_repos_def)

end
