(* ===== verification/MemRepos.thy ===== *)
theory MemRepos
  imports MemStore
begin

section \<open>The memory store satisfies the contracts\<close>

text \<open>
  Every locale of \<open>Repos\<close>, interpreted on the memory store, for every iteration order of its
  maps: \<open>mem_abs\<close> is the meaning of a store and \<open>mem_inv\<close> its representation invariant.
\<close>

lemma mem_invD:
  assumes "mem_inv st"
  shows "gmap_ok (st_users st)" "gmap_ok (st_sessions st)" "gmap_ok (st_clients st)"
    "gmap_ok (st_sidRP st)" "gball (\<lambda>_ m. gmap_ok m) (st_sidRP st)"
    "gmap_ok (st_orgs st)" "gmap_ok (st_orgMembers st)" "gball (\<lambda>_ m. gmap_ok m) (st_orgMembers st)"
    "gball (user_row_ok (st_byEmail st)) (st_users st)"
    "gball (email_row_ok (st_users st)) (st_byEmail st)"
    "gball (\<lambda>h x. sTokenHash x = h) (st_sessions st)"
    "gball (\<lambda>i c. cID c = i) (st_clients st)"
    "gball (\<lambda>i org. oID org = i) (st_orgs st)"
    "gball (\<lambda>i ms. gball (\<lambda>u m. mOrgID m = i \<and> mUserID m = u) ms) (st_orgMembers st)"
  using assms by (simp_all add: mem_inv_def)

lemma mem_user_row: "mem_inv st \<Longrightarrow> gget (st_users st) i = Some u \<Longrightarrow> user_row_ok (st_byEmail st) i u"
  by (rule gballD [OF mem_invD(9)])

lemma mem_email_row: "mem_inv st \<Longrightarrow> gget (st_byEmail st) e = Some i \<Longrightarrow>
    \<exists>u. gget (st_users st) i = Some u \<and> uEmail u = e"
  using gballD [OF mem_invD(10)] by (fastforce simp: email_row_ok_def split: option.splits)

lemma mem_Create_inv:
  assumes inv: "mem_inv st" and new: "gget (st_users st) (uID u) = None"
    and email: "gget (st_byEmail st) (ToLower (uEmail u)) = None"
  shows "mem_inv (snd (mem_Create u st))"
proof -
  let ?e = "ToLower (uEmail u)"
  have rows: "gball (user_row_ok (gput ?e (uID u) (st_byEmail st))) (st_users st)"
    using mem_invD(9) [OF inv] by (rule gball_mono) (use email in \<open>auto simp: user_row_ok_def\<close>)
  have emails: "gball (email_row_ok (gput (uID u) (u\<lparr>uEmail := ?e\<rparr>) (st_users st))) (st_byEmail st)"
    using mem_invD(10) [OF inv]
    by (rule gball_mono) (use new in \<open>auto simp: email_row_ok_def split: option.splits\<close>)
  show ?thesis
    using inv rows emails email
    by (simp add: mem_Create_def mem_inv_def user_row_ok_def email_row_ok_def Let_def)
qed

lemma mem_GetByEmail_iff:
  assumes inv: "mem_inv st"
  shows "GetByEmail (Users (mem_repos it)) e st = Inr u \<longleftrightarrow>
    av_users (mem_abs st) (uID u) = Some u \<and> uEmail u = ToLower e"
proof (cases "gget (st_byEmail st) (ToLower e)")
  case None
  have "uEmail u \<noteq> ToLower e" if "gget (st_users st) (uID u) = Some u"
    using mem_user_row [OF inv that] None by (auto simp: user_row_ok_def)
  with None show ?thesis by (auto simp: mem_abs_def mem_GetByEmail_def)
next
  case (Some i)
  then obtain v where v: "gget (st_users st) i = Some v" "uEmail v = ToLower e"
    using mem_email_row [OF inv] by blast
  have i: "uID v = i" using mem_user_row [OF inv v(1)] by (simp add: user_row_ok_def)
  have "u = v" if "gget (st_users st) (uID u) = Some u" "uEmail u = ToLower e"
    using mem_user_row [OF inv that(1)] that(2) Some that(1) v(1) by (simp add: user_row_ok_def)
  with Some v i show ?thesis by (auto simp: mem_abs_def mem_GetByEmail_def)
qed

lemma mem_list_users:
  assumes inv: "mem_inv st"
  shows "\<exists>us. mem_ListUsers it st = Inr us \<and> set us = ran (av_users (mem_abs st)) \<and>
    sorted (map uEmail us) \<and> distinct (map uEmail us)"
proof -
  let ?us = "range_vals it (st_users st)"
  have "x = y" if xy: "x \<in> set ?us" "y \<in> set ?us" "uEmail x = uEmail y" for x y
  proof -
    obtain i j where ij: "gget (st_users st) i = Some x" "gget (st_users st) j = Some y"
      using xy(1,2) by (auto simp: set_range_vals mem_invD(1) [OF inv] ran_def)
    then have "gget (st_byEmail st) (uEmail x) = Some i" "gget (st_byEmail st) (uEmail y) = Some j"
      using mem_user_row [OF inv] by (auto simp: user_row_ok_def)
    then have "i = j" unfolding xy(3) by simp
    with ij show ?thesis by simp
  qed
  then have "inj_on uEmail (set ?us)" by (rule inj_onI)
  moreover have "gball (\<lambda>i u. uID u = i) (st_users st)"
    using mem_invD(9) [OF inv] by (rule gball_mono) (simp add: user_row_ok_def)
  then have "distinct ?us"
    using distinct_range_vals [OF mem_invD(1) [OF inv], of uID] by (auto simp: distinct_map)
  ultimately show ?thesis
    using mem_invD(1) [OF inv]
    by (simp add: mem_ListUsers_def mem_abs_def set_range_vals distinct_map)
qed

interpretation mem_users: users_repo "Users (mem_repos it)" mem_abs mem_inv for it
proof unfold_locales
  fix st :: store and i :: string and u v :: user and e :: string and b :: bool and x :: derr
  show "GetByID (Users (mem_repos it)) i st = found (av_users (mem_abs st) i)"
    by (simp add: mem_abs_def mem_GetByID_def)
  show "SetUserDisabled (Users (mem_repos it)) i b st = (Inl ErrNotFound, st)"
    if "av_users (mem_abs st) i = None"
    using that by (simp add: mem_abs_def mem_SetUserDisabled_def)
  assume inv: "mem_inv st"
  show "uID u = i" and "ToLower (uEmail u) = uEmail u" if "av_users (mem_abs st) i = Some u"
    using mem_user_row [OF inv] that by (auto simp: mem_abs_def user_row_ok_def)
  show "(GetByEmail (Users (mem_repos it)) e st = Inr u) =
      (av_users (mem_abs st) (uID u) = Some u \<and> uEmail u = ToLower e)"
    by (rule mem_GetByEmail_iff [OF inv])
  show "x = ErrNotFound" if "GetByEmail (Users (mem_repos it)) e st = Inl x"
    using that by (auto simp: mem_GetByEmail_def split: option.splits)
  show "\<exists>us. ListUsers (Users (mem_repos it)) st = Inr us \<and>
      set us = ran (av_users (mem_abs st)) \<and> sorted (map uEmail us) \<and> distinct (map uEmail us)"
    using mem_list_users [OF inv] by simp
  show "Create (Users (mem_repos it)) u st = (Inl ErrConflict, st)"
    if "av_users (mem_abs st) i = Some v" "uEmail v = ToLower (uEmail u)"
    using mem_user_row [OF inv, of i v] that by (simp add: mem_abs_def mem_Create_def user_row_ok_def Let_def)
  show "fst (Create (Users (mem_repos it)) u st) = Inr () \<and>
      mem_inv (snd (Create (Users (mem_repos it)) u st)) \<and>
      mem_abs (snd (Create (Users (mem_repos it)) u st)) =
        (mem_abs st)\<lparr>av_users := (av_users (mem_abs st))(uID u \<mapsto> u\<lparr>uEmail := ToLower (uEmail u)\<rparr>)\<rparr>"
    if new: "av_users (mem_abs st) (uID u) = None"
      and free: "\<And>i v. av_users (mem_abs st) i = Some v \<Longrightarrow> uEmail v \<noteq> ToLower (uEmail u)"
  proof -
    have no: "gget (st_byEmail st) (ToLower (uEmail u)) = None"
      using mem_email_row [OF inv, of "ToLower (uEmail u)"] free
      by (cases "gget (st_byEmail st) (ToLower (uEmail u))") (auto simp: mem_abs_def)
    moreover have "mem_inv (snd (mem_Create u st))"
      using mem_Create_inv [OF inv _ no] new by (simp add: mem_abs_def)
    ultimately show ?thesis by (simp add: mem_Create_def mem_abs_def AList.update_conv' Let_def)
  qed
  show "fst (SetUserDisabled (Users (mem_repos it)) i b st) = Inr () \<and>
      mem_inv (snd (SetUserDisabled (Users (mem_repos it)) i b st)) \<and>
      mem_abs (snd (SetUserDisabled (Users (mem_repos it)) i b st)) =
        (mem_abs st)\<lparr>av_users := (av_users (mem_abs st))(i \<mapsto> u\<lparr>uDisabled := b\<rparr>)\<rparr>"
    if u: "av_users (mem_abs st) i = Some u"
  proof -
    have g: "gget (st_users st) i = Some u" using u by (simp add: mem_abs_def)
    have row: "user_row_ok (st_byEmail st) i (u\<lparr>uDisabled := b\<rparr>)"
      using mem_user_row [OF inv g] by (simp add: user_row_ok_def)
    have "gball (email_row_ok (gput i (u\<lparr>uDisabled := b\<rparr>) (st_users st))) (st_byEmail st)"
      using mem_invD(10) [OF inv] by (rule gball_mono) (use g in \<open>auto simp: email_row_ok_def\<close>)
    with row inv g show ?thesis
      by (simp add: mem_SetUserDisabled_def mem_abs_def mem_inv_def AList.update_conv')
  qed
qed

lemma mem_session_key: "mem_inv st \<Longrightarrow> gget (st_sessions st) h = Some x \<Longrightarrow> sTokenHash x = h"
  by (rule gballD [OF mem_invD(11)])

lemma set_session_vals:
  "mem_inv st \<Longrightarrow> x \<in> set (range_vals it (st_sessions st)) \<longleftrightarrow> gget (st_sessions st) (sTokenHash x) = Some x"
  using mem_session_key by (auto simp: set_range_vals mem_invD(2) ran_def)

lemma mem_AddSessionClient_ok:
  assumes inv: "mem_inv st" and ids: "sid \<noteq> []" "c \<noteq> []"
  shows "mem_inv (snd (mem_AddSessionClient sid c st))"
    and "mem_abs (snd (mem_AddSessionClient sid c st)) =
      (mem_abs st)\<lparr>av_sidRP := (av_sidRP (mem_abs st))(sid := insert c (av_sidRP (mem_abs st) sid))\<rparr>"
proof -
  let ?m = "case gget (st_sidRP st) sid of None \<Rightarrow> [] | Some m \<Rightarrow> m"
  have "gmap_ok ?m"
    using gballD [OF mem_invD(5) [OF inv]] by (auto split: option.splits)
  then have "gmap_ok (gput c () ?m)" by simp
  with inv ids show "mem_inv (snd (mem_AddSessionClient sid c st))"
    by (simp add: mem_AddSessionClient_def mem_inv_def Let_def)
  have "set (gkeys (gput c () ?m)) = insert c (set (gkeys ?m))"
    by (simp add: AList.dom_update)
  with ids show "mem_abs (snd (mem_AddSessionClient sid c st)) =
      (mem_abs st)\<lparr>av_sidRP := (av_sidRP (mem_abs st))(sid := insert c (av_sidRP (mem_abs st) sid))\<rparr>"
    by (auto simp: mem_AddSessionClient_def mem_abs_def Let_def sidRP_view_def fun_eq_iff split: option.splits)
qed

lemma mem_DeleteSession_ok:
  assumes inv: "mem_inv st"
  shows "mem_inv (snd (mem_DeleteSession h st))"
    and "mem_abs (snd (mem_DeleteSession h st)) =
      (mem_abs st)\<lparr>av_sessions := (av_sessions (mem_abs st))(h := None),
        av_sidRP := (case av_sessions (mem_abs st) h of
           Some x \<Rightarrow> if sSID x = [] then av_sidRP (mem_abs st) else (av_sidRP (mem_abs st))(sSID x := {})
         | None \<Rightarrow> av_sidRP (mem_abs st))\<rparr>"
proof -
  show "mem_inv (snd (mem_DeleteSession h st))"
    using inv by (cases "gget (st_sessions st) h") (auto simp: mem_DeleteSession_def mem_inv_def Let_def)
  show "mem_abs (snd (mem_DeleteSession h st)) =
      (mem_abs st)\<lparr>av_sessions := (av_sessions (mem_abs st))(h := None),
        av_sidRP := (case av_sessions (mem_abs st) h of
           Some x \<Rightarrow> if sSID x = [] then av_sidRP (mem_abs st) else (av_sidRP (mem_abs st))(sSID x := {})
         | None \<Rightarrow> av_sidRP (mem_abs st))\<rparr>"
    by (cases "gget (st_sessions st) h")
      (auto simp: mem_DeleteSession_def mem_abs_def Let_def AList.delete_conv' sidRP_view_def fun_eq_iff)
qed

interpretation mem_sessions: sessions_repo "Sessions (mem_repos it)" mem_abs mem_inv for it
proof unfold_locales
  fix st :: store and h sid c :: string and x :: session and e :: derr
  show "GetSession (Sessions (mem_repos it)) h st = found (av_sessions (mem_abs st) h)"
    by (simp add: mem_abs_def mem_GetSession_def)
  assume inv: "mem_inv st"
  show "sTokenHash x = h" if "av_sessions (mem_abs st) h = Some x"
    using mem_session_key [OF inv] that by (simp add: mem_abs_def)
  show "fst (PutSession (Sessions (mem_repos it)) x st) = Inr () \<and>
      mem_inv (snd (PutSession (Sessions (mem_repos it)) x st)) \<and>
      mem_abs (snd (PutSession (Sessions (mem_repos it)) x st)) =
        (mem_abs st)\<lparr>av_sessions := (av_sessions (mem_abs st))(sTokenHash x \<mapsto> x)\<rparr>"
    using inv by (simp add: mem_PutSession_def mem_abs_def mem_inv_def AList.update_conv')
  show "mem_inv (snd (PutSession (Sessions (mem_repos it)) x st)) \<and>
      (mem_abs (snd (PutSession (Sessions (mem_repos it)) x st)))\<lparr>av_sessions := av_sessions (mem_abs st)\<rparr> = mem_abs st \<and>
      (\<forall>h. h \<noteq> sTokenHash x \<longrightarrow>
        av_sessions (mem_abs (snd (PutSession (Sessions (mem_repos it)) x st))) h = av_sessions (mem_abs st) h)"
    using inv by (simp add: mem_PutSession_def mem_abs_def mem_inv_def)
  show "av_sessions (mem_abs st) (sTokenHash x) = Some x \<and> sSID x = sid"
    if "GetSessionBySID (Sessions (mem_repos it)) sid st = Inr x"
    using that set_session_vals [OF inv, of x it]
    by (auto simp: mem_GetSessionBySID_def mem_abs_def find_Some_iff)
  show "e = ErrNotFound \<and> (\<forall>h x. av_sessions (mem_abs st) h = Some x \<longrightarrow> sSID x \<noteq> sid)"
    if "GetSessionBySID (Sessions (mem_repos it)) sid st = Inl e"
    using that set_session_vals [OF inv, of _ it] mem_session_key [OF inv]
    by (auto simp: mem_GetSessionBySID_def mem_abs_def find_None_iff)
  show "fst (DeleteSession (Sessions (mem_repos it)) h st) = Inr () \<and>
      mem_inv (snd (DeleteSession (Sessions (mem_repos it)) h st)) \<and>
      mem_abs (snd (DeleteSession (Sessions (mem_repos it)) h st)) =
        (mem_abs st)\<lparr>av_sessions := (av_sessions (mem_abs st))(h := None),
          av_sidRP := (case av_sessions (mem_abs st) h of
             Some x \<Rightarrow> if sSID x = [] then av_sidRP (mem_abs st) else (av_sidRP (mem_abs st))(sSID x := {})
           | None \<Rightarrow> av_sidRP (mem_abs st))\<rparr>"
    using mem_DeleteSession_ok [OF inv, of h] by (simp add: mem_DeleteSession_def Let_def)
  show "fst (AddSessionClient (Sessions (mem_repos it)) sid c st) = Inr () \<and>
      mem_inv (snd (AddSessionClient (Sessions (mem_repos it)) sid c st)) \<and>
      mem_abs (snd (AddSessionClient (Sessions (mem_repos it)) sid c st)) =
        (if sid = [] \<or> c = [] then mem_abs st
         else (mem_abs st)\<lparr>av_sidRP := (av_sidRP (mem_abs st))(sid := insert c (av_sidRP (mem_abs st) sid))\<rparr>)"
    using inv mem_AddSessionClient_ok [OF inv, of sid c]
    by (cases "sid = [] \<or> c = []") (auto simp: mem_AddSessionClient_def Let_def)
  show "\<exists>cs. ListSessionClients (Sessions (mem_repos it)) sid st = Inr cs \<and>
      set cs = av_sidRP (mem_abs st) sid \<and> sorted cs \<and> distinct cs"
    using gballD [OF mem_invD(5) [OF inv], of sid]
    by (auto simp: mem_ListSessionClients_def mem_abs_def Let_def sidRP_view_def set_range_map
        distinct_range_map split: option.splits)
qed

lemma mem_client_key: "mem_inv st \<Longrightarrow> gget (st_clients st) i = Some c \<Longrightarrow> cID c = i"
  by (rule gballD [OF mem_invD(12)])

interpretation mem_clients: clients_repo "Clients (mem_repos it)" mem_abs mem_inv for it
proof unfold_locales
  fix st :: store and i x :: string and c d :: client and p :: client_patch
  show "GetClient (Clients (mem_repos it)) i st = found (av_clients (mem_abs st) i)"
    by (simp add: mem_abs_def mem_GetClient_def)
  show "CreateClient (Clients (mem_repos it)) c st = (Inl ErrConflict, st)"
    if "av_clients (mem_abs st) (cID c) = Some d"
    using that by (simp add: mem_abs_def mem_CreateClient_def)
  show "UpdateClient (Clients (mem_repos it)) i p st = (Inl ErrNotFound, st)"
    and "SetClientSecret (Clients (mem_repos it)) i x st = (Inl ErrNotFound, st)"
    if "av_clients (mem_abs st) i = None"
    using that by (simp_all add: mem_abs_def mem_UpdateClient_def mem_SetClientSecret_def)
  assume inv: "mem_inv st"
  show key: "cID c = i" if "av_clients (mem_abs st) i = Some c" for i c
    using mem_client_key [OF inv] that by (simp add: mem_abs_def)
  show "fst (CreateClient (Clients (mem_repos it)) c st) = Inr () \<and>
      mem_inv (snd (CreateClient (Clients (mem_repos it)) c st)) \<and>
      mem_abs (snd (CreateClient (Clients (mem_repos it)) c st)) =
        (mem_abs st)\<lparr>av_clients := (av_clients (mem_abs st))(cID c \<mapsto> c)\<rparr>"
    if "av_clients (mem_abs st) (cID c) = None"
    using that inv by (simp add: mem_CreateClient_def mem_abs_def mem_inv_def AList.update_conv')
  show "\<exists>cs. ListClients (Clients (mem_repos it)) st = Inr cs \<and>
      set cs = ran (av_clients (mem_abs st)) \<and> sorted (map cID cs) \<and> distinct (map cID cs)"
    using mem_invD(3,12) [OF inv]
    by (simp add: mem_ListClients_def mem_abs_def set_range_vals distinct_range_vals)
  show "fst (UpdateClient (Clients (mem_repos it)) i p st) = Inr () \<and>
      mem_inv (snd (UpdateClient (Clients (mem_repos it)) i p st)) \<and>
      mem_abs (snd (UpdateClient (Clients (mem_repos it)) i p st)) =
        (mem_abs st)\<lparr>av_clients := (av_clients (mem_abs st))(i \<mapsto>
          c\<lparr>cName := pName p, cRedirectURIs := pRedirectURIs p,
            cPostLogoutRedirectURIs := pPostLogoutRedirectURIs p,
            cFrontChannelLogoutURI := pFrontChannelLogoutURI p,
            cBackChannelLogoutURI := pBackChannelLogoutURI p\<rparr>)\<rparr>"
    if "av_clients (mem_abs st) i = Some c"
    using that inv key [OF that] by (simp add: mem_UpdateClient_def mem_abs_def mem_inv_def AList.update_conv')
  show "fst (SetClientSecret (Clients (mem_repos it)) i x st) = Inr () \<and>
      mem_inv (snd (SetClientSecret (Clients (mem_repos it)) i x st)) \<and>
      mem_abs (snd (SetClientSecret (Clients (mem_repos it)) i x st)) =
        (mem_abs st)\<lparr>av_clients := (av_clients (mem_abs st))(i \<mapsto> c\<lparr>cSecretHash := x\<rparr>)\<rparr>"
    if "av_clients (mem_abs st) i = Some c"
    using that inv key [OF that] by (simp add: mem_SetClientSecret_def mem_abs_def mem_inv_def AList.update_conv')
qed

interpretation mem_codes: auth_codes_repo "AuthCodes (mem_repos it)" mem_abs mem_inv for it
  by unfold_locales
    (auto simp: mem_PutCode_def mem_TakeCode_def mem_abs_def mem_inv_def AList.update_conv' Let_def)

interpretation mem_refresh: refresh_tokens_repo "RefreshTokens (mem_repos it)" mem_abs mem_inv for it
  by unfold_locales
    (auto simp: mem_PutRefresh_def mem_GetRefresh_def mem_TakeRefresh_def mem_RevokeFamily_def
      mem_abs_def mem_inv_def AList.update_conv' Let_def fun_eq_iff gget_map_values)

interpretation mem_access: access_tokens_repo "AccessTokens (mem_repos it)" mem_abs mem_inv for it
  by unfold_locales (auto simp: mem_PutAccess_def mem_GetAccess_def mem_abs_def mem_inv_def AList.update_conv')

interpretation mem_audits: audits_repo "Audits (mem_repos it)" mem_abs mem_inv for it
  by unfold_locales (auto simp: mem_AppendAudit_def mem_ListAudits_def mem_abs_def mem_inv_def)

text \<open>
  The consent key is \<open>userID|clientID\<close>: it identifies the pair as long as the user identifier
  has no bar, as the generated identifiers have none.
\<close>

lemma consent_key_inj:
  assumes "CHR ''|'' \<notin> set u" and "CHR ''|'' \<notin> set u'" and "u @ ''|'' @ c = u' @ ''|'' @ c'"
  shows "u = u' \<and> c = c'"
proof -
  have "cut_at CHR ''|'' (u @ ''|'' @ c) = Some (u, c)"
    using cut_at_append [OF assms(1), of c] by simp
  moreover have "cut_at CHR ''|'' (u' @ ''|'' @ c') = Some (u', c')"
    using cut_at_append [OF assms(2), of c'] by simp
  ultimately have "Some (u, c) = Some (u', c')" unfolding assms(3) by (rule trans [OF sym])
  then show ?thesis by simp
qed

interpretation mem_consents: consents_repo "Consents (mem_repos it)" mem_abs mem_inv for it
proof unfold_locales
  fix st :: store and g :: consent and u cl :: string
  show "GetConsent (Consents (mem_repos it)) u cl st = found (av_consents (mem_abs st) u cl)"
    if "CHR ''|'' \<notin> set u"
    using that by (simp add: mem_abs_def mem_GetConsent_def consents_view_def)
  assume inv: "mem_inv st"
  show "mem_inv (snd (PutConsent (Consents (mem_repos it)) g st)) \<and>
      (mem_abs (snd (PutConsent (Consents (mem_repos it)) g st)))\<lparr>av_consents := av_consents (mem_abs st)\<rparr> = mem_abs st"
    using inv by (simp add: mem_PutConsent_def mem_abs_def mem_inv_def)
  show "fst (PutConsent (Consents (mem_repos it)) g st) = Inr () \<and>
      mem_inv (snd (PutConsent (Consents (mem_repos it)) g st)) \<and>
      mem_abs (snd (PutConsent (Consents (mem_repos it)) g st)) =
        (mem_abs st)\<lparr>av_consents := (av_consents (mem_abs st))(gUserID g :=
          (av_consents (mem_abs st) (gUserID g))(gClientID g \<mapsto> g))\<rparr>"
    if bar: "CHR ''|'' \<notin> set (gUserID g)"
  proof -
    have "consents_view (gput (gUserID g @ ''|'' @ gClientID g) g m) u c =
      ((consents_view m)(gUserID g := (consents_view m (gUserID g))(gClientID g \<mapsto> g))) u c" for m u c
    proof (cases "CHR ''|'' \<in> set u")
      case True
      then show ?thesis using bar by (auto simp: consents_view_def)
    next
      case False
      then have "u @ ''|'' @ c = gUserID g @ ''|'' @ gClientID g \<longleftrightarrow> u = gUserID g \<and> c = gClientID g"
        using consent_key_inj [OF False bar] by blast
      then show ?thesis using False bar by (simp add: consents_view_def del: append_Cons)
    qed
    then show ?thesis using inv by (simp add: mem_PutConsent_def mem_abs_def mem_inv_def fun_eq_iff)
  qed
qed

subsection \<open>Organizations\<close>

lemma mem_members_ok: "mem_inv st \<Longrightarrow> gget (st_orgMembers st) i = Some ms \<Longrightarrow> gmap_ok ms"
  using gballD [OF mem_invD(8)] by blast

lemma mem_member_rows: "mem_inv st \<Longrightarrow> gget (st_orgMembers st) i = Some ms \<Longrightarrow>
    gball (\<lambda>u m. mOrgID m = i \<and> mUserID m = u) ms"
  using gballD [OF mem_invD(14)] by blast

lemma mem_org_key: "mem_inv st \<Longrightarrow> gget (st_orgs st) i = Some org \<Longrightarrow> oID org = i"
  by (rule gballD [OF mem_invD(13)])

lemma members_view_gput:
  "members_view (gput i ms m) = (members_view m)(i := map_of ms)"
  by (auto simp: members_view_def fun_eq_iff)

lemma members_view_Some: "gget m i = Some ms \<Longrightarrow> members_view m i = map_of ms"
  by (auto simp: members_view_def fun_eq_iff)

lemma members_view_None: "gget m i = None \<Longrightarrow> members_view m i = Map.empty"
  by (auto simp: members_view_def fun_eq_iff)

lemma mem_put_members:
  assumes "mem_inv st" and "gmap_ok ms" and "gball (\<lambda>u m. mOrgID m = i \<and> mUserID m = u) ms"
  shows "mem_inv (st\<lparr>st_orgMembers := gput i ms (st_orgMembers st)\<rparr>)"
    and "mem_abs (st\<lparr>st_orgMembers := gput i ms (st_orgMembers st)\<rparr>) =
      (mem_abs st)\<lparr>av_members := (av_members (mem_abs st))(i := map_of ms)\<rparr>"
  using assms by (simp_all add: mem_inv_def mem_abs_def members_view_gput)

lemma mem_AddOrganizationMember_ok:
  assumes inv: "mem_inv st" and new: "av_members (mem_abs st) (mOrgID m) (mUserID m) = None"
  shows "fst (mem_AddOrganizationMember m st) = Inr () \<and> mem_inv (snd (mem_AddOrganizationMember m st)) \<and>
    mem_abs (snd (mem_AddOrganizationMember m st)) =
      (mem_abs st)\<lparr>av_members := (av_members (mem_abs st))(mOrgID m :=
        (av_members (mem_abs st) (mOrgID m))(mUserID m \<mapsto> m))\<rparr>"
proof (cases "gget (st_orgMembers st) (mOrgID m)")
  case None
  let ?ms = "gput (mUserID m) m []"
  have "mem_AddOrganizationMember m st =
      (Inr (), st\<lparr>st_orgMembers := gput (mOrgID m) ?ms (st_orgMembers st)\<rparr>)"
    using None by (simp add: mem_AddOrganizationMember_def Let_def)
  moreover have "av_members (mem_abs st) (mOrgID m) = Map.empty"
    using None by (simp add: mem_abs_def members_view_None)
  ultimately show ?thesis using mem_put_members [OF inv, of ?ms "mOrgID m"] by (simp add: gball_def)
next
  case (Some ms)
  let ?ms = "gput (mUserID m) m ms"
  have view: "av_members (mem_abs st) (mOrgID m) = map_of ms"
    using Some by (simp add: mem_abs_def members_view_Some)
  with new Some have "mem_AddOrganizationMember m st =
      (Inr (), st\<lparr>st_orgMembers := gput (mOrgID m) ?ms (st_orgMembers st)\<rparr>)"
    by (simp add: mem_AddOrganizationMember_def Let_def)
  moreover have "gmap_ok ?ms" and "gball (\<lambda>u x. mOrgID x = mOrgID m \<and> mUserID x = u) ?ms"
    using mem_members_ok [OF inv Some] mem_member_rows [OF inv Some] by simp_all
  ultimately show ?thesis using mem_put_members [OF inv, of ?ms "mOrgID m"] view
    by (simp add: AList.update_conv')
qed

lemma mem_UpdateRole_ok:
  assumes inv: "mem_inv st" and m: "av_members (mem_abs st) i u = Some m"
  shows "fst (mem_UpdateOrganizationMemberRole i u r st) = Inr () \<and>
    mem_inv (snd (mem_UpdateOrganizationMemberRole i u r st)) \<and>
    mem_abs (snd (mem_UpdateOrganizationMemberRole i u r st)) =
      (mem_abs st)\<lparr>av_members := (av_members (mem_abs st))(i := (av_members (mem_abs st) i)(u \<mapsto> m\<lparr>mRole := r\<rparr>))\<rparr>"
proof -
  from m obtain ms where ms: "gget (st_orgMembers st) i = Some ms" "gget ms u = Some m"
    by (auto simp: mem_abs_def members_view_def split: option.splits)
  let ?ms = "gput u (m\<lparr>mRole := r\<rparr>) ms"
  have "gmap_ok ?ms" and "gball (\<lambda>u x. mOrgID x = i \<and> mUserID x = u) ?ms"
    using mem_members_ok [OF inv ms(1)] mem_member_rows [OF inv ms(1)] gballD [OF mem_member_rows [OF inv ms(1)] ms(2)]
    by simp_all
  then show ?thesis
    using mem_put_members [OF inv, of ?ms i] ms
    by (simp add: mem_UpdateOrganizationMemberRole_def mem_abs_def members_view_Some AList.update_conv')
qed

lemma mem_Remove_ok:
  assumes inv: "mem_inv st" and m: "av_members (mem_abs st) i u = Some m"
  shows "fst (mem_RemoveOrganizationMember i u st) = Inr () \<and>
    mem_inv (snd (mem_RemoveOrganizationMember i u st)) \<and>
    mem_abs (snd (mem_RemoveOrganizationMember i u st)) =
      (mem_abs st)\<lparr>av_members := (av_members (mem_abs st))(i := (av_members (mem_abs st) i)(u := None))\<rparr>"
proof -
  from m obtain ms where ms: "gget (st_orgMembers st) i = Some ms" "gget ms u = Some m"
    by (auto simp: mem_abs_def members_view_def split: option.splits)
  have "gmap_ok (gdel u ms)" and "gball (\<lambda>u x. mOrgID x = i \<and> mUserID x = u) (gdel u ms)"
    using mem_members_ok [OF inv ms(1)] mem_member_rows [OF inv ms(1)] by simp_all
  then show ?thesis
    using mem_put_members [OF inv, of "gdel u ms" i] ms
    by (simp add: mem_RemoveOrganizationMember_def mem_abs_def members_view_Some AList.delete_conv')
qed

lemma mem_members_list:
  assumes inv: "mem_inv st"
  shows "\<exists>ms. mem_ListOrganizationMembers it i st = Inr ms \<and> set ms = ran (av_members (mem_abs st) i) \<and>
    distinct (map mUserID ms) \<and> sorted (map mJoinedAt ms)"
proof (cases "gget (st_orgMembers st) i")
  case None
  then show ?thesis by (simp add: mem_ListOrganizationMembers_def mem_abs_def members_view_None)
next
  case (Some ms)
  have "gball (\<lambda>u m. mUserID m = u) ms"
    using mem_member_rows [OF inv Some] by (rule gball_mono) simp
  then show ?thesis using Some mem_members_ok [OF inv Some]
    by (simp add: mem_ListOrganizationMembers_def mem_abs_def members_view_Some set_range_vals distinct_range_vals)
qed

lemma mem_orgs_for_user:
  assumes inv: "mem_inv st"
  shows "\<exists>os. mem_ListOrganizationsForUser it u st = Inr os \<and>
    set os = {org. \<exists>i. av_members (mem_abs st) i u \<noteq> None \<and> av_orgs (mem_abs st) i = Some org} \<and>
    distinct (map oID os) \<and> sorted (map oCreatedAt os)"
proof -
  let ?f = "\<lambda>(orgID, members). if gget members u \<noteq> None then gget (st_orgs st) orgID else None"
  let ?ps = "range_map it (st_orgMembers st)"
  have key: "?f p = Some org \<Longrightarrow> oID org = fst p" for p org
    using mem_org_key [OF inv] by (auto split: if_splits prod.splits)
  have ids: "map oID (List.map_filter ?f ps) = map fst (filter (\<lambda>p. ?f p \<noteq> None) ps)" for ps
    using key by (induction ps) (auto split: option.splits)
  have "distinct (map oID (List.map_filter ?f ?ps))"
    unfolding ids using distinct_range_map [OF mem_invD(7) [OF inv], of it] by (simp add: distinct_map_filter)
  moreover have "set (List.map_filter ?f ?ps) = {org. \<exists>i ms. gget (st_orgMembers st) i = Some ms \<and>
      gget ms u \<noteq> None \<and> gget (st_orgs st) i = Some org}"
    by (rule set_eqI, simp add: in_set_map_filter set_range_map bex_gomap mem_invD(7) [OF inv]) blast
  moreover have "\<dots> = {org. \<exists>i. av_members (mem_abs st) i u \<noteq> None \<and> av_orgs (mem_abs st) i = Some org}"
    by (fastforce simp: mem_abs_def members_view_def split: option.splits)
  ultimately show ?thesis by (simp add: mem_ListOrganizationsForUser_def)
qed

lemma mem_SetActiveBySID_frame:
  assumes inv: "mem_inv st"
  shows "mem_inv (snd (mem_SetSessionActiveOrgBySID it sid i st)) \<and>
    (mem_abs (snd (mem_SetSessionActiveOrgBySID it sid i st)))\<lparr>av_sessions := av_sessions (mem_abs st)\<rparr> = mem_abs st \<and>
    (\<forall>h. map_option (sActiveOrgID_update (\<lambda>_. []))
        (av_sessions (mem_abs (snd (mem_SetSessionActiveOrgBySID it sid i st))) h) =
      map_option (sActiveOrgID_update (\<lambda>_. [])) (av_sessions (mem_abs st) h))"
proof (cases "sid = [] \<or> find (\<lambda>(hash, sess). sSID sess = sid) (range_map it (st_sessions st)) = None")
  case True
  with inv show ?thesis by (auto simp: mem_SetSessionActiveOrgBySID_def)
next
  case False
  then obtain k y where ky: "find (\<lambda>(hash, sess). sSID sess = sid) (range_map it (st_sessions st)) = Some (k, y)"
    by auto
  then have "(k, y) \<in> set (st_sessions st)"
    using set_range_map [OF mem_invD(2) [OF inv]] by (auto dest: find_SomeD)
  then have row: "gget (st_sessions st) k = Some y" by (simp add: gget_in_set [OF mem_invD(2) [OF inv]])
  with mem_session_key [OF inv this] ky False inv show ?thesis
    by (auto simp: mem_SetSessionActiveOrgBySID_def mem_abs_def mem_inv_def AList.update_conv')
qed

interpretation mem_organizations: organizations_repo "Organizations (mem_repos it)" mem_abs mem_inv for it
proof unfold_locales
  fix st :: store and org :: organization and i u h sid :: string and m m' :: membership and r :: org_role and x :: session
  show "GetOrganization (Organizations (mem_repos it)) i st = found (av_orgs (mem_abs st) i)"
    by (simp add: mem_GetOrganization_def mem_abs_def)
  show "GetOrganizationMembership (Organizations (mem_repos it)) i u st = found (av_members (mem_abs st) i u)"
    by (simp add: mem_GetOrganizationMembership_def mem_abs_def members_view_def split: option.splits)
  show "UpdateOrganizationMemberRole (Organizations (mem_repos it)) i u r st = (Inl ErrNotFound, st)"
    and "RemoveOrganizationMember (Organizations (mem_repos it)) i u st = (Inl ErrNotFound, st)"
    if "av_members (mem_abs st) i u = None"
    using that by (auto simp: mem_UpdateOrganizationMemberRole_def mem_RemoveOrganizationMember_def
        mem_abs_def members_view_def split: option.splits)
  show "SetSessionActiveOrg (Organizations (mem_repos it)) h i st = (Inl ErrNotFound, st)"
    if "av_sessions (mem_abs st) h = None"
    using that by (simp add: mem_SetSessionActiveOrg_def mem_abs_def)
  show "SetSessionActiveOrgBySID (Organizations (mem_repos it)) [] i st = (Inl ErrInvalid, st)"
    by (simp add: mem_SetSessionActiveOrgBySID_def)
  assume inv: "mem_inv st"
  show "SetSessionActiveOrgBySID (Organizations (mem_repos it)) sid i st = (Inl ErrNotFound, st)"
    if "TrimSpace sid \<noteq> []" "\<And>k y. av_sessions (mem_abs st) k = Some y \<Longrightarrow> sSID y \<noteq> sid"
  proof -
    have "find (\<lambda>(hash, sess). sSID sess = sid) (range_map it (st_sessions st)) = None"
      using that(2) set_range_map [OF mem_invD(2) [OF inv], of it]
      by (auto simp: find_None_iff mem_abs_def gget_in_set [OF mem_invD(2) [OF inv]])
    moreover have "sid \<noteq> []" using that(1) by auto
    ultimately show ?thesis by (simp add: mem_SetSessionActiveOrgBySID_def)
  qed
  show "fst (AddOrganizationMember (Organizations (mem_repos it)) m st) = Inl ErrConflict \<and>
      mem_inv (snd (AddOrganizationMember (Organizations (mem_repos it)) m st)) \<and>
      mem_abs (snd (AddOrganizationMember (Organizations (mem_repos it)) m st)) = mem_abs st"
    if "av_members (mem_abs st) (mOrgID m) (mUserID m) = Some m'"
    using that inv by (auto simp: mem_AddOrganizationMember_def mem_abs_def members_view_def Let_def split: option.splits)
  show "oID org = i" if "av_orgs (mem_abs st) i = Some org"
    using mem_org_key [OF inv] that by (simp add: mem_abs_def)
  show "mOrgID m = i \<and> mUserID m = u" if "av_members (mem_abs st) i u = Some m"
    using gballD [OF mem_member_rows [OF inv]] that by (auto simp: mem_abs_def members_view_def split: option.splits)
  show "fst (CreateOrganization (Organizations (mem_repos it)) org st) = Inr () \<and>
      mem_inv (snd (CreateOrganization (Organizations (mem_repos it)) org st)) \<and>
      mem_abs (snd (CreateOrganization (Organizations (mem_repos it)) org st)) =
        (mem_abs st)\<lparr>av_orgs := (av_orgs (mem_abs st))(oID org \<mapsto> org)\<rparr>"
    using inv by (simp add: mem_CreateOrganization_def mem_abs_def mem_inv_def AList.update_conv')
  show "\<exists>os. ListOrganizations (Organizations (mem_repos it)) st = Inr os \<and>
      set os = ran (av_orgs (mem_abs st)) \<and> distinct (map oID os) \<and> sorted (map oCreatedAt os)"
    using mem_invD(6,13) [OF inv]
    by (simp add: mem_ListOrganizations_def mem_abs_def set_range_vals distinct_range_vals)
  show "\<exists>os. ListOrganizationsForUser (Organizations (mem_repos it)) u st = Inr os \<and>
      set os = {org. \<exists>i. av_members (mem_abs st) i u \<noteq> None \<and> av_orgs (mem_abs st) i = Some org} \<and>
      distinct (map oID os) \<and> sorted (map oCreatedAt os)"
    using mem_orgs_for_user [OF inv] by simp
  show "\<exists>ms. ListOrganizationMembers (Organizations (mem_repos it)) i st = Inr ms \<and>
      set ms = ran (av_members (mem_abs st) i) \<and> distinct (map mUserID ms) \<and> sorted (map mJoinedAt ms)"
    using mem_members_list [OF inv] by simp
  show "fst (AddOrganizationMember (Organizations (mem_repos it)) m st) = Inr () \<and>
      mem_inv (snd (AddOrganizationMember (Organizations (mem_repos it)) m st)) \<and>
      mem_abs (snd (AddOrganizationMember (Organizations (mem_repos it)) m st)) =
        (mem_abs st)\<lparr>av_members := (av_members (mem_abs st))(mOrgID m :=
          (av_members (mem_abs st) (mOrgID m))(mUserID m \<mapsto> m))\<rparr>"
    if "av_members (mem_abs st) (mOrgID m) (mUserID m) = None"
    using mem_AddOrganizationMember_ok [OF inv that] by simp
  show "fst (UpdateOrganizationMemberRole (Organizations (mem_repos it)) i u r st) = Inr () \<and>
      mem_inv (snd (UpdateOrganizationMemberRole (Organizations (mem_repos it)) i u r st)) \<and>
      mem_abs (snd (UpdateOrganizationMemberRole (Organizations (mem_repos it)) i u r st)) =
        (mem_abs st)\<lparr>av_members := (av_members (mem_abs st))(i := (av_members (mem_abs st) i)(u \<mapsto> m\<lparr>mRole := r\<rparr>))\<rparr>"
    and "fst (RemoveOrganizationMember (Organizations (mem_repos it)) i u st) = Inr () \<and>
      mem_inv (snd (RemoveOrganizationMember (Organizations (mem_repos it)) i u st)) \<and>
      mem_abs (snd (RemoveOrganizationMember (Organizations (mem_repos it)) i u st)) =
        (mem_abs st)\<lparr>av_members := (av_members (mem_abs st))(i := (av_members (mem_abs st) i)(u := None))\<rparr>"
    if "av_members (mem_abs st) i u = Some m"
    using mem_UpdateRole_ok [OF inv that] mem_Remove_ok [OF inv that] by simp_all
  show "fst (SetSessionActiveOrg (Organizations (mem_repos it)) h i st) = Inr () \<and>
      mem_inv (snd (SetSessionActiveOrg (Organizations (mem_repos it)) h i st)) \<and>
      mem_abs (snd (SetSessionActiveOrg (Organizations (mem_repos it)) h i st)) =
        (mem_abs st)\<lparr>av_sessions := (av_sessions (mem_abs st))(h \<mapsto> x\<lparr>sActiveOrgID := i\<rparr>)\<rparr>"
    if "av_sessions (mem_abs st) h = Some x"
    using that inv mem_session_key [OF inv]
    by (simp add: mem_SetSessionActiveOrg_def mem_abs_def mem_inv_def AList.update_conv')
  show "mem_inv (snd (SetSessionActiveOrgBySID (Organizations (mem_repos it)) sid i st)) \<and>
      (mem_abs (snd (SetSessionActiveOrgBySID (Organizations (mem_repos it)) sid i st)))\<lparr>av_sessions := av_sessions (mem_abs st)\<rparr> =
        mem_abs st \<and>
      (\<forall>h. map_option (sActiveOrgID_update (\<lambda>_. []))
          (av_sessions (mem_abs (snd (SetSessionActiveOrgBySID (Organizations (mem_repos it)) sid i st))) h) =
        map_option (sActiveOrgID_update (\<lambda>_. [])) (av_sessions (mem_abs st) h))"
    using mem_SetActiveBySID_frame [OF inv] by simp
  show "fst (SetSessionActiveOrgBySID (Organizations (mem_repos it)) sid i st) = Inr () \<and>
      mem_inv (snd (SetSessionActiveOrgBySID (Organizations (mem_repos it)) sid i st)) \<and>
      mem_abs (snd (SetSessionActiveOrgBySID (Organizations (mem_repos it)) sid i st)) =
        (mem_abs st)\<lparr>av_sessions := (av_sessions (mem_abs st))(h \<mapsto> x\<lparr>sActiveOrgID := i\<rparr>)\<rparr>"
    if "sid \<noteq> []" and x: "av_sessions (mem_abs st) h = Some x" "sSID x = sid"
      and one: "\<And>k y. av_sessions (mem_abs st) k = Some y \<Longrightarrow> sSID y = sid \<Longrightarrow> k = h"
  proof -
    let ?ps = "range_map it (st_sessions st)"
    have mem: "(k, y) \<in> set ?ps \<longleftrightarrow> gget (st_sessions st) k = Some y" for k y
      unfolding set_range_map [OF mem_invD(2) [OF inv]] by (rule gget_in_set [OF mem_invD(2) [OF inv]])
    have "(h, x) \<in> set ?ps" unfolding mem using x(1) by (simp add: mem_abs_def)
    then have "find (\<lambda>(hash, sess). sSID sess = sid) ?ps \<noteq> None"
      using x(2) by (auto simp: find_None_iff intro!: bexI [of _ "(h, x)"])
    then obtain k y where ky: "find (\<lambda>(hash, sess). sSID sess = sid) ?ps = Some (k, y)" by auto
    then have in_ps: "(k, y) \<in> set ?ps" and sid: "sSID y = sid" by (auto dest: find_SomeD)
    then have "k = h" and "y = x" using one [of k y] mem x(1) by (auto simp: mem_abs_def)
    with ky have f: "find (\<lambda>(hash, sess). sSID sess = sid) ?ps = Some (h, x)" by simp
    have "sTokenHash x = h" using mem_session_key [OF inv, of h x] x(1) by (simp add: mem_abs_def)
    with f that(1) inv show ?thesis
      by (simp add: mem_SetSessionActiveOrgBySID_def mem_abs_def mem_inv_def AList.update_conv')
  qed
qed

text \<open>The memory store implements the full persistence surface.\<close>

interpretation mem: repos_contract "mem_repos it" mem_abs mem_inv for it
  by unfold_locales

end
