(* ===== verification/Samples.thy ===== *)
theory Samples
  imports Password MemRepos
begin

section \<open>A concrete server\<close>

text \<open>
  The concrete inputs at which the witnesses apply the properties: besides the environment of
  \<open>SampleEnv\<close>, a store with one user and one public client.
\<close>

definition sample_user :: user where
  "sample_user = \<lparr>uID = ''u1'', uEmail = ''a@x'', uName = ''Ann'',
     uPasswordHash = phc_string ''salt'' (IDKey sample_env ''secret'' ''salt'' timeCost memoryKiB threads keyLen),
     uEmailVerified = False, uDisabled = False, uCreatedAt = 0\<rparr>"

definition sample_client :: client where
  "sample_client = \<lparr>cID = ''rp'', cName = ''RP'', cType = ClientPublic, cSecretHash = [],
     cRedirectURIs = [''https://rp/cb''], cPostLogoutRedirectURIs = [''https://rp/out''],
     cFrontChannelLogoutURI = [], cBackChannelLogoutURI = [], cTokenEndpointAuth = []\<rparr>"

definition sample_store :: store where
  "sample_store = NewStore\<lparr>st_users := [(''u1'', sample_user)], st_byEmail := [(''a@x'', ''u1'')],
     st_clients := [(''rp'', sample_client)]\<rparr>"

definition sample_world :: "store world" where
  "sample_world = \<lparr>w_store = sample_store, w_draws = 0, w_ids = 0, w_hits = [], w_pending = [], w_sent = []\<rparr>"

lemmas sample_defs = sample_world_def sample_store_def sample_client_def sample_user_def

lemma sample_inv [simp]: "mem_inv sample_store"
  by (simp add: sample_defs mem_inv_def NewStore_def gball_def user_row_ok_def email_row_ok_def
      ToLower_def lower_char_def)

lemma sample_world_sel [simp]:
  "w_draws sample_world = 0" "w_ids sample_world = 0" "w_hits sample_world = []"
  "w_pending sample_world = []" "w_store sample_world = sample_store"
  by (simp_all add: sample_world_def)

lemma sample_rows [simp]:
  "gget (st_users sample_store) i = (if i = ''u1'' then Some sample_user else None)"
  "gget (st_clients sample_store) i = (if i = ''rp'' then Some sample_client else None)"
  "st_sessions sample_store = []" "st_codes sample_store = []" "st_refresh sample_store = []"
  "st_access sample_store = []" "st_audits sample_store = []"
  by (simp_all add: sample_store_def NewStore_def)

end
