(* ===== verification/StoreProps.thy ===== *)
theory StoreProps
  imports Samples
begin

section \<open>Properties of the memory store\<close>

text \<open>
  The memory store keeps the contracts of \<open>Repos\<close>; codes and refresh tokens are taken once
  however the takes are ordered; and reading the audit trail page by page shows every event
  once, newest first.
\<close>

text \<open>
  C14. The memory store (\<open>store.go\<close>, \<open>orgs.go\<close>) implements the whole persistence contract, for any
  order in which Go visits its maps: under the representation invariant \<open>mem_inv\<close>, every
  method returns what the abstract store of \<open>mem_abs\<close> says, errors included, has the effect on
  it that the contract states and no other, and keeps the invariant.
\<close>

theorem memory_store_contract:
  "repos_contract (mem_repos it) mem_abs mem_inv"
  by (rule mem.repos_contract_axioms)

text \<open>
  In any sequence of takes of refresh tokens from the memory store, for any keys in any
  order, at most one take of a given token succeeds.
\<close>

theorem refresh_taken_once:
  assumes "mem_inv s"
  shows "length (filter (\<lambda>(k, x). k = h \<and> is_ok x)
    (run_takes (TakeRefresh (RefreshTokens (mem_repos it))) hs s)) \<le> 1"
  by (rule mem_refresh.refreshes.takes_once [OF assms])

subsection \<open>Reading the audit trail\<close>

text \<open>A reader that follows the \<open>Next\<close> cursor; fuel bounds the number of pages.\<close>

fun read_pages :: "nat \<Rightarrow> (string \<Rightarrow> audit_page res) \<Rightarrow> string \<Rightarrow> audit_event list option" where
  "read_pages 0 f after = None"
| "read_pages (Suc n) f after =
    (case f after of
       Inl e \<Rightarrow> None
     | Inr p \<Rightarrow>
         if pgNext p = [] then Some (pgItems p)
         else map_option (\<lambda>rest. pgItems p @ rest) (read_pages n f (pgNext p)))"

lemma index_of_nth:
  "distinct (map g xs) \<Longrightarrow> i < length xs \<Longrightarrow> index_of (\<lambda>x. g x = g (xs ! i)) xs = Some i"
proof (induction xs arbitrary: i)
  case Nil
  then show ?case by simp
next
  case (Cons x xs)
  show ?case
  proof (cases i)
    case 0
    then show ?thesis by simp
  next
    case (Suc j)
    then have "g x \<noteq> g (xs ! j)" using Cons.prems by (auto simp: image_iff)
    with Suc Cons show ?thesis by simp
  qed
qed

definition cursor :: "audit_event list \<Rightarrow> nat \<Rightarrow> string" where
  "cursor xs k = (if k = 0 then [] else aeID (xs ! (k - 1)))"

lemma window_at:
  fixes evs :: "audit_event list" and limit :: int
  defines "xs \<equiv> sort_key newest_key evs" and "lim \<equiv> nat (clampAuditLimit limit)"
  assumes dist: "distinct (map aeID evs)" and ne: "[] \<notin> aeID ` set evs" and k: "k \<le> length xs"
  shows "audit_window limit (cursor xs k) evs =
    Inr \<lparr>pgItems = take lim (drop k xs), pgNext = (if k + lim < length xs then cursor xs (k + lim) else [])\<rparr>"
proof -
  have lim: "0 < lim" by (simp add: lim_def clampAuditLimit_def)
  have cur: "cursor xs k \<noteq> []" if "k \<noteq> 0"
  proof -
    have "xs ! (k - 1) \<in> set evs" using that k nth_mem [of "k - 1" xs] by (simp add: xs_def)
    then have "aeID (xs ! (k - 1)) \<in> aeID ` set evs" by (rule imageI)
    with ne that show ?thesis by (auto simp: cursor_def)
  qed
  have start: "(if cursor xs k = [] then Some 0 else map_option Suc (index_of (\<lambda>e. aeID e = cursor xs k) xs)) = Some k"
  proof (cases "k = 0")
    case True
    then show ?thesis by (simp add: cursor_def)
  next
    case False
    have "index_of (\<lambda>e. aeID e = aeID (xs ! (k - 1))) xs = Some (k - 1)"
      by (rule index_of_nth) (use dist False k in \<open>auto simp: xs_def\<close>)
    then show ?thesis using False cur by (simp add: cursor_def)
  qed
  have "last (take lim (drop k xs)) = xs ! (k + lim - 1)" if "k + lim < length xs"
    using that lim by (simp add: last_conv_nth)
  then show ?thesis
    using start k lim by (auto simp: audit_window_def Let_def xs_def [symmetric] lim_def [symmetric] cursor_def)
qed

lemma read_from:
  fixes evs :: "audit_event list"
  defines "xs \<equiv> sort_key newest_key evs"
  assumes dist: "distinct (map aeID evs)" and ne: "[] \<notin> aeID ` set evs"
    and f: "\<And>after. f after = audit_window limit after evs"
  shows "k \<le> length xs \<Longrightarrow> length xs - k < n \<Longrightarrow> read_pages n f (cursor xs k) = Some (drop k xs)"
proof (induction n arbitrary: k)
  case 0
  then show ?case by simp
next
  case (Suc n)
  let ?lim = "nat (clampAuditLimit limit)"
  have lim: "0 < ?lim" by (simp add: clampAuditLimit_def)
  have w: "f (cursor xs k) = Inr \<lparr>pgItems = take ?lim (drop k xs),
      pgNext = (if k + ?lim < length xs then cursor xs (k + ?lim) else [])\<rparr>"
    using window_at [OF dist ne] Suc.prems(1) by (simp add: f xs_def)
  show ?case
  proof (cases "k + ?lim < length xs")
    case True
    have "xs ! (k + ?lim - 1) \<in> set evs" using True nth_mem [of "k + ?lim - 1" xs] by (simp add: xs_def)
    then have "aeID (xs ! (k + ?lim - 1)) \<in> aeID ` set evs" by (rule imageI)
    then have "cursor xs (k + ?lim) \<noteq> []" using ne lim by (auto simp: cursor_def)
    moreover have "read_pages n f (cursor xs (k + ?lim)) = Some (drop (k + ?lim) xs)"
      by (rule Suc.IH) (use True Suc.prems lim in auto)
    ultimately show ?thesis using w True append_take_drop_id [of ?lim "drop k xs"] by (simp add: add.commute)
  next
    case False
    then show ?thesis using w by simp
  qed
qed

text \<open>
  C28. A reader of the memory store's audit trail that starts without a cursor and follows \<open>Next\<close>
  until it is empty sees every event exactly once, newest first (by time, then identifier),
  whatever page size it asks for, and needs at most one page more than there are events.
\<close>

theorem audit_pages_complete:
  assumes "mem_inv s" and "distinct (map aeID (st_audits s))" and "[] \<notin> aeID ` set (st_audits s)"
  shows "read_pages (Suc (length (st_audits s))) (\<lambda>after. ListAudits (Audits (mem_repos it)) limit after s) [] =
    Some (sort_key newest_key (st_audits s))"
proof -
  have "ListAudits (Audits (mem_repos it)) limit after s = audit_window limit after (st_audits s)" for after
    using mem_audits.list_audits [OF assms(1), of it limit after] assms(2) by (simp add: mem_abs_def)
  from read_from [OF assms(2,3) this, of 0 "Suc (length (st_audits s))"] show ?thesis
    by (simp add: cursor_def)
qed

subsection \<open>Witnesses\<close>

definition sample_event :: "string \<Rightarrow> int \<Rightarrow> audit_event" where
  "sample_event i t = \<lparr>aeID = i, aeType = AuditConsent, aeAt = t, aeSubject = [], aeClientID = [],
     aeIP = [], aeNote = []\<rparr>"

definition audit_store :: store where
  "audit_store = sample_store\<lparr>st_audits := [sample_event ''e1'' 1, sample_event ''e2'' 2]\<rparr>"

theorem audit_pages_complete_witness:
  "read_pages 3 (\<lambda>after. ListAudits (Audits (mem_repos (\<lambda>ks. ks))) 1 after audit_store) [] =
    Some [sample_event ''e2'' 2, sample_event ''e1'' 1]"
proof -
  have "mem_inv audit_store" using sample_inv by (simp add: audit_store_def mem_inv_def)
  from audit_pages_complete [OF this, of "\<lambda>ks. ks" 1] show ?thesis
    by (simp add: audit_store_def sample_event_def newest_key_def less_eq_newest_def numeral_3_eq_3)
qed

definition refresh_store :: store where
  "refresh_store = sample_store\<lparr>st_refresh := [(''h'', \<lparr>rtHash = ''h'', rtFamilyID = ''f'', rtClientID = ''rp'',
     rtUserID = ''u1'', rtScopes = [], rtSessionSID = [], rtExpiresAt = 5, rtRevoked = False\<rparr>)]\<rparr>"

theorem refresh_taken_once_witness:
  "length (filter (\<lambda>(k, x). k = ''h'' \<and> is_ok x)
    (run_takes (TakeRefresh (RefreshTokens (mem_repos (\<lambda>ks. ks)))) [''h'', ''g'', ''h''] refresh_store)) = 1"
proof -
  have "mem_inv refresh_store" using sample_inv by (simp add: refresh_store_def mem_inv_def)
  from refresh_taken_once [OF this, of "''h''" "\<lambda>ks. ks" "[''h'', ''g'', ''h'']"] show ?thesis
    by (simp add: refresh_store_def mem_TakeRefresh_def le_Suc_eq Let_def)
qed

end
