(* ===== verification/Http.thy ===== *)
theory Http
  imports Runtime
begin

section \<open>Requests and responses\<close>

text \<open>
  What the handlers of \<open>internal/web\<close> read of an HTTP request and write of a response. The
  bytes on the wire are \<open>net/http\<close>'s: a request arrives with its query and form parsed
  (\<open>r_form_ok\<close> is whether \<open>ParseForm\<close> succeeded, \<open>r_form\<close> what \<open>FormValue\<close> reads), its cookies,
  the credentials of \<open>BasicAuth\<close>, and its JSON body decoded (\<open>None\<close> when it is not JSON). A
  response is threaded through a handler, which sets headers, cookies, status and body; a page
  is the name of its template and the data it is given. \<open>http.Redirect\<close> is written out, since
  it rewrites relative locations.
\<close>

record request =
  r_method :: string
  r_path :: string
  r_uri :: string
  r_query :: url_values
  r_form_ok :: bool
  r_form :: url_values
  r_cookies :: "(string \<times> string) list"
  r_authorization :: string
  r_basic :: "(string \<times> string) option"
  r_remote :: string
  r_json :: "json option"
  r_path_id :: string
  r_path_user :: string

record scope_view =
  svID :: string
  svLabel :: string

record page =
  pdTitle :: string
  pdError :: string
  pdCSRF :: string
  pdContinue :: string
  pdName :: string
  pdEmail :: string
  pdClientName :: string
  pdScopes :: "string list"
  pdScopeViews :: "scope_view list"
  pdRequestID :: string
  pdIDTokenHint :: string
  pdPostLogoutRedirectURI :: string
  pdState :: string
  pdClientID :: string
  pdIFrames :: "string list"
  pdContinueURL :: string

definition no_page :: page where
  "no_page = \<lparr>pdTitle = [], pdError = [], pdCSRF = [], pdContinue = [], pdName = [], pdEmail = [],
     pdClientName = [], pdScopes = [], pdScopeViews = [], pdRequestID = [], pdIDTokenHint = [],
     pdPostLogoutRedirectURI = [], pdState = [], pdClientID = [], pdIFrames = [], pdContinueURL = []\<rparr>"

datatype body = NoBody | TextBody string | JsonBody json | PageBody string page

record set_cookie =
  ckName :: string
  ckValue :: string
  ckHttpOnly :: bool
  ckSecure :: bool
  ckSameSiteLax :: bool
  ckExpires :: "int option"
  ckMaxAge :: int

record response =
  rs_status :: nat
  rs_headers :: "string gomap"
  rs_cookies :: "set_cookie list"
  rs_body :: body

definition new_response :: response where
  "new_response = \<lparr>rs_status = 200, rs_headers = [], rs_cookies = [], rs_body = NoBody\<rparr>"

definition set_header :: "string \<Rightarrow> string \<Rightarrow> response \<Rightarrow> response" where
  "set_header k v rs = rs\<lparr>rs_headers := gput k v (rs_headers rs)\<rparr>"

definition SetCookie :: "set_cookie \<Rightarrow> response \<Rightarrow> response" where
  "SetCookie c rs = rs\<lparr>rs_cookies := rs_cookies rs @ [c]\<rparr>"

definition http_Error :: "string \<Rightarrow> nat \<Rightarrow> response \<Rightarrow> response" where
  "http_Error msg code rs =
    (set_header ''Content-Type'' ''text/plain; charset=utf-8'' rs)\<lparr>rs_status := code, rs_body := TextBody msg\<rparr>"

definition Location :: "response \<Rightarrow> string option" where
  "Location rs = gget (rs_headers rs) ''Location''"

definition Cookie :: "request \<Rightarrow> string \<Rightarrow> string option" where
  "Cookie r name = map_of (r_cookies r) name"

definition FormValue :: "request \<Rightarrow> string \<Rightarrow> string" where
  "FormValue r key = values_get (r_form r) key"

subsection \<open>Redirects\<close>

text \<open>\<open>path.Clean\<close>: the elements kept so far, innermost first.\<close>

fun clean_elems :: "bool \<Rightarrow> string list \<Rightarrow> string list \<Rightarrow> string list" where
  "clean_elems rooted kept [] = rev kept"
| "clean_elems rooted kept (e # es) =
    (if e = [] \<or> e = ''.'' then clean_elems rooted kept es
     else if e = ''..'' then
       (if kept \<noteq> [] \<and> hd kept \<noteq> ''..'' then clean_elems rooted (tl kept) es
        else if rooted then clean_elems rooted kept es
        else clean_elems rooted (e # kept) es)
     else clean_elems rooted (e # kept) es)"

definition path_Clean :: "string \<Rightarrow> string" where
  "path_Clean p =
    (let rooted = prefix ''/'' p;
         out = join ''/'' (clean_elems rooted [] (split_on CHR ''/'' p))
     in if rooted then ''/'' @ out else if out = [] then ''.'' else out)"

text \<open>The directory part of \<open>path.Split\<close>: up to the last slash.\<close>

definition path_dir :: "string \<Rightarrow> string" where
  "path_dir p = (case last_cut CHR ''/'' p of None \<Rightarrow> [] | Some (d, f) \<Rightarrow> d @ ''/'')"

definition hexEscapeNonASCII :: "string \<Rightarrow> string" where
  "hexEscapeNonASCII s =
    concat (map (\<lambda>c. let n = of_char c :: nat in
      if 128 \<le> n then CHR ''%'' # map (\<lambda>d. lower_char (hex_char d)) [n div 16, n mod 16] else [c]) s)"

definition clean_relative :: "string \<Rightarrow> string" where
  "clean_relative target =
    (let (p, query) = (case cut_at CHR ''?'' target of None \<Rightarrow> (target, []) | Some (a, b) \<Rightarrow> (a, ''?'' @ b));
         cleaned = path_Clean p
     in (if suffix ''/'' p \<and> \<not> suffix ''/'' cleaned then cleaned @ ''/'' else cleaned) @ query)"

definition redirect_target :: "string \<Rightarrow> string \<Rightarrow> string" where
  "redirect_target reqpath target =
    (case url_Parse target of
       None \<Rightarrow> target
     | Some u \<Rightarrow>
         if url_Scheme u = [] \<and> url_Host u = [] then
           clean_relative
             (if prefix ''/'' target then target
              else path_dir (if reqpath = [] then ''/'' else reqpath) @ target)
         else target)"

definition http_Redirect :: "request \<Rightarrow> string \<Rightarrow> nat \<Rightarrow> response \<Rightarrow> response" where
  "http_Redirect r target code rs =
    (set_header ''Location'' (hexEscapeNonASCII (redirect_target (r_path r) target)) rs)
      \<lparr>rs_status := code\<rparr>"

subsection \<open>The address of the client\<close>

text \<open>\<open>net.SplitHostPort\<close>: the host, or \<open>None\<close> for the errors (no port, stray colons or brackets).\<close>

definition SplitHost :: "string \<Rightarrow> string option" where
  "SplitHost hostport =
    (case last_cut CHR '':'' hostport of
       None \<Rightarrow> None
     | Some (h, port) \<Rightarrow>
         if prefix ''['' hostport then
           (case cut_at CHR '']'' (tl hostport) of
              None \<Rightarrow> None
            | Some (inner, rest) \<Rightarrow>
                if rest = '':'' @ port \<and> CHR ''['' \<notin> set (tl hostport) \<and> CHR '']'' \<notin> set rest
                then Some inner else None)
         else if CHR '':'' \<in> set h \<or> CHR ''['' \<in> set hostport \<or> CHR '']'' \<in> set hostport then None
         else Some h)"

definition requestIP :: "request \<Rightarrow> string" where
  "requestIP r = (case SplitHost (r_remote r) of None \<Rightarrow> r_remote r | Some host \<Rightarrow> host)"

lemmas http_defs [defs_web] =
  set_header_def SetCookie_def http_Error_def http_Redirect_def new_response_def

lemma Location_simps [simp]:
  "Location new_response = None"
  "Location (set_header k v rs) = (if k = ''Location'' then Some v else Location rs)"
  "Location (SetCookie c rs) = Location rs"
  "Location (http_Error m code rs) = Location rs"
  "Location (http_Redirect r t code rs) = Some (hexEscapeNonASCII (redirect_target (r_path r) t))"
  by (auto simp: Location_def http_defs)

lemma status_simps [simp]:
  "rs_status (http_Error m code rs) = code" "rs_status (http_Redirect r t code rs) = code"
  "rs_status (set_header k v rs) = rs_status rs" "rs_status (SetCookie c rs) = rs_status rs"
  "rs_status new_response = 200"
  by (simp_all add: http_defs)

lemma body_simps [simp]:
  "rs_body (http_Error m code rs) = TextBody m" "rs_body (http_Redirect r t code rs) = rs_body rs"
  "rs_body (set_header k v rs) = rs_body rs" "rs_body (SetCookie c rs) = rs_body rs"
  "rs_body new_response = NoBody"
  by (simp_all add: http_defs)

subsection \<open>A relative redirect stays on the host\<close>

lemma ball_tl: "\<forall>e \<in> set kept. P e \<Longrightarrow> \<forall>e \<in> set (tl kept). P e"
  by (cases kept) auto

lemma clean_elems_all:
  "\<forall>e \<in> set kept. P e \<Longrightarrow> \<forall>e \<in> set es. e \<noteq> [] \<longrightarrow> P e \<Longrightarrow> \<forall>e \<in> set (clean_elems rooted kept es). P e"
proof (induction rooted kept es rule: clean_elems.induct)
  case (1 rooted kept)
  then show ?case by simp
next
  case (2 rooted kept e es)
  have tl: "\<forall>x \<in> set (tl kept). P x" using ball_tl 2(6) by blast
  have es: "\<forall>x \<in> set es. x \<noteq> [] \<longrightarrow> P x" using 2(7) by simp
  show ?case
  proof (cases "e = [] \<or> e = ''.''")
    case True
    then show ?thesis using 2(1) 2(6) es by auto
  next
    case e: False
    show ?thesis
    proof (cases "e = ''..''")
      case True
      then show ?thesis using 2(2-4) 2(6,7) tl es by auto
    next
      case False
      then show ?thesis using 2(5) 2(6,7) es e by auto
    qed
  qed
qed

lemma split_on_noslash: "\<forall>e \<in> set (split_on c s). c \<notin> set e"
  by (induction s) (auto split: list.splits)

lemma join_first: "\<forall>e \<in> set es. e \<noteq> [] \<and> c \<notin> set e \<Longrightarrow> join sep es = [] \<or> hd (join sep es) \<noteq> c"
  by (induction sep es rule: join.induct) (auto simp: hd_append dest: hd_in_set split: if_splits)

text \<open>A cleaned absolute path has one slash at the front.\<close>

lemma path_Clean_rooted:
  assumes "prefix ''/'' p"
  shows "\<exists>s. path_Clean p = CHR ''/'' # s \<and> (s = [] \<or> hd s \<noteq> CHR ''/'')"
proof -
  let ?es = "clean_elems True [] (split_on CHR ''/'' p)"
  have "\<forall>e \<in> set ?es. e \<noteq> [] \<and> CHR ''/'' \<notin> set e"
    by (rule clean_elems_all) (simp_all add: split_on_noslash)
  from join_first [OF this] assms show ?thesis by (simp add: path_Clean_def Let_def)
qed

lemma clean_relative_host:
  assumes "prefix ''/'' t"
  shows "\<exists>s. clean_relative t = CHR ''/'' # s \<and> (s = [] \<or> hd s \<noteq> CHR ''/'')"
proof -
  obtain p q where pq: "(case cut_at CHR ''?'' t of None \<Rightarrow> (t, []) | Some (a, b) \<Rightarrow> (a, ''?'' @ b)) = (p, q)"
    by fastforce
  then have "prefix ''/'' p" and q: "q = [] \<or> hd q = CHR ''?''"
    using assms by (auto split: option.splits simp: prefix_def Cons_eq_append_conv dest!: cut_at_Some)
  then obtain s where s: "path_Clean p = CHR ''/'' # s" "s = [] \<or> hd s \<noteq> CHR ''/''"
    using path_Clean_rooted by blast
  show ?thesis
  proof (cases "s = []")
    case True
    have "clean_relative t = CHR ''/'' # q"
      using True pq s(1) by (simp add: clean_relative_def Let_def)
    with q show ?thesis by auto
  next
    case False
    then show ?thesis using pq s by (simp add: clean_relative_def Let_def)
  qed
qed

subsection \<open>A blank request\<close>

definition blank_request :: request where
  "blank_request = \<lparr>r_method = ''GET'', r_path = ''/'', r_uri = ''/'', r_query = [], r_form_ok = True,
     r_form = [], r_cookies = [], r_authorization = [], r_basic = None, r_remote = ''10.0.0.1:5000'',
     r_json = None, r_path_id = [], r_path_user = []\<rparr>"

lemma FormValue_form: "FormValue (r\<lparr>r_form := q\<rparr>) k = values_get q k"
  by (simp add: FormValue_def)

end
