(* ===== verification/Messages.thy ===== *)
theory Messages
  imports Main
begin

section \<open>The Japanese texts of the pages\<close>

text \<open>
  The titles, labels and messages that the handlers put on their pages, as the bytes of their
  UTF-8 encoding. They carry no behaviour; the handlers only choose among them.
\<close>

definition utf8_bytes :: "nat list \<Rightarrow> string" where
  "utf8_bytes bs = map char_of bs"

text \<open>Login identification (OpenID).\<close>

definition msg_scope_openid :: string where
  "msg_scope_openid = utf8_bytes [227, 131, 173, 227, 130, 176, 227, 130, 164, 227, 131, 179, 232, 173, 152, 229, 136,
    165, 239, 188, 136, 79, 112, 101, 110, 73, 68, 239, 188, 137]"

text \<open>Profile such as the display name.\<close>

definition msg_scope_profile :: string where
  "msg_scope_profile = utf8_bytes [232, 161, 168, 231, 164, 186, 229, 144, 141, 227, 129, 170, 227, 129, 169, 227, 129,
    174, 227, 131, 151, 227, 131, 173, 227, 131, 149, 227, 130, 163, 227, 131, 188, 227,
    131, 171]"

text \<open>Mail address.\<close>

definition msg_scope_email :: string where
  "msg_scope_email = utf8_bytes [227, 131, 161, 227, 131, 188, 227, 131, 171, 227, 130, 162, 227, 131, 137, 227, 131,
    172, 227, 130, 185]"

text \<open>Continue without a new login (refresh).\<close>

definition msg_scope_offline :: string where
  "msg_scope_offline = utf8_bytes [229, 134, 141, 227, 131, 173, 227, 130, 176, 227, 130, 164, 227, 131, 179, 227, 129,
    170, 227, 129, 151, 227, 129, 167, 231, 182, 153, 231, 182, 154, 239, 188, 136, 227,
    131, 170, 227, 131, 149, 227, 131, 172, 227, 131, 131, 227, 130, 183, 227, 131, 165,
    239, 188, 137]"

text \<open>Organization (tenant).\<close>

definition msg_scope_org :: string where
  "msg_scope_org = utf8_bytes [230, 137, 128, 229, 177, 158, 231, 181, 132, 231, 185, 148, 239, 188, 136, 227, 131,
    134, 227, 131, 138, 227, 131, 179, 227, 131, 136, 239, 188, 137]"

text \<open>Consent.\<close>

definition msg_consent :: string where
  "msg_consent = utf8_bytes [229, 144, 140, 230, 132, 143]"

text \<open>Registration.\<close>

definition msg_register :: string where
  "msg_register = utf8_bytes [231, 153, 187, 233, 140, 178]"

text \<open>Please redo the form.\<close>

definition msg_redo_form :: string where
  "msg_redo_form = utf8_bytes [227, 131, 149, 227, 130, 169, 227, 131, 188, 227, 131, 160, 227, 130, 146, 227, 130,
    132, 227, 130, 138, 231, 155, 180, 227, 129, 151, 227, 129, 166, 227, 129, 143, 227,
    129, 160, 227, 129, 149, 227, 129, 132, 227, 128, 130]"

text \<open>Could not register.\<close>

definition msg_not_registered :: string where
  "msg_not_registered = utf8_bytes [231, 153, 187, 233, 140, 178, 227, 129, 167, 227, 129, 141, 227, 129, 190, 227, 129,
    155, 227, 130, 147, 227, 129, 167, 227, 129, 151, 227, 129, 159, 227, 128, 130]"

text \<open>This address is already in use.\<close>

definition msg_email_taken :: string where
  "msg_email_taken = utf8_bytes [227, 129, 147, 227, 129, 174, 227, 131, 161, 227, 131, 188, 227, 131, 171, 227, 129,
    175, 230, 151, 162, 227, 129, 171, 228, 189, 191, 227, 130, 143, 227, 130, 140, 227,
    129, 166, 227, 129, 132, 227, 129, 190, 227, 129, 153, 227, 128, 130]"

text \<open>Login.\<close>

definition msg_login :: string where
  "msg_login = utf8_bytes [227, 131, 173, 227, 130, 176, 227, 130, 164, 227, 131, 179]"

text \<open>Too many attempts, please wait.\<close>

definition msg_too_many :: string where
  "msg_too_many = utf8_bytes [232, 169, 166, 232, 161, 140, 227, 129, 140, 229, 164, 154, 227, 129, 153, 227, 129,
    142, 227, 129, 190, 227, 129, 153, 227, 128, 130, 227, 129, 151, 227, 129, 176, 227,
    130, 137, 227, 129, 143, 229, 190, 133, 227, 129, 163, 227, 129, 166, 227, 129, 143,
    227, 129, 160, 227, 129, 149, 227, 129, 132, 227, 128, 130]"

text \<open>Address or password is wrong.\<close>

definition msg_bad_login :: string where
  "msg_bad_login = utf8_bytes [227, 131, 161, 227, 131, 188, 227, 131, 171, 227, 129, 190, 227, 129, 159, 227, 129,
    175, 227, 131, 145, 227, 130, 185, 227, 131, 175, 227, 131, 188, 227, 131, 137, 227,
    129, 140, 233, 129, 149, 227, 129, 132, 227, 129, 190, 227, 129, 153, 227, 128, 130]"

text \<open>Home.\<close>

definition msg_home :: string where
  "msg_home = utf8_bytes [227, 131, 155, 227, 131, 188, 227, 131, 160]"

text \<open>Logout.\<close>

definition msg_logout :: string where
  "msg_logout = utf8_bytes [227, 131, 173, 227, 130, 176, 227, 130, 162, 227, 130, 166, 227, 131, 136]"

text \<open>Confirm logout.\<close>

definition msg_logout_confirm :: string where
  "msg_logout_confirm = utf8_bytes [227, 131, 173, 227, 130, 176, 227, 130, 162, 227, 130, 166, 227, 131, 136, 227, 129,
    174, 231, 162, 186, 232, 170, 141]"

end
