(* ===== verification/SessionService.thy ===== *)
theory SessionService
  imports Samples
begin

section \<open>Browser sessions\<close>

text \<open>
  \<open>internal/session/service.go\<close>: the service that issues the IdP login cookie. A session row
  is stored under the digest of the cookie value; \<open>Start\<close> creates it, \<open>LookupSession\<close> reads it
  and deletes it once it has expired, \<open>End\<close> forgets it. The service holds the sessions
  interface, the clock (in \<open>env\<close>) and a time to live. The lemmas are proved for any store that
  keeps the contracts of \<open>Repos\<close>.
\<close>

definition CookieName :: string where
  "CookieName = ''idp_session''"

definition Start_session ::
  "'s sessions_if \<Rightarrow> env \<Rightarrow> int \<Rightarrow> string \<Rightarrow> 's world \<Rightarrow> (string \<times> int) res \<times> 's world" where
  "Start_session S E ttl userID w =
    (case random_Token E w of
       (Inl e, w) \<Rightarrow> (Inl e, w)
     | (Inr plain, w) \<Rightarrow>
    case random_Token E w of
       (Inl e, w) \<Rightarrow> (Inl e, w)
     | (Inr sid, w) \<Rightarrow>
    let exp = Now E + ttl;
        row = \<lparr>sTokenHash = HashToken plain, sUserID = userID, sSID = sid, sActiveOrgID = [],
               sExpiresAt = exp\<rparr>
    in case on_store (PutSession S row) w of
       (Inl e, w) \<Rightarrow> (Inl e, w)
     | (Inr _, w) \<Rightarrow> (Inr (plain, exp), w))"

definition LookupSession :: "'s sessions_if \<Rightarrow> env \<Rightarrow> string \<Rightarrow> 's world \<Rightarrow> session res \<times> 's world" where
  "LookupSession S E plain w =
    (if plain = [] then (Inl ErrNotFound, w)
     else case GetSession S (HashToken plain) (w_store w) of
       Inl e \<Rightarrow> (Inl e, w)
     | Inr row \<Rightarrow>
         if \<not> Now E < sExpiresAt row then
           (Inl ErrNotFound, snd (on_store (DeleteSession S (sTokenHash row)) w))
         else (Inr row, w))"

definition Lookup :: "'s sessions_if \<Rightarrow> env \<Rightarrow> string \<Rightarrow> 's world \<Rightarrow> string res \<times> 's world" where
  "Lookup S E plain w =
    (case LookupSession S E plain w of
       (Inl e, w) \<Rightarrow> (Inl e, w)
     | (Inr row, w) \<Rightarrow> (Inr (sUserID row), w))"

definition End_session :: "'s sessions_if \<Rightarrow> string \<Rightarrow> 's world \<Rightarrow> unit res \<times> 's world" where
  "End_session S plain w =
    (if plain = [] then (Inr (), w)
     else case on_store (DeleteSession S (HashToken plain)) w of
       (Inl e, w) \<Rightarrow> (Inl (ErrOther ''delete session''), w)
     | (Inr _, w) \<Rightarrow> (Inr (), w))"

subsection \<open>The service over any store\<close>

context sessions_repo
begin

text \<open>The row a cookie value stands for.\<close>

definition cookie_row :: "string \<Rightarrow> 's \<Rightarrow> session option" where
  "cookie_row plain s = (if plain = [] then None else av_sessions (abs s) (HashToken plain))"

lemma LookupSession_eq:
  assumes "inv (w_store w)"
  shows "LookupSession S E plain w =
    (case cookie_row plain (w_store w) of
       None \<Rightarrow> (Inl ErrNotFound, w)
     | Some x \<Rightarrow> if Now E < sExpiresAt x then (Inr x, w)
               else (Inl ErrNotFound, snd (on_store (DeleteSession S (HashToken plain)) w)))"
  using session_key [OF assms]
  by (auto simp: LookupSession_def cookie_row_def get_session found_def split: option.splits)

lemma LookupSession_inv: "inv (w_store w) \<Longrightarrow> inv (w_store (snd (LookupSession S E plain w)))"
  using delete_session [of "w_store w" "HashToken plain"]
  by (simp add: LookupSession_eq split: option.split)

lemma LookupSession_ok:
  assumes "inv (w_store w)" and "LookupSession S E plain w = (Inr x, w')"
  shows "w' = w" and "plain \<noteq> []" and "av_sessions (abs (w_store w)) (HashToken plain) = Some x"
    and "Now E < sExpiresAt x"
  using assms(2) unfolding LookupSession_eq [OF assms(1)]
  by (auto simp: cookie_row_def split: option.splits if_splits)

lemma LookupSession_err:
  "inv (w_store w) \<Longrightarrow> LookupSession S E plain w = (Inl e, w') \<Longrightarrow> e = ErrNotFound"
  by (auto simp: LookupSession_eq split: option.splits if_splits)

lemma Lookup_fst: "fst (Lookup S E plain w) = map_sum id sUserID (fst (LookupSession S E plain w))"
  and Lookup_snd: "snd (Lookup S E plain w) = snd (LookupSession S E plain w)"
  by (simp_all add: Lookup_def split: prod.split sum.split)

lemma Start_session_ok:
  assumes "inv (w_store w)" and "av_users (abs (w_store w)) uid \<noteq> None"
    and "Start_session S E ttl uid w = (Inr (plain, exp), w')"
  shows "token_at E (w_draws w) = Some plain" and "exp = Now E + ttl" and "inv (w_store w')"
    and "\<exists>sid. token_at E (w_draws w + 1) = Some sid \<and> abs (w_store w') = (abs (w_store w))\<lparr>av_sessions :=
      (av_sessions (abs (w_store w)))(HashToken plain \<mapsto>
        \<lparr>sTokenHash = HashToken plain, sUserID = uid, sSID = sid, sActiveOrgID = [], sExpiresAt = exp\<rparr>)\<rparr>"
  using assms(3) put_session [OF assms(1), of "\<lparr>sTokenHash = HashToken plain, sUserID = uid,
      sSID = the (token_at E (w_draws w + 1)), sActiveOrgID = [], sExpiresAt = exp\<rparr>"] assms(2)
  by (auto simp: Start_session_def random_Token_eq Let_def on_store_def
      split: option.splits sum.splits prod.splits)

lemma End_session_eq:
  assumes "inv (w_store w)"
  shows "End_session S plain w = (Inr (), if plain = [] then w else snd (on_store (DeleteSession S (HashToken plain)) w))"
  using delete_session [OF assms, of "HashToken plain"]
  by (cases "on_store (DeleteSession S (HashToken plain)) w") (auto simp: End_session_def on_store_def split: prod.splits)

lemma deleted_row: "inv s \<Longrightarrow> cookie_row plain (snd (DeleteSession S (HashToken plain) s)) = None"
  using delete_session [of s "HashToken plain"] by (simp add: cookie_row_def split: option.split)

lemma Lookup_after_delete:
  assumes "inv (w_store w)"
  shows "fst (Lookup S E plain (snd (on_store (DeleteSession S (HashToken plain)) w))) = Inl ErrNotFound"
  using deleted_row [OF assms] delete_session [OF assms, of "HashToken plain"]
  by (simp add: Lookup_fst LookupSession_eq)

lemma started_session:
  assumes inv: "inv (w_store w)" and user: "av_users (abs (w_store w)) uid \<noteq> None"
    and ok: "Start_session S E ttl uid w = (Inr (plain, exp), w')" and ne: "plain \<noteq> []"
  shows "inv (w_store w') \<and> exp = Now E + ttl
    \<and> (\<forall>E'. Now E' < exp \<longrightarrow> Lookup S E' plain w' = (Inr uid, w'))
    \<and> (\<forall>E'. exp \<le> Now E' \<longrightarrow> fst (Lookup S E' plain w') = Inl ErrNotFound \<and>
        av_sessions (abs (w_store (snd (Lookup S E' plain w')))) (HashToken plain) = None)
    \<and> (\<forall>E'. fst (Lookup S E' plain (snd (End_session S plain w'))) = Inl ErrNotFound)"
proof -
  note start = Start_session_ok [OF inv user ok]
  from start(4) obtain x where row: "cookie_row plain (w_store w') = Some x" "sUserID x = uid" "sExpiresAt x = exp"
    using ne by (auto simp: cookie_row_def)
  have live: "Lookup S E' plain w' = (Inr uid, w')" if "Now E' < exp" for E' :: env
    using that row by (simp add: Lookup_def LookupSession_eq [OF start(3)])
  have dead: "fst (Lookup S E' plain w') = Inl ErrNotFound \<and>
      av_sessions (abs (w_store (snd (Lookup S E' plain w')))) (HashToken plain) = None" if "exp \<le> Now E'" for E' :: env
    using that row deleted_row [OF start(3), of plain] ne
    by (simp add: Lookup_fst Lookup_snd LookupSession_eq [OF start(3)]) (simp add: cookie_row_def)
  show ?thesis
    using start(2,3) live dead Lookup_after_delete [OF start(3)] ne End_session_eq [OF start(3)] by auto
qed

end

subsection \<open>The life of a session\<close>

text \<open>
  C22. A session started for a user of the memory store is found under its cookie value, for that
  user, at every later request before its expiry; from the expiry on the cookie is refused and
  the row is deleted by the lookup itself; and after \<open>End\<close> it is refused at any time.
\<close>

theorem session_lifecycle:
  assumes "mem_inv (w_store w)" and "gget (st_users (w_store w)) uid \<noteq> None" and "rand_fills E"
    and "Start_session (Sessions (mem_repos it)) E ttl uid w = (Inr (plain, exp), w')"
  shows "mem_inv (w_store w') \<and> exp = Now E + ttl \<and> length plain = 43
    \<and> (\<forall>E'. Now E' < exp \<longrightarrow> Lookup (Sessions (mem_repos it)) E' plain w' = (Inr uid, w'))
    \<and> (\<forall>E'. exp \<le> Now E' \<longrightarrow>
        fst (Lookup (Sessions (mem_repos it)) E' plain w') = Inl ErrNotFound \<and>
        gget (st_sessions (w_store (snd (Lookup (Sessions (mem_repos it)) E' plain w')))) (HashToken plain) = None)
    \<and> (\<forall>E'. fst (Lookup (Sessions (mem_repos it)) E' plain
          (snd (End_session (Sessions (mem_repos it)) plain w'))) = Inl ErrNotFound)"
proof -
  have u: "av_users (mem_abs (w_store w)) uid \<noteq> None" using assms(2) by (simp add: mem_abs_def)
  have len: "length plain = 43"
    using mem_sessions.Start_session_ok(1) [OF assms(1) u assms(4)] token_length [OF assms(3)] by blast
  then have "plain \<noteq> []" by auto
  from mem_sessions.started_session [OF assms(1) u assms(4) this] len show ?thesis
    by (simp add: mem_abs_def)
qed

theorem session_lifecycle_witness:
  "\<exists>plain w'. Start_session (Sessions (mem_repos (\<lambda>ks. ks))) sample_env hour ''u1'' sample_world = (Inr (plain, 4600 * second), w')
    \<and> Lookup (Sessions (mem_repos (\<lambda>ks. ks))) (sample_env\<lparr>Now := 4599 * second\<rparr>) plain w' = (Inr ''u1'', w')"
proof -
  obtain plain w' where s: "Start_session (Sessions (mem_repos (\<lambda>ks. ks))) sample_env hour ''u1'' sample_world = (Inr (plain, 4600 * second), w')"
    by (simp add: Start_session_def random_Token_eq on_store_def mem_ops Let_def)
  from session_lifecycle [OF _ _ _ s] s show ?thesis by simp
qed

end
