(* ===== verification/Account.thy ===== *)
theory Account
  imports Samples
begin

section \<open>Accounts\<close>

text \<open>
  \<open>internal/account\<close>: registering users and checking passwords, over the users interface. An
  address is normalized (trimmed, lower case) before it is used; every failed login has the
  same error. The lemmas hold for any store that keeps the contract of \<open>Repos\<close>, the
  properties are stated for the memory store.
\<close>

definition errInvalidCreds :: derr where
  "errInvalidCreds = ErrOther ''invalid email or password''"

record register_input =
  rEmail :: string
  rPassword :: string
  rName :: string

definition normalizeEmail :: "env \<Rightarrow> string \<Rightarrow> string res" where
  "normalizeEmail E raw =
    (let e = ToLower (TrimSpace raw) in
     if \<not> MailOK E e then Inl (ErrOther ''invalid email'')
     else if CHR ''@'' \<notin> set e then Inl (ErrOther ''invalid email'')
     else Inr e)"

definition Register :: "'s users_if \<Rightarrow> env \<Rightarrow> register_input \<Rightarrow> 's world \<Rightarrow> user res \<times> 's world" where
  "Register U E inp w =
    (case normalizeEmail E (rEmail inp) of
       Inl e \<Rightarrow> (Inl e, w)
     | Inr email \<Rightarrow>
    let name = TrimSpace (rName inp) in
    if name = [] then (Inl (ErrOther ''name is required''), w)
    else case Hash_password E (rPassword inp) w of
       (Inl e, w) \<Rightarrow> (Inl e, w)
     | (Inr h, w) \<Rightarrow>
    let (uid, w) = id_New E w;
        u = zero_user\<lparr>uID := uid, uEmail := email, uName := name, uPasswordHash := h, uCreatedAt := Now E\<rparr>
    in case on_store (Create U u) w of
       (Inl e, w) \<Rightarrow> (Inl e, w)
     | (Inr _, w) \<Rightarrow> (Inr u, w))"

definition Authenticate :: "'s users_if \<Rightarrow> env \<Rightarrow> string \<Rightarrow> string \<Rightarrow> 's \<Rightarrow> user res" where
  "Authenticate U E email plain s =
    (case normalizeEmail E email of
       Inl e \<Rightarrow> Inl e
     | Inr email \<Rightarrow>
    case GetByEmail U email s of
       Inl e \<Rightarrow> Inl errInvalidCreds
     | Inr u \<Rightarrow>
    if uDisabled u then Inl errInvalidCreds
    else case Verify E plain (uPasswordHash u) of
       Inl e \<Rightarrow> Inl errInvalidCreds
     | Inr ok \<Rightarrow> if \<not> ok then Inl errInvalidCreds else Inr u)"

subsection \<open>Over any store\<close>

lemma normalizeEmail_lower: "normalizeEmail E raw = Inr e \<Longrightarrow> ToLower e = e"
  by (auto simp: normalizeEmail_def Let_def split: if_splits)

definition registered_user :: "env \<Rightarrow> register_input \<Rightarrow> string \<Rightarrow> 's world \<Rightarrow> string \<Rightarrow> user" where
  "registered_user E inp email w salt =
    zero_user\<lparr>uID := ULID E (w_ids w), uEmail := email, uName := TrimSpace (rName inp),
      uPasswordHash := phc_string salt (IDKey E (rPassword inp) salt timeCost memoryKiB threads keyLen),
      uCreatedAt := Now E\<rparr>"

context users_repo
begin

lemma Authenticate_iff:
  assumes "inv s"
  shows "Authenticate U E email plain s = Inr u \<longleftrightarrow>
    normalizeEmail E email = Inr (uEmail u) \<and> av_users (abs s) (uID u) = Some u \<and>
    \<not> uDisabled u \<and> Verify E plain (uPasswordHash u) = Inr True"
  by (auto simp: Authenticate_def get_by_email [OF assms] normalizeEmail_lower split: sum.splits if_splits)
    (metis get_by_email [OF assms] normalizeEmail_lower Inl_Inr_False sum.inject(2))+

lemma Authenticate_err:
  "normalizeEmail E email = Inr e \<Longrightarrow> Authenticate U E email plain s = Inl x \<Longrightarrow> x = errInvalidCreds"
  by (auto simp: Authenticate_def split: sum.splits if_splits)

lemma Register_ok:
  assumes "inv (w_store w)" and "Register U E inp w = (Inr u, w')"
    and fresh: "av_users (abs (w_store w)) (ULID E (w_ids w)) = None"
  shows "\<exists>email salt. normalizeEmail E (rEmail inp) = Inr email \<and> rPassword inp \<noteq> [] \<and>
      Rand E (w_draws w) saltLen = Some salt \<and> u = registered_user E inp email w salt \<and>
      (\<forall>i v. av_users (abs (w_store w)) i = Some v \<longrightarrow> uEmail v \<noteq> email) \<and> inv (w_store w') \<and>
      abs (w_store w') = (abs (w_store w))\<lparr>av_users := (av_users (abs (w_store w)))(uID u \<mapsto> u)\<rparr>"
proof -
  obtain email where em: "normalizeEmail E (rEmail inp) = Inr email"
    using assms(2) by (auto simp: Register_def split: sum.splits)
  obtain h w1 where h: "Hash_password E (rPassword inp) w = (Inr h, w1)"
    using assms(2) em by (auto simp: Register_def Let_def split: sum.splits if_splits prod.splits)
  then obtain salt where salt: "rPassword inp \<noteq> []" "Rand E (w_draws w) saltLen = Some salt"
    "w1 = w\<lparr>w_draws := w_draws w + 1\<rparr>"
    "h = phc_string salt (IDKey E (rPassword inp) salt timeCost memoryKiB threads keyLen)"
    by (auto simp: Hash_password_ok)
  let ?u = "registered_user E inp email w salt"
  have cr: "u = ?u" "fst (Create U ?u (w_store w)) = Inr ()" "w_store w' = snd (Create U ?u (w_store w))"
    using assms(2) em h salt
    by (auto simp: Register_def Let_def id_New_def registered_user_def on_store_def
        split: sum.splits if_splits prod.splits)
  have le: "ToLower (uEmail ?u) = email" "uEmail ?u = email"
    using normalizeEmail_lower [OF em] by (simp_all add: registered_user_def)
  have no: "\<forall>i v. av_users (abs (w_store w)) i = Some v \<longrightarrow> uEmail v \<noteq> email"
    using create_conflict [OF assms(1), of _ _ ?u] cr(2) le by (metis Inl_Inr_False fst_conv)
  have "av_users (abs (w_store w)) (uID ?u) = None" using fresh by (simp add: registered_user_def)
  moreover have upd: "?u\<lparr>uEmail := email\<rparr> = ?u" by (simp add: registered_user_def)
  ultimately show ?thesis using create_ok [OF assms(1), of ?u] no le cr em salt by (auto simp: upd)
qed

lemma Register_taken:
  assumes "inv (w_store w)" and "normalizeEmail E (rEmail inp) = Inr email"
    and "av_users (abs (w_store w)) i = Some v" and "uEmail v = email"
  shows "\<not> is_ok (fst (Register U E inp w)) \<and> w_store (snd (Register U E inp w)) = w_store w"
proof -
  have "Create U u (w_store w) = (Inl ErrConflict, w_store w)" if "uEmail u = email" for u
    using create_conflict [OF assms(1,3)] assms(4) that normalizeEmail_lower [OF assms(2)] by simp
  then show ?thesis
    by (simp add: Register_def assms(2) Let_def id_New_def on_store_def Hash_password_def
        split: option.splits prod.splits)
qed

lemma registered_login:
  assumes "inv (w_store w)" and "Register U E inp w = (Inr u, w')"
    and "av_users (abs (w_store w)) (ULID E (w_ids w)) = None"
    and "\<And>p s t m th k. length (IDKey E p s t m th k) = k"
    and "normalizeEmail E email = normalizeEmail E (rEmail inp)"
  shows "Authenticate U E email (rPassword inp) (w_store w') = Inr u
    \<and> (\<exists>salt. \<forall>q. Authenticate U E email q (w_store w') =
        (if q \<noteq> [] \<and> IDKey E q salt timeCost memoryKiB threads keyLen =
              IDKey E (rPassword inp) salt timeCost memoryKiB threads keyLen
         then Inr u else Inl errInvalidCreds))"
proof -
  obtain em salt where reg: "normalizeEmail E (rEmail inp) = Inr em" "rPassword inp \<noteq> []"
    "u = registered_user E inp em w salt" "inv (w_store w')"
    "av_users (abs (w_store w')) (uID u) = Some u"
    using Register_ok [OF assms(1-3)] by auto
  have em: "normalizeEmail E email = Inr em" using reg(1) assms(5) by simp
  have get: "GetByEmail U em (w_store w') = Inr u"
    using get_by_email [OF reg(4), of em u] reg normalizeEmail_lower [OF reg(1)]
    by (simp add: registered_user_def)
  have ver: "Verify E q (uPasswordHash u) = Inr (q \<noteq> [] \<and>
      IDKey E q salt timeCost memoryKiB threads keyLen =
      IDKey E (rPassword inp) salt timeCost memoryKiB threads keyLen)" for q
    using reg(3) by (simp add: registered_user_def Verify_phc_string assms(4) keyLen_def)
  have dis: "\<not> uDisabled u" using reg(3) by (simp add: registered_user_def zero_user_def)
  have "Authenticate U E email q (w_store w') =
      (if q \<noteq> [] \<and> IDKey E q salt timeCost memoryKiB threads keyLen =
            IDKey E (rPassword inp) salt timeCost memoryKiB threads keyLen
       then Inr u else Inl errInvalidCreds)" for q
    by (simp add: Authenticate_def em get dis ver)
  with reg(2) show ?thesis by auto
qed

end

subsection \<open>Properties of the accounts\<close>

text \<open>
  C17. In the memory store, a user who registered logs in with any spelling of the address that
  normalizes to the registered one (letter case, outer spaces) and the registered password,
  and with no other password unless Argon2id derives the same key from it: such a login gets
  the error that every failed login gets. Documented behaviour used: \<open>ulid.Make\<close> gives an
  identifier that is not in use, and \<open>argon2.IDKey\<close> as many bytes as it is asked for.
\<close>

theorem register_then_login:
  assumes "mem_inv (w_store w)" and "Register (Users (mem_repos it)) E inp w = (Inr u, w')"
    and "gget (st_users (w_store w)) (ULID E (w_ids w)) = None"
    and "\<And>p s t m th k. length (IDKey E p s t m th k) = k"
    and "normalizeEmail E email = normalizeEmail E (rEmail inp)"
  shows "Authenticate (Users (mem_repos it)) E email (rPassword inp) (w_store w') = Inr u
    \<and> (\<exists>salt. \<forall>q. Authenticate (Users (mem_repos it)) E email q (w_store w') =
        (if q \<noteq> [] \<and> IDKey E q salt timeCost memoryKiB threads keyLen =
              IDKey E (rPassword inp) salt timeCost memoryKiB threads keyLen
         then Inr u else Inl errInvalidCreds))"
  using mem_users.registered_login [OF assms(1,2) _ assms(4,5)] assms(3) by (simp add: mem_abs_def)

text \<open>
  C18. \<open>Authenticate\<close> on the memory store returns exactly the enabled user whose stored address is
  the normalized one and whose hash accepts the password. For an address that is well formed
  every failure is the same error, whether the address is unknown, the account is disabled or
  the password is wrong, so that a login does not show which addresses exist.
\<close>

theorem authenticate_exact:
  assumes "mem_inv s"
  shows "Authenticate (Users (mem_repos it)) E email plain s =
    (case normalizeEmail E email of
       Inl e \<Rightarrow> Inl e
     | Inr a \<Rightarrow>
         (case find (\<lambda>u. uEmail u = a \<and> \<not> uDisabled u \<and> Verify E plain (uPasswordHash u) = Inr True)
                 (map snd (st_users s)) of
            None \<Rightarrow> Inl errInvalidCreds
          | Some u \<Rightarrow> Inr u))"
proof (cases "normalizeEmail E email")
  case (Inl e)
  then show ?thesis by (simp add: Authenticate_def)
next
  case (Inr a)
  let ?P = "\<lambda>u. uEmail u = a \<and> \<not> uDisabled u \<and> Verify E plain (uPasswordHash u) = Inr True"
  let ?A = "Authenticate (Users (mem_repos it)) E email plain s"
  have ok: "?A = Inr u \<longleftrightarrow> (\<exists>i. (i, u) \<in> set (st_users s)) \<and> ?P u" for u
    using mem_users.Authenticate_iff [OF assms, of it E email plain u] Inr
      mem_users.user_key [OF assms] gget_in_set [of "st_users s"] assms
    by (auto simp: mem_abs_def mem_inv_def)
  show ?thesis
  proof (cases "find ?P (map snd (st_users s))")
    case None
    then have "\<not> (\<exists>u. ?A = Inr u)" unfolding ok by (auto simp: find_None_iff)
    then obtain e where "?A = Inl e" by (cases ?A) auto
    then show ?thesis using mem_users.Authenticate_err [OF Inr] None Inr by auto
  next
    case (Some u)
    then have "u \<in> snd ` set (st_users s) \<and> ?P u" by (auto dest!: find_SomeD)
    then have "?A = Inr u" unfolding ok by force
    then show ?thesis using Some Inr by simp
  qed
qed

text \<open>
  C19. Registering an address that an account of the memory store already has, in any spelling
  that normalizes to it, fails and leaves the store as it was.
\<close>

theorem register_taken:
  assumes "mem_inv (w_store w)" and "normalizeEmail E (rEmail inp) = Inr (uEmail v)"
    and "gget (st_users (w_store w)) i = Some v"
  shows "\<not> is_ok (fst (Register (Users (mem_repos it)) E inp w))
    \<and> w_store (snd (Register (Users (mem_repos it)) E inp w)) = w_store w"
  using mem_users.Register_taken [OF assms(1,2), of i v it] assms(3) by (simp add: mem_abs_def)

subsection \<open>Witnesses\<close>

definition sample_register :: register_input where
  "sample_register = \<lparr>rEmail = '' B@x'', rPassword = ''pw'', rName = ''Bob''\<rparr>"

lemma sample_email:
  "normalizeEmail sample_env '' B@x'' = Inr ''b@x''" "normalizeEmail sample_env ''b@X'' = Inr ''b@x''"
  "normalizeEmail sample_env ''a@x'' = Inr ''a@x''"
proof -
  have "ToLower (TrimSpace '' B@x'') = ''b@x''" "ToLower (TrimSpace ''b@X'') = ''b@x''"
    "ToLower (TrimSpace ''a@x'') = ''a@x''"
    by code_simp+
  then show "normalizeEmail sample_env '' B@x'' = Inr ''b@x''" "normalizeEmail sample_env ''b@X'' = Inr ''b@x''"
    "normalizeEmail sample_env ''a@x'' = Inr ''a@x''"
    by (simp_all add: normalizeEmail_def sample_env_def Let_def)
qed

lemma sample_bob: "TrimSpace ''Bob'' = ''Bob''"
  by code_simp

lemma sample_registered:
  "\<exists>u w'. Register (Users (mem_repos it)) sample_env sample_register sample_world = (Inr u, w')"
  by (simp add: Register_def sample_register_def sample_email sample_bob Let_def Hash_password_def
      id_New_def on_store_def mem_ops sample_store_def NewStore_def ToLower_def lower_char_def
      zero_user_def split: option.split)

theorem register_then_login_witness:
  "\<exists>u w'. Register (Users (mem_repos (\<lambda>ks. ks))) sample_env sample_register sample_world = (Inr u, w') \<and>
    Authenticate (Users (mem_repos (\<lambda>ks. ks))) sample_env ''b@X'' ''pw'' (w_store w') = Inr u"
proof -
  obtain u w' where r: "Register (Users (mem_repos (\<lambda>ks. ks))) sample_env sample_register sample_world = (Inr u, w')"
    using sample_registered by blast
  have "Authenticate (Users (mem_repos (\<lambda>ks. ks))) sample_env ''b@X'' (rPassword sample_register) (w_store w') = Inr u"
    using register_then_login [OF _ r, of "''b@X''"] sample_email
    by (simp add: sample_key_len sample_register_def)
  with r show ?thesis by (auto simp: sample_register_def)
qed

theorem authenticate_exact_witness:
  "Authenticate (Users (mem_repos (\<lambda>ks. ks))) sample_env ''a@x'' ''secret'' sample_store = Inr sample_user
    \<and> Authenticate (Users (mem_repos (\<lambda>ks. ks))) sample_env ''a@x'' ''guess'' sample_store = Inl errInvalidCreds"
  unfolding authenticate_exact [OF sample_inv]
  by (simp add: sample_email sample_store_def sample_user_def Verify_phc_string sample_key_len keyLen_def)
    (simp add: sample_env_def)

theorem register_taken_witness:
  "\<not> is_ok (fst (Register (Users (mem_repos (\<lambda>ks. ks))) sample_env
    (sample_register\<lparr>rEmail := ''a@x''\<rparr>) sample_world))"
  using register_taken [of sample_world sample_env "sample_register\<lparr>rEmail := ''a@x''\<rparr>" sample_user "''u1''" "\<lambda>ks. ks"]
    sample_email by (simp add: sample_user_def)

end
