(* ===== verification/OrgService.thy ===== *)
theory OrgService
  imports Samples
begin

section \<open>Organizations\<close>

text \<open>
  \<open>internal/org\<close>: creating a tenant with its owner, listing members, choosing the active tenant
  of a session, and the tenant that goes into the claims of a user (\<open>PrimaryOrg\<close>). The service
  uses the whole persistence surface; the lemmas hold for any store that keeps its contract.
\<close>

definition Create_org ::
  "'s repos \<Rightarrow> env \<Rightarrow> string \<Rightarrow> string \<Rightarrow> 's world \<Rightarrow> organization res \<times> 's world" where
  "Create_org R E actorID name w =
    (let name = TrimSpace name in
     if name = [] \<or> 120 < length name then (Inl ErrInvalid, w)
     else
       let now = Now E;
           (oid, w) = id_New E w;
           org = \<lparr>oID = oid, oName = name, oCreatedAt = now\<rparr>
       in case on_store (CreateOrganization (Organizations R) org) w of
            (Inl e, w) \<Rightarrow> (Inl e, w)
          | (Inr _, w) \<Rightarrow>
              (case on_store (AddOrganizationMember (Organizations R)
                       \<lparr>mOrgID = oID org, mUserID = actorID, mRole = OrgRoleOwner, mJoinedAt = now\<rparr>) w of
                 (Inl e, w) \<Rightarrow> (Inl e, w)
               | (Inr _, w) \<Rightarrow> (Inr org, w)))"

definition ListForUser :: "'s repos \<Rightarrow> string \<Rightarrow> 's \<Rightarrow> organization list res" where
  "ListForUser R userID s = ListOrganizationsForUser (Organizations R) userID s"

definition member_detail_of :: "'s repos \<Rightarrow> 's \<Rightarrow> membership \<Rightarrow> member_detail" where
  "member_detail_of R s m =
    (let detail = \<lparr>dUserID = mUserID m, dRole = org_role_string (mRole m), dEmail = [], dName = [],
                   dJoinedAt = mJoinedAt m\<rparr>
     in case GetByID (Users R) (mUserID m) s of
          Inl e \<Rightarrow> detail
        | Inr u \<Rightarrow> detail\<lparr>dEmail := uEmail u, dName := uName u\<rparr>)"

definition ListMembers :: "'s repos \<Rightarrow> string \<Rightarrow> string \<Rightarrow> 's \<Rightarrow> member_detail list res" where
  "ListMembers R actorID orgID s =
    (case GetOrganizationMembership (Organizations R) orgID actorID s of
       Inl e \<Rightarrow> Inl ErrForbidden
     | Inr _ \<Rightarrow>
         (case ListOrganizationMembers (Organizations R) orgID s of
            Inl e \<Rightarrow> Inl e
          | Inr members \<Rightarrow> Inr (map (member_detail_of R s) members)))"

definition SetActiveOrg ::
  "'s repos \<Rightarrow> string \<Rightarrow> string \<Rightarrow> string \<Rightarrow> 's world \<Rightarrow> unit res \<times> 's world" where
  "SetActiveOrg R userID sessionTokenHash orgID w =
    (case GetOrganizationMembership (Organizations R) orgID userID (w_store w) of
       Inl e \<Rightarrow> (Inl ErrForbidden, w)
     | Inr _ \<Rightarrow> on_store (SetSessionActiveOrg (Organizations R) sessionTokenHash orgID) w)"

definition SetActiveOrgBySID ::
  "'s repos \<Rightarrow> string \<Rightarrow> string \<Rightarrow> string \<Rightarrow> 's world \<Rightarrow> unit res \<times> 's world" where
  "SetActiveOrgBySID R userID sid orgID w =
    (case GetOrganizationMembership (Organizations R) orgID userID (w_store w) of
       Inl e \<Rightarrow> (Inl ErrForbidden, w)
     | Inr _ \<Rightarrow>
    case GetSessionBySID (Sessions R) sid (w_store w) of
       Inl e \<Rightarrow> (Inl ErrNotFound, w)
     | Inr sess \<Rightarrow>
    if sUserID sess \<noteq> userID then (Inl ErrForbidden, w)
    else on_store (SetSessionActiveOrgBySID (Organizations R) sid orgID) w)"

fun membership_views_of :: "'s repos \<Rightarrow> 's \<Rightarrow> string \<Rightarrow> organization list \<Rightarrow> membership_view list" where
  "membership_views_of R s userID [] = []"
| "membership_views_of R s userID (org # orgs) =
    (case GetOrganizationMembership (Organizations R) (oID org) userID s of
       Inl e \<Rightarrow> membership_views_of R s userID orgs
     | Inr m \<Rightarrow>
         \<lparr>vOrgID = oID org, vOrgName = oName org, vRole = org_role_string (mRole m)\<rparr> #
         membership_views_of R s userID orgs)"

definition MembershipViews :: "'s repos \<Rightarrow> string \<Rightarrow> 's \<Rightarrow> membership_view list res" where
  "MembershipViews R userID s =
    (case ListOrganizationsForUser (Organizations R) userID s of
       Inl e \<Rightarrow> Inl e
     | Inr orgs \<Rightarrow> Inr (membership_views_of R s userID orgs))"

definition activeOrgID :: "'s repos \<Rightarrow> string \<Rightarrow> 's \<Rightarrow> string" where
  "activeOrgID R sessionSID s =
    (if sessionSID = [] then []
     else case GetSessionBySID (Sessions R) sessionSID s of
       Inl e \<Rightarrow> []
     | Inr sess \<Rightarrow> sActiveOrgID sess)"

definition PrimaryOrg ::
  "'s repos \<Rightarrow> string \<Rightarrow> string \<Rightarrow> 's \<Rightarrow> (membership_view \<times> membership_view list) res" where
  "PrimaryOrg R userID sessionSID s =
    (case MembershipViews R userID s of
       Inl e \<Rightarrow> Inl e
     | Inr views \<Rightarrow>
    if views = [] then Inl ErrNotFound
    else
      let act = activeOrgID R sessionSID s
      in if act \<noteq> [] then
           (case find (\<lambda>v. vOrgID v = act) views of
              Some v \<Rightarrow> Inr (v, views)
            | None \<Rightarrow> Inr (views ! 0, views))
         else Inr (views ! 0, views))"

subsection \<open>Over any store\<close>

definition primary_view :: "string \<Rightarrow> membership_view list \<Rightarrow> membership_view" where
  "primary_view act views =
    (case (if act = [] then None else find (\<lambda>v. vOrgID v = act) views) of
       None \<Rightarrow> views ! 0
     | Some v \<Rightarrow> v)"

lemma primary_view_in: "views \<noteq> [] \<Longrightarrow> primary_view act views \<in> set views"
  by (auto simp: primary_view_def dest: find_SomeD split: option.split)

lemma primary_view_act:
  assumes "act \<in> set (map vOrgID views)" and "act \<noteq> []"
  shows "vOrgID (primary_view act views) = act"
proof (cases "find (\<lambda>v. vOrgID v = act) views")
  case None
  with assms(1) show ?thesis by (auto simp: find_None_iff)
next
  case (Some v)
  with assms(2) show ?thesis by (auto simp: primary_view_def dest: find_SomeD)
qed

lemma PrimaryOrg_eq:
  assumes "MembershipViews R u s = Inr views"
  shows "PrimaryOrg R u sid s =
    (if views = [] then Inl ErrNotFound else Inr (primary_view (activeOrgID R sid s) views, views))"
  by (simp add: PrimaryOrg_def assms Let_def primary_view_def split: option.split)

text \<open>The view of a membership, and the membership views a user should have.\<close>

definition is_view :: "astore \<Rightarrow> string \<Rightarrow> membership_view \<Rightarrow> bool" where
  "is_view a userID v \<longleftrightarrow> (\<exists>org m. av_orgs a (vOrgID v) = Some org \<and>
    av_members a (vOrgID v) userID = Some m \<and> vOrgName v = oName org \<and>
    vRole v = org_role_string (mRole m))"

context repos_contract
begin

lemma views_eq:
  assumes "inv s" and "set os \<subseteq> {org. \<exists>i. av_members (abs s) i u \<noteq> None \<and> av_orgs (abs s) i = Some org}"
  shows "map vOrgID (membership_views_of R s u os) = map oID os \<and>
    (\<forall>v \<in> set (membership_views_of R s u os). is_view (abs s) u v)"
  using assms(2)
proof (induction os)
  case Nil
  then show ?case by simp
next
  case (Cons org os)
  then obtain i m where i: "av_members (abs s) i u = Some m" "av_orgs (abs s) i = Some org" by auto
  then have "oID org = i" using org_key [OF assms(1)] by blast
  with Cons i show ?case by (auto simp: get_membership is_view_def)
qed

lemma MembershipViews_ok:
  assumes "inv s"
  obtains views where "MembershipViews R u s = Inr views"
    and "\<forall>v \<in> set views. is_view (abs s) u v" and "distinct (map vOrgID views)"
    and "set (map vOrgID views) = {i. av_members (abs s) i u \<noteq> None \<and> av_orgs (abs s) i \<noteq> None}"
proof -
  obtain os where os: "ListOrganizationsForUser (Organizations R) u s = Inr os"
    "set os = {org. \<exists>i. av_members (abs s) i u \<noteq> None \<and> av_orgs (abs s) i = Some org}"
    "distinct (map oID os)"
    using list_for_user [OF assms] by blast
  have m: "map vOrgID (membership_views_of R s u os) = map oID os"
    "\<forall>v \<in> set (membership_views_of R s u os). is_view (abs s) u v"
    using views_eq [OF assms] os(2) by blast+
  have "set (map oID os) = {i. av_members (abs s) i u \<noteq> None \<and> av_orgs (abs s) i \<noteq> None}"
    using os(2) org_key [OF assms] by force
  then show ?thesis using that [of "membership_views_of R s u os"] m os by (simp add: MembershipViews_def)
qed

lemma PrimaryOrg_ok:
  assumes "inv s" and "PrimaryOrg R u sid s = Inr (v, views)"
  shows "is_view (abs s) u v" and "MembershipViews R u s = Inr views" and "v \<in> set views"
    and "activeOrgID R sid s \<in> set (map vOrgID views) \<Longrightarrow> activeOrgID R sid s \<noteq> [] \<Longrightarrow> vOrgID v = activeOrgID R sid s"
proof -
  obtain vs where vs: "MembershipViews R u s = Inr vs" "\<forall>v \<in> set vs. is_view (abs s) u v"
    using MembershipViews_ok [OF assms(1)] by metis
  then have v: "vs = views" "views \<noteq> []" "v = primary_view (activeOrgID R sid s) views"
    using assms(2) by (auto simp: PrimaryOrg_eq [OF vs(1)] split: if_splits)
  then show "is_view (abs s) u v" "MembershipViews R u s = Inr views" "v \<in> set views"
    using vs primary_view_in by auto
  show "vOrgID v = activeOrgID R sid s"
    if "activeOrgID R sid s \<in> set (map vOrgID views)" "activeOrgID R sid s \<noteq> []"
    using primary_view_act [OF that] v(3) by simp
qed

lemma PrimaryOrg_err:
  assumes "inv s"
  shows "(\<exists>e. PrimaryOrg R u sid s = Inl e) \<longleftrightarrow>
    (\<forall>i. av_members (abs s) i u = None \<or> av_orgs (abs s) i = None)"
proof -
  obtain vs where vs: "MembershipViews R u s = Inr vs"
    "set (map vOrgID vs) = {i. av_members (abs s) i u \<noteq> None \<and> av_orgs (abs s) i \<noteq> None}"
    by (rule MembershipViews_ok [OF assms])
  have "(\<exists>e. PrimaryOrg R u sid s = Inl e) \<longleftrightarrow> vs = []"
    by (simp add: PrimaryOrg_eq [OF vs(1)])
  also have "\<dots> \<longleftrightarrow> set (map vOrgID vs) = {}" by simp
  finally show ?thesis unfolding vs(2) by auto
qed

lemma SetActiveOrg_eq:
  "SetActiveOrg R u h i w =
    (if av_members (abs (w_store w)) i u = None then (Inl ErrForbidden, w)
     else on_store (SetSessionActiveOrg (Organizations R) h i) w)"
  by (cases "av_members (abs (w_store w)) i u") (simp_all add: SetActiveOrg_def get_membership)

lemma SetActiveOrg_ok:
  assumes "inv (w_store w)" and "SetActiveOrg R u h i w = (Inr (), w')"
  shows "av_members (abs (w_store w)) i u \<noteq> None"
    and "\<exists>x. av_sessions (abs (w_store w)) h = Some x \<and> inv (w_store w') \<and>
      abs (w_store w') = (abs (w_store w))\<lparr>av_sessions := (av_sessions (abs (w_store w)))(h \<mapsto> x\<lparr>sActiveOrgID := i\<rparr>)\<rparr>"
proof -
  show m: "av_members (abs (w_store w)) i u \<noteq> None"
    using assms(2) by (cases "av_members (abs (w_store w)) i u") (simp_all add: SetActiveOrg_eq)
  let ?r = "SetSessionActiveOrg (Organizations R) h i (w_store w)"
  have r: "fst ?r = Inr ()" "w_store w' = snd ?r"
    using arg_cong [OF assms(2), of fst] arg_cong [OF assms(2), of snd] m
    by (auto simp: SetActiveOrg_eq)
  obtain x where x: "av_sessions (abs (w_store w)) h = Some x"
    using set_active_missing [of "w_store w" h i] r(1) by (cases "av_sessions (abs (w_store w)) h") simp_all
  show "\<exists>x. av_sessions (abs (w_store w)) h = Some x \<and> inv (w_store w') \<and>
      abs (w_store w') = (abs (w_store w))\<lparr>av_sessions := (av_sessions (abs (w_store w)))(h \<mapsto> x\<lparr>sActiveOrgID := i\<rparr>)\<rparr>"
    using set_active [OF assms(1) x, of i] x unfolding r(2) by blast
qed

lemma SetActiveOrgBySID_ok:
  assumes "inv (w_store w)" and "SetActiveOrgBySID R u sid i w = (Inr (), w')"
  shows "av_members (abs (w_store w)) i u \<noteq> None"
    and "\<exists>x h. av_sessions (abs (w_store w)) h = Some x \<and> sSID x = sid \<and> sUserID x = u"
proof -
  from assms(2) show "av_members (abs (w_store w)) i u \<noteq> None"
    by (auto simp: SetActiveOrgBySID_def get_membership found_def split: option.splits)
  from assms(2) obtain x where "GetSessionBySID (Sessions R) sid (w_store w) = Inr x" "sUserID x = u"
    by (auto simp: SetActiveOrgBySID_def split: sum.splits if_splits)
  with get_by_sid [OF assms(1)] show "\<exists>x h. av_sessions (abs (w_store w)) h = Some x \<and> sSID x = sid \<and> sUserID x = u"
    by blast
qed

lemma Create_org_ok:
  assumes "inv (w_store w)" and "Create_org R E actor name w = (Inr org, w')"
    and "av_orgs (abs (w_store w)) (ULID E (w_ids w)) = None"
    and "\<And>u. av_members (abs (w_store w)) (ULID E (w_ids w)) u = None"
    and "av_users (abs (w_store w)) actor \<noteq> None"
  shows "inv (w_store w') \<and> org = \<lparr>oID = ULID E (w_ids w), oName = TrimSpace name, oCreatedAt = Now E\<rparr> \<and>
    abs (w_store w') = (abs (w_store w))\<lparr>
      av_orgs := (av_orgs (abs (w_store w)))(oID org \<mapsto> org),
      av_members := (av_members (abs (w_store w)))(oID org :=
        [actor \<mapsto> \<lparr>mOrgID = oID org, mUserID = actor, mRole = OrgRoleOwner, mJoinedAt = Now E\<rparr>])\<rparr>"
proof -
  let ?org = "\<lparr>oID = ULID E (w_ids w), oName = TrimSpace name, oCreatedAt = Now E\<rparr>"
  let ?s = "snd (CreateOrganization (Organizations R) ?org (w_store w))"
  let ?m = "\<lparr>mOrgID = oID ?org, mUserID = actor, mRole = OrgRoleOwner, mJoinedAt = Now E\<rparr>"
  have c: "fst (CreateOrganization (Organizations R) ?org (w_store w)) = Inr ()" "inv ?s"
    "abs ?s = (abs (w_store w))\<lparr>av_orgs := (av_orgs (abs (w_store w)))(oID ?org \<mapsto> ?org)\<rparr>"
    using create_org [OF assms(1), of ?org] assms(3) by simp_all
  have none: "av_members (abs (w_store w)) (ULID E (w_ids w)) = Map.empty" using assms(4) by blast
  have m: "fst (AddOrganizationMember (Organizations R) ?m ?s) = Inr ()"
    "inv (snd (AddOrganizationMember (Organizations R) ?m ?s))"
    "abs (snd (AddOrganizationMember (Organizations R) ?m ?s)) =
      (abs ?s)\<lparr>av_members := (av_members (abs ?s))(oID ?org := (av_members (abs ?s) (oID ?org))(actor \<mapsto> ?m))\<rparr>"
    using add_member [OF c(2), of ?m] assms(5) by (simp_all add: c(3) none)
  have "org = ?org \<and> w_store w' = snd (AddOrganizationMember (Organizations R) ?m ?s)"
    using assms(2) c(1) m(1)
    by (auto simp: Create_org_def Let_def id_New_def on_store_def split: if_splits prod.splits)
  then show ?thesis using m c(3) by (simp add: none)
qed

end

subsection \<open>Properties\<close>

text \<open>
  C27. The organization that goes into a user's claims is one the user belongs to now, with its
  current name and the user's current role; and it is the active organization of the session
  whenever the user still belongs to that one, so that a stale choice never leaks into a token.
\<close>

theorem primary_org_current:
  assumes "mem_inv s" and "PrimaryOrg (mem_repos it) u sid s = Inr (v, views)"
  shows "v \<in> set views
    \<and> (\<exists>org m. mem_GetOrganization (vOrgID v) s = Inr org \<and> mem_GetOrganizationMembership (vOrgID v) u s = Inr m
        \<and> vOrgName v = oName org \<and> vRole v = org_role_string (mRole m))
    \<and> (activeOrgID (mem_repos it) sid s \<noteq> [] \<and>
        is_ok (mem_GetOrganization (activeOrgID (mem_repos it) sid s) s) \<and>
        is_ok (mem_GetOrganizationMembership (activeOrgID (mem_repos it) sid s) u s) \<longrightarrow>
        vOrgID v = activeOrgID (mem_repos it) sid s)"
proof -
  let ?a = "activeOrgID (mem_repos it) sid s"
  have org: "mem_GetOrganization i s = found (av_orgs (mem_abs s) i)"
    and mem: "mem_GetOrganizationMembership i u s = found (av_members (mem_abs s) i u)" for i
    using mem_organizations.get_org [of it i s] mem_organizations.get_membership [of it i u s] by simp_all
  note p = mem.PrimaryOrg_ok [OF assms]
  obtain vs where vs: "MembershipViews (mem_repos it) u s = Inr vs"
    "set (map vOrgID vs) = {i. av_members (mem_abs s) i u \<noteq> None \<and> av_orgs (mem_abs s) i \<noteq> None}"
    by (rule mem.MembershipViews_ok [OF assms(1)])
  have act: "?a \<in> set (map vOrgID views)"
    if "is_ok (mem_GetOrganization ?a s)" "is_ok (mem_GetOrganizationMembership ?a u s)"
  proof -
    have "vs = views" using vs(1) p(2) by simp
    then show ?thesis using that vs(2) by (auto simp: is_ok_iff org mem)
  qed
  then have "?a \<noteq> [] \<and> is_ok (mem_GetOrganization ?a s) \<and> is_ok (mem_GetOrganizationMembership ?a u s) \<longrightarrow> vOrgID v = ?a"
    using p(4) by blast
  moreover have "\<exists>org m. mem_GetOrganization (vOrgID v) s = Inr org \<and> mem_GetOrganizationMembership (vOrgID v) u s = Inr m
        \<and> vOrgName v = oName org \<and> vRole v = org_role_string (mRole m)"
    using p(1) by (auto simp: is_view_def org mem)
  ultimately show ?thesis using p(3) by blast
qed

text \<open>
  Choosing an active organization fails with \<open>ErrForbidden\<close> and changes nothing unless the user
  is a member of it; when it succeeds, exactly the given session gets the new choice.
\<close>

theorem set_active_org_member:
  assumes "mem_inv (w_store w)"
  shows "(\<not> is_ok (mem_GetOrganizationMembership orgID userID (w_store w)) \<longrightarrow>
      SetActiveOrg (mem_repos it) userID h orgID w = (Inl ErrForbidden, w))
    \<and> (\<forall>w'. SetActiveOrg (mem_repos it) userID h orgID w = (Inr (), w') \<longrightarrow>
      is_ok (mem_GetOrganizationMembership orgID userID (w_store w)) \<and>
      (\<exists>x. gget (st_sessions (w_store w)) h = Some x \<and>
        w_store w' = (w_store w)\<lparr>st_sessions := gput h (x\<lparr>sActiveOrgID := orgID\<rparr>) (st_sessions (w_store w))\<rparr>))"
proof (intro conjI allI impI)
  let ?m = "mem_GetOrganizationMembership orgID userID (w_store w)"
  show "SetActiveOrg (mem_repos it) userID h orgID w = (Inl ErrForbidden, w)" if "\<not> is_ok ?m"
    using that by (cases ?m) (simp_all add: SetActiveOrg_def)
  fix w' assume ok: "SetActiveOrg (mem_repos it) userID h orgID w = (Inr (), w')"
  show m: "is_ok ?m" using ok by (cases ?m) (simp_all add: SetActiveOrg_def)
  show "\<exists>x. gget (st_sessions (w_store w)) h = Some x \<and>
      w_store w' = (w_store w)\<lparr>st_sessions := gput h (x\<lparr>sActiveOrgID := orgID\<rparr>) (st_sessions (w_store w))\<rparr>"
    using ok m by (cases ?m)
      (auto simp: SetActiveOrg_def on_store_def mem_SetSessionActiveOrg_def Let_def split: option.splits prod.splits)
qed

subsection \<open>Witnesses\<close>

definition org_store :: store where
  "org_store = sample_store\<lparr>
     st_orgs := [(''o1'', \<lparr>oID = ''o1'', oName = ''One'', oCreatedAt = 1\<rparr>), (''o2'', \<lparr>oID = ''o2'', oName = ''Two'', oCreatedAt = 2\<rparr>)],
     st_orgMembers :=
       [(''o1'', [(''u1'', \<lparr>mOrgID = ''o1'', mUserID = ''u1'', mRole = OrgRoleMember, mJoinedAt = 1\<rparr>)]),
        (''o2'', [(''u1'', \<lparr>mOrgID = ''o2'', mUserID = ''u1'', mRole = OrgRoleOwner, mJoinedAt = 2\<rparr>)])],
     st_sessions := [(''h'', \<lparr>sTokenHash = ''h'', sUserID = ''u1'', sSID = ''s'', sActiveOrgID = ''o2'', sExpiresAt = 9\<rparr>)]\<rparr>"

lemma org_store_inv: "mem_inv org_store"
  using sample_inv by (simp add: org_store_def mem_inv_def gball_def)

theorem primary_org_current_witness:
  "\<exists>v views. PrimaryOrg (mem_repos (\<lambda>ks. ks)) ''u1'' ''s'' org_store = Inr (v, views) \<and>
    vOrgID v = ''o2'' \<and> vRole v = ''owner''"
proof -
  have act: "activeOrgID (mem_repos (\<lambda>ks. ks)) ''s'' org_store = ''o2''"
    by (simp add: activeOrgID_def mem_GetSessionBySID_def org_store_def range_vals_def range_map_def visit_def
        List.map_filter_def)
  have m: "mem_GetOrganizationMembership ''o2'' ''u1'' org_store =
      Inr \<lparr>mOrgID = ''o2'', mUserID = ''u1'', mRole = OrgRoleOwner, mJoinedAt = 2\<rparr>"
    by (simp add: mem_GetOrganizationMembership_def org_store_def)
  have o2: "mem_GetOrganization ''o2'' org_store = Inr \<lparr>oID = ''o2'', oName = ''Two'', oCreatedAt = 2\<rparr>"
    by (simp add: mem_GetOrganization_def org_store_def)
  have "\<not> (\<exists>e. PrimaryOrg (mem_repos (\<lambda>ks. ks)) ''u1'' ''s'' org_store = Inl e)"
    unfolding mem.PrimaryOrg_err [OF org_store_inv]
    by (auto simp: mem_abs_def members_view_def org_store_def intro!: exI [of _ "''o2''"])
  then obtain v views where p: "PrimaryOrg (mem_repos (\<lambda>ks. ks)) ''u1'' ''s'' org_store = Inr (v, views)"
    by (cases "PrimaryOrg (mem_repos (\<lambda>ks. ks)) ''u1'' ''s'' org_store") auto
  from primary_org_current [OF org_store_inv p] act m o2 p show ?thesis by auto
qed

theorem set_active_org_member_witness:
  "SetActiveOrg (mem_repos (\<lambda>ks. ks)) ''u1'' ''h'' ''o9'' (sample_world\<lparr>w_store := org_store\<rparr>) =
    (Inl ErrForbidden, sample_world\<lparr>w_store := org_store\<rparr>)"
proof -
  have "\<not> is_ok (mem_GetOrganizationMembership ''o9'' ''u1'' org_store)"
    by (simp add: mem_GetOrganizationMembership_def org_store_def)
  with set_active_org_member [of "sample_world\<lparr>w_store := org_store\<rparr>"] org_store_inv show ?thesis by simp
qed

end
