(* ===== verification/Signer.thy ===== *)
theory Signer
  imports OrgService
begin

section \<open>Signed tokens\<close>

text \<open>
  \<open>internal/oidc/signer.go\<close>: the claims of ID tokens and logout tokens, and what is read of an
  \<open>id_token_hint\<close>. Building, signing and parsing JWTs is the jwx library's (\<open>SignJWT\<close>,
  \<open>ParseJWT\<close> of \<open>env\<close>); the claims it is given are modelled, with instants as the numeric
  dates (whole seconds) that it serializes. Loading and generating the RSA key is in \<open>Start\<close>.
\<close>

record id_token_input =
  itIssuer :: string
  itSubject :: string
  itAudience :: string
  itNonce :: string
  itEmail :: string
  itName :: string
  itVerified :: bool
  itSID :: string
  itOrgID :: string
  itOrgRole :: string
  itNow :: int
  itTTL :: int

definition numeric_date :: "int \<Rightarrow> json" where
  "numeric_date t = JNum (t div second)"

definition id_token_claims :: "id_token_input \<Rightarrow> claims" where
  "id_token_claims inp =
    [(''iss'', JStr (itIssuer inp)), (''sub'', JStr (itSubject inp)),
     (''aud'', JArr [JStr (itAudience inp)]), (''iat'', numeric_date (itNow inp)),
     (''exp'', numeric_date (itNow inp + itTTL inp)), (''nonce'', JStr (itNonce inp)),
     (''email'', JStr (itEmail inp)), (''email_verified'', JBool (itVerified inp)),
     (''name'', JStr (itName inp))] @
    (if itSID inp \<noteq> [] then [(''sid'', JStr (itSID inp))] else []) @
    (if itOrgID inp \<noteq> [] then [(''org_id'', JStr (itOrgID inp))] else []) @
    (if itOrgRole inp \<noteq> [] then [(''org_role'', JStr (itOrgRole inp))] else [])"

definition SignIDToken :: "env \<Rightarrow> id_token_input \<Rightarrow> string res" where
  "SignIDToken E inp =
    (case SignJWT E (id_token_claims inp) of None \<Rightarrow> Inl (ErrOther ''jwt'') | Some raw \<Rightarrow> Inr raw)"

definition LogoutTokenEvent :: string where
  "LogoutTokenEvent = ''http://schemas.openid.net/event/backchannel-logout''"

record logout_token_input =
  ltIssuer :: string
  ltSubject :: string
  ltAudience :: string
  ltSID :: string
  ltJTI :: string
  ltNow :: int
  ltTTL :: int

definition logout_token_claims :: "logout_token_input \<Rightarrow> claims" where
  "logout_token_claims inp =
    [(''iss'', JStr (ltIssuer inp)), (''aud'', JArr [JStr (ltAudience inp)]),
     (''iat'', numeric_date (ltNow inp)), (''exp'', numeric_date (ltNow inp + ltTTL inp)),
     (''jti'', JStr (ltJTI inp)), (''events'', JObj [(LogoutTokenEvent, JObj [])])] @
    (if ltSubject inp \<noteq> [] then [(''sub'', JStr (ltSubject inp))] else []) @
    (if ltSID inp \<noteq> [] then [(''sid'', JStr (ltSID inp))] else [])"

definition SignLogoutToken :: "env \<Rightarrow> logout_token_input \<Rightarrow> string res" where
  "SignLogoutToken E inp =
    (if ltSubject inp = [] \<and> ltSID inp = [] then Inl (ErrOther ''logout_token needs sub or sid'')
     else case SignJWT E (logout_token_claims inp) of
       None \<Rightarrow> Inl (ErrOther ''jwt'')
     | Some raw \<Rightarrow> Inr raw)"

record id_token_hint =
  ihIssuer :: string
  ihSubject :: string
  ihAudience :: "string list"

definition claim_string :: "claims \<Rightarrow> string \<Rightarrow> string" where
  "claim_string c k = (case map_of c k of Some (JStr s) \<Rightarrow> s | _ \<Rightarrow> [])"

fun json_strings :: "json list \<Rightarrow> string list" where
  "json_strings [] = []"
| "json_strings (JStr s # js) = s # json_strings js"
| "json_strings (j # js) = json_strings js"

definition claim_strings :: "claims \<Rightarrow> string \<Rightarrow> string list" where
  "claim_strings c k =
    (case map_of c k of Some (JArr js) \<Rightarrow> json_strings js | Some (JStr s) \<Rightarrow> [s] | _ \<Rightarrow> [])"

definition ParseIDTokenHint :: "env \<Rightarrow> string \<Rightarrow> id_token_hint res" where
  "ParseIDTokenHint E compact =
    (if compact = [] then Inl (ErrOther ''empty id_token_hint'')
     else case ParseJWT E compact of
       None \<Rightarrow> Inl (ErrOther ''jwt'')
     | Some tok \<Rightarrow>
         Inr \<lparr>ihIssuer = claim_string tok ''iss'', ihSubject = claim_string tok ''sub'',
              ihAudience = claim_strings tok ''aud''\<rparr>)"

text \<open>
  Documented behaviour of the library: a token it signed parses, with its claims, under the
  same key set; a compact token is not the empty string.
\<close>

definition jwt_faithful :: "env \<Rightarrow> bool" where
  "jwt_faithful E \<longleftrightarrow> (\<forall>c raw. SignJWT E c = Some raw \<longrightarrow> raw \<noteq> [] \<and> ParseJWT E raw = Some c)"

text \<open>A token that the server signed, read as a hint, however long ago it expired.\<close>

lemma id_token_hint:
  assumes "jwt_faithful E" and "SignIDToken E inp = Inr raw" and "ParseJWT E' = ParseJWT E"
  shows "raw \<noteq> []" and "ParseIDTokenHint E' raw =
      Inr \<lparr>ihIssuer = itIssuer inp, ihSubject = itSubject inp, ihAudience = [itAudience inp]\<rparr>"
proof -
  show "raw \<noteq> []" using assms by (auto simp: SignIDToken_def jwt_faithful_def split: option.splits)
  moreover have "ParseJWT E' raw = Some (id_token_claims inp)"
    using assms by (auto simp: SignIDToken_def jwt_faithful_def split: option.splits)
  ultimately show "ParseIDTokenHint E' raw =
      Inr \<lparr>ihIssuer = itIssuer inp, ihSubject = itSubject inp, ihAudience = [itAudience inp]\<rparr>"
    by (auto simp: ParseIDTokenHint_def id_token_claims_def claim_string_def claim_strings_def)
qed

end
