(* ===== verification/RateLimit.thy ===== *)
theory RateLimit
  imports Runtime
begin

section \<open>The login limiter\<close>

text \<open>
  \<open>internal/ratelimit/limiter.go\<close>: a sliding window of failure times per key. \<open>prune\<close> drops
  the times that have left the window and the keys that have none left; \<open>Limited\<close>, \<open>Failure\<close>
  and \<open>Success\<close> are the three locked methods, over the map \<open>hits\<close> and the clock.
\<close>

record limiter =
  Window :: int
  MaxHits :: int

definition New_limiter :: "int \<Rightarrow> int \<Rightarrow> limiter" where
  "New_limiter max_failures window =
    \<lparr>Window = (if window \<le> 0 then minute else window),
     MaxHits = (if max_failures \<le> 0 then 5 else max_failures)\<rparr>"

definition hits_of :: "int list gomap \<Rightarrow> string \<Rightarrow> int list" where
  "hits_of hits key = (case gget hits key of None \<Rightarrow> [] | Some ts \<Rightarrow> ts)"

definition prune :: "limiter \<Rightarrow> int \<Rightarrow> string \<Rightarrow> int list gomap \<Rightarrow> int list \<times> int list gomap" where
  "prune L now key hits =
    (let cut = now - Window L;
         out = filter (\<lambda>t. cut < t) (hits_of hits key)
     in if out = [] then ([], gdel key hits) else (out, gput key out hits))"

definition Limited :: "limiter \<Rightarrow> int \<Rightarrow> string \<Rightarrow> int list gomap \<Rightarrow> bool \<times> int list gomap" where
  "Limited L now key hits =
    (let (out, hits) = prune L now key hits in (MaxHits L \<le> int (length out), hits))"

definition Failure :: "limiter \<Rightarrow> int \<Rightarrow> string \<Rightarrow> int list gomap \<Rightarrow> int list gomap" where
  "Failure L now key hits = (let (out, hits) = prune L now key hits in gput key (out @ [now]) hits)"

definition Success :: "string \<Rightarrow> int list gomap \<Rightarrow> int list gomap" where
  "Success key hits = gdel key hits"

subsection \<open>Concurrent guesses\<close>

text \<open>
  What \<open>handleLogin\<close> does with the limiter, for any number of requests at once. A request asks
  \<open>Limited\<close>; when it may go on, it compares the password, which takes its time, and then calls
  \<open>Failure\<close> or \<open>Success\<close>. Each call holds the lock of the limiter, and calls of different
  requests interleave in any way. \<open>guess_run L tr hits open_keys\<close>: the calls \<open>tr\<close>, in the order of
  their times, lead to \<open>hits\<close>, and \<open>open_keys\<close> are the keys of the guesses that are being compared.
\<close>

datatype guess_event = Passed | Refused | Failed | Succeeded

inductive guess_run :: "limiter \<Rightarrow> (int \<times> string \<times> guess_event) list \<Rightarrow> int list gomap \<Rightarrow> string list \<Rightarrow> bool"
  for L :: limiter where
  start: "guess_run L [] [] []"
| asks: "guess_run L tr hits ks \<Longrightarrow> \<forall>e \<in> set tr. fst e \<le> now \<Longrightarrow> Limited L now key hits = (limited, hits') \<Longrightarrow>
    guess_run L (tr @ [(now, key, if limited then Refused else Passed)]) hits' (if limited then ks else key # ks)"
| fails: "guess_run L tr hits ks \<Longrightarrow> \<forall>e \<in> set tr. fst e \<le> now \<Longrightarrow> key \<in> set ks \<Longrightarrow>
    guess_run L (tr @ [(now, key, Failed)]) (Failure L now key hits) (remove1 key ks)"
| succeeds: "guess_run L tr hits ks \<Longrightarrow> \<forall>e \<in> set tr. fst e \<le> now \<Longrightarrow> key \<in> set ks \<Longrightarrow>
    guess_run L (tr @ [(now, key, Succeeded)]) (Success key hits) (remove1 key ks)"

subsection \<open>Lemmas\<close>

definition recent :: "limiter \<Rightarrow> int \<Rightarrow> string \<Rightarrow> int list gomap \<Rightarrow> int list" where
  "recent L now key hits = filter (\<lambda>t. now - Window L < t) (hits_of hits key)"

lemma hits_of_simps [simp]:
  "hits_of [] key = []"
  "hits_of (gput k ts hits) key = (if key = k then ts else hits_of hits key)"
  "hits_of (gdel k hits) key = (if key = k then [] else hits_of hits key)"
  by (auto simp: hits_of_def)

lemma fst_prune: "fst (prune L now key hits) = recent L now key hits"
  by (simp add: prune_def recent_def Let_def)

lemma hits_prune:
  "hits_of (snd (prune L now key hits)) k = (if k = key then recent L now key hits else hits_of hits k)"
  by (simp add: prune_def recent_def Let_def)

lemma Limited_iff: "fst (Limited L now key hits) \<longleftrightarrow> MaxHits L \<le> int (length (recent L now key hits))"
  by (simp add: Limited_def fst_prune [symmetric] split: prod.split)

lemma hits_Limited:
  "hits_of (snd (Limited L now key hits)) k = (if k = key then recent L now key hits else hits_of hits k)"
  by (simp only: hits_prune [symmetric]) (simp add: Limited_def split: prod.split)

lemma hits_Failure:
  "hits_of (Failure L now key hits) k =
    (if k = key then recent L now key hits @ [now] else hits_of hits k)"
  using hits_prune [of L now key hits k] fst_prune [of L now key hits]
  by (cases "prune L now key hits") (simp add: Failure_def)

lemma hits_Success: "hits_of (Success key hits) k = (if k = key then [] else hits_of hits k)"
  by (simp add: Success_def)

subsection \<open>The window bound\<close>

abbreviation in_window :: "limiter \<Rightarrow> int \<Rightarrow> int \<Rightarrow> bool" where
  "in_window L t \<equiv> \<lambda>x. t - Window L < x \<and> x \<le> t"

text \<open>How many events of one kind a run has for a key, in all and in the stretch that ends at \<open>t\<close>.\<close>

definition events :: "string \<Rightarrow> guess_event \<Rightarrow> (int \<times> string \<times> guess_event) list \<Rightarrow> int" where
  "events key ev tr = int (length (filter (\<lambda>(now, k, e). k = key \<and> e = ev) tr))"

definition events_in :: "limiter \<Rightarrow> int \<Rightarrow> string \<Rightarrow> guess_event \<Rightarrow> (int \<times> string \<times> guess_event) list \<Rightarrow> int" where
  "events_in L t key ev tr = int (length (filter (\<lambda>(now, k, e). k = key \<and> e = ev \<and> in_window L t now) tr))"

text \<open>The guesses for a key whose password is being compared after the calls \<open>tr\<close>.\<close>

definition open_guesses :: "string \<Rightarrow> (int \<times> string \<times> guess_event) list \<Rightarrow> int" where
  "open_guesses key tr = events key Passed tr - events key Failed tr - events key Succeeded tr"

lemma events_simps [simp]:
  "events key ev [] = 0" "events_in L t key ev [] = 0" "open_guesses key [] = 0"
  "events key ev (tr @ [(now, k, e)]) = events key ev tr + (if k = key \<and> e = ev then 1 else 0)"
  "events_in L t key ev (tr @ [(now, k, e)]) =
    events_in L t key ev tr + (if k = key \<and> e = ev \<and> in_window L t now then 1 else 0)"
  by (simp_all add: events_def events_in_def open_guesses_def)

lemma open_guesses_snoc [simp]:
  "open_guesses key (tr @ [(now, k, e)]) = open_guesses key tr +
    (if k \<noteq> key then 0 else if e = Passed then 1 else if e = Refused then 0 else - 1)"
  by (cases e) (simp_all add: open_guesses_def)

lemma open_guesses_count: "guess_run L tr hits ks \<Longrightarrow> open_guesses key tr = int (count_list ks key)"
proof (induction rule: guess_run.induct)
  case (fails tr hits ks now k)
  then have "k = key \<Longrightarrow> 0 < count_list ks key" using count_list_0_iff [of ks key] by simp
  with fails show ?case by (auto simp: count_list_remove1)
next
  case (succeeds tr hits ks now k)
  then have "k = key \<Longrightarrow> 0 < count_list ks key" using count_list_0_iff [of ks key] by simp
  with succeeds show ?case by (auto simp: count_list_remove1)
qed auto

lemma open_guesses_nonneg: "guess_run L tr hits ks \<Longrightarrow> 0 \<le> open_guesses key tr"
  by (simp add: open_guesses_count)

lemma events_before: "\<forall>e \<in> set tr. fst e \<le> t - Window L \<Longrightarrow> events_in L t key ev tr = 0"
  by (fastforce simp: events_in_def filter_empty_conv)

lemma recent_window:
  "now \<le> t \<Longrightarrow> filter (in_window L t) (recent L now key hits) = filter (in_window L t) (hits_of hits key)"
  by (auto simp: recent_def intro!: filter_cong)

text \<open>
  The failures that fall into the stretch are still recorded while it lasts, and every guess that
  passed in it has failed in it or is still open.
\<close>

definition window_inv :: "limiter \<Rightarrow> int \<Rightarrow> string \<Rightarrow> (int \<times> string \<times> guess_event) list \<Rightarrow> int list gomap \<Rightarrow> bool" where
  "window_inv L t key tr hits \<longleftrightarrow>
    events_in L t key Failed tr \<le> int (length (filter (in_window L t) (hits_of hits key))) \<and>
    events_in L t key Passed tr \<le> events_in L t key Failed tr + open_guesses key tr"

lemma window_step:
  assumes run: "guess_run L (tr @ [e]) hits' ks'" and inv: "\<And>hits ks. guess_run L tr hits ks \<Longrightarrow> window_inv L t key tr hits"
    and now: "\<forall>x \<in> set (tr @ [e]). fst x \<le> t" and ok: "events_in L t key Succeeded (tr @ [e]) = 0"
  shows "window_inv L t key (tr @ [e]) hits'"
  using run
proof (cases rule: guess_run.cases)
  case start
  then show ?thesis by simp
next
  case (asks tr0 hits ks n k limited)
  then have e: "tr0 = tr" "e = (n, k, if limited then Refused else Passed)" by simp_all
  have "hits_of hits' key = (if key = k then recent L n k hits else hits_of hits key)"
    using hits_Limited [of L n k hits key] asks(5) by simp
  then have "filter (in_window L t) (hits_of hits' key) = filter (in_window L t) (hits_of hits key)"
    using recent_window [of n t L k hits] now e by simp
  with inv [of hits ks] asks(3) e show ?thesis by (simp add: window_inv_def)
next
  case (fails tr0 hits ks n k)
  then have e: "tr0 = tr" "e = (n, k, Failed)" by simp_all
  note 1 = inv [OF fails(4) [unfolded e(1)]]
  show ?thesis
  proof (cases "k = key \<and> in_window L t n")
    case True
    then have "filter (in_window L t) (hits_of hits' key) = filter (in_window L t) (hits_of hits key) @ [n]"
      using recent_window [of n t L key hits] by (simp add: fails(2) hits_Failure)
    with 1 True e show ?thesis by (simp add: window_inv_def)
  next
    case out: False
    show ?thesis
    proof (cases "k = key")
      case True
      with out now e have "n \<le> t - Window L" by auto
      then have "\<forall>x \<in> set (tr @ [e]). fst x \<le> t - Window L" using fails(5) e by auto
      then show ?thesis using open_guesses_nonneg [OF run, of key] by (simp only: window_inv_def events_before of_nat_0_le_iff add_0 simp_thms)
    next
      case False
      with 1 e show ?thesis by (simp add: window_inv_def fails(2) hits_Failure)
    qed
  qed
next
  case (succeeds tr0 hits ks n k)
  then have e: "tr0 = tr" "e = (n, k, Succeeded)" by simp_all
  show ?thesis
  proof (cases "k = key")
    case True
    have "0 \<le> events_in L t key Succeeded tr" by (simp add: events_in_def)
    then have "\<not> in_window L t n" using ok True e by auto
    with now e have "n \<le> t - Window L" by auto
    then have "\<forall>x \<in> set (tr @ [e]). fst x \<le> t - Window L" using succeeds(5) e by auto
    then show ?thesis using open_guesses_nonneg [OF run, of key] by (simp only: window_inv_def events_before of_nat_0_le_iff add_0 simp_thms)
  next
    case False
    with inv [OF succeeds(4) [unfolded e(1)]] e show ?thesis by (simp add: window_inv_def succeeds(2) hits_Success)
  qed
qed

lemma guess_run_times: "guess_run L (tr @ [e]) hits ks \<Longrightarrow> \<forall>x \<in> set (tr @ [e]). fst x \<le> fst e"
  by (cases rule: guess_run.cases) auto

lemma guess_run_prefix: "guess_run L (tr @ [e]) hits ks \<Longrightarrow> \<exists>hits ks. guess_run L tr hits ks"
  by (cases rule: guess_run.cases) auto

lemma guess_window:
  "guess_run L tr hits ks \<Longrightarrow> \<forall>x \<in> set tr. fst x \<le> t \<Longrightarrow> events_in L t key Succeeded tr = 0 \<Longrightarrow>
    window_inv L t key tr hits"
proof (induction tr arbitrary: hits ks rule: rev_induct)
  case Nil
  then show ?case by (simp add: window_inv_def)
next
  case (snoc e tr)
  have "0 \<le> events_in L t key Succeeded tr" by (simp add: events_in_def)
  then have "events_in L t key Succeeded tr = 0"
    using snoc.prems(3) by (cases e) (auto split: if_splits)
  then show ?case
    using snoc.IH snoc.prems by (intro window_step [OF snoc.prems(1)]) auto
qed

lemma passed_below:
  assumes "guess_run L (tr @ [(n, key, Passed)]) hits ks" and "n \<le> t" and "events_in L t key Succeeded tr = 0"
  shows "events_in L t key Passed tr < MaxHits L + open_guesses key tr"
  using assms(1)
proof (cases rule: guess_run.cases)
  case (asks tr0 hits0 ks0 n0 k0 limited)
  then have r: "guess_run L tr hits0 ks0" "\<forall>x \<in> set tr. fst x \<le> n" "\<not> fst (Limited L n key hits0)" by (auto split: if_splits)
  have "window_inv L t key tr hits0" by (rule guess_window [OF r(1)]) (use r(2) assms(2,3) in auto)
  moreover have "length (filter (in_window L t) (hits_of hits0 key)) \<le> length (recent L n key hits0)"
    using recent_window [OF assms(2), of L key hits0] length_filter_le [of "in_window L t" "recent L n key hits0"] by simp
  moreover have "int (length (recent L n key hits0)) < MaxHits L" using r(3) by (simp add: Limited_iff)
  ultimately show ?thesis by (simp add: window_inv_def)
qed simp_all

text \<open>
  C20. However the limiter calls of concurrent login requests interleave, if the passwords of at most
  \<open>c\<close> guesses for a key are compared at the same time, then in any stretch of time as long as the
  window in which no guess for that key succeeds, at most \<open>MaxHits + c - 1\<close> guesses for the key get
  past the limiter: \<open>MaxHits\<close> when they come one after the other.
\<close>

theorem guesses_bounded:
  assumes "guess_run L tr hits ks" and "0 < MaxHits L"
    and "\<And>p. prefix p tr \<Longrightarrow> open_guesses key p \<le> c"
    and "events_in L t key Succeeded tr = 0"
  shows "events_in L t key Passed tr \<le> MaxHits L + c - 1"
  using assms(1,3,4)
proof (induction tr arbitrary: hits ks rule: rev_induct)
  case Nil
  then show ?case using assms(2) Nil.prems(2) [of "[]"] by simp
next
  case (snoc e tr)
  obtain n k ev where e: "e = (n, k, ev)" by (cases e) auto
  have "0 \<le> events_in L t key Succeeded tr" by (simp add: events_in_def)
  then have ok: "events_in L t key Succeeded tr = 0" using snoc.prems(3) e by (auto split: if_splits)
  have IH: "events_in L t key Passed tr \<le> MaxHits L + c - 1"
    using guess_run_prefix [OF snoc.prems(1)] snoc.IH snoc.prems(2) ok by auto
  show ?case
  proof (cases "k = key \<and> ev = Passed \<and> in_window L t n")
    case True
    then have "events_in L t key Passed tr < MaxHits L + open_guesses key tr"
      using passed_below [of L tr n key hits ks t] snoc.prems(1) e ok by simp
    moreover have "open_guesses key tr + 1 \<le> c" using snoc.prems(2) [of "tr @ [e]"] e True by simp
    ultimately show ?thesis using e True by simp
  next
    case False
    with IH e show ?thesis by auto
  qed
qed

text \<open>The bound is met: two guesses at once get past a limiter that allows one failure.\<close>

definition two_at_once :: "(int \<times> string \<times> guess_event) list" where
  "two_at_once = [(1, ''ip'', Passed), (2, ''ip'', Passed), (3, ''ip'', Failed), (4, ''ip'', Failed), (5, ''ip'', Refused)]"

lemma two_at_once_run: "\<exists>hits. guess_run (New_limiter 1 minute) two_at_once hits []"
proof -
  let ?L = "New_limiter 1 minute"
  have lim: "Limited ?L n ''ip'' [] = (False, [])" for n by (simp add: Limited_def prune_def hits_of_def New_limiter_def)
  have 1: "guess_run ?L [(1, ''ip'', Passed)] [] [''ip'']"
    using guess_run.asks [OF guess_run.start _ lim, of 1] by simp
  have 2: "guess_run ?L [(1, ''ip'', Passed), (2, ''ip'', Passed)] [] [''ip'', ''ip'']"
    using guess_run.asks [OF 1 _ lim, of 2] by simp
  have 3: "guess_run ?L [(1, ''ip'', Passed), (2, ''ip'', Passed), (3, ''ip'', Failed)] (Failure ?L 3 ''ip'' []) [''ip'']"
    using guess_run.fails [OF 2, of 3 "''ip''"] by simp
  have 4: "guess_run ?L [(1, ''ip'', Passed), (2, ''ip'', Passed), (3, ''ip'', Failed), (4, ''ip'', Failed)]
      (Failure ?L 4 ''ip'' (Failure ?L 3 ''ip'' [])) []"
    using guess_run.fails [OF 3, of 4 "''ip''"] by simp
  have "fst (Limited ?L 5 ''ip'' (Failure ?L 4 ''ip'' (Failure ?L 3 ''ip'' [])))"
    by (simp add: Limited_iff recent_def hits_Failure New_limiter_def)
  then show ?thesis
    using guess_run.asks [OF 4, of 5 "''ip''" True] unfolding two_at_once_def
    by (cases "Limited ?L 5 ''ip'' (Failure ?L 4 ''ip'' (Failure ?L 3 ''ip'' []))") auto
qed

theorem guesses_bounded_witness:
  "events_in (New_limiter 1 minute) 9 ''ip'' Passed two_at_once = MaxHits (New_limiter 1 minute) + 2 - 1"
proof -
  let ?L = "New_limiter 1 minute"
  obtain hits where run: "guess_run ?L two_at_once hits []" using two_at_once_run by blast
  have "events_in ?L 9 ''ip'' Passed two_at_once \<le> MaxHits ?L + 2 - 1"
  proof (rule guesses_bounded [OF run])
    show "0 < MaxHits ?L" "events_in ?L 9 ''ip'' Succeeded two_at_once = 0" by code_simp+
    show "open_guesses ''ip'' p \<le> 2" if "prefix p two_at_once" for p
      using that unfolding two_at_once_def
      by (auto simp: prefix_Cons open_guesses_def events_def)
  qed
  moreover have "events_in ?L 9 ''ip'' Passed two_at_once = 2" "MaxHits ?L = 1" by code_simp+
  ultimately show ?thesis by simp
qed

text \<open>
  C21. A limited key is not locked out for good: once no failure lies within the last window, the
  limiter lets the next attempt through, and a successful login clears the key at once.
\<close>

theorem limit_expires:
  assumes "0 < MaxHits L" and "\<forall>t \<in> set (hits_of hits key). t \<le> now - Window L"
  shows "\<not> fst (Limited L now key hits) \<and> \<not> fst (Limited L now' key (Success key hits'))"
proof -
  have "recent L now key hits = []" using assms(2) by (auto simp: recent_def filter_empty_conv)
  then show ?thesis using assms(1) by (simp add: Limited_iff) (simp add: recent_def hits_Success)
qed

theorem limit_expires_witness:
  "\<not> fst (Limited (New_limiter 5 minute) (2 * minute) ''ip'' [(''ip'', [1, 1, 1, 1, 1])])"
  using limit_expires [of "New_limiter 5 minute" "[(''ip'', [1, 1, 1, 1, 1])]" "''ip''" "2 * minute"]
  by (simp add: New_limiter_def hits_of_def)

end
