(* ===== verification/WebCore.thy ===== *)
theory WebCore
  imports Http Messages SessionService Account Signer RateLimit
begin

section \<open>What the handlers share\<close>

text \<open>
  \<open>server.go\<close>, \<open>csrf.go\<close>, \<open>audit.go\<close> and the error writers of \<open>authorize.go\<close>: a handler takes the
  store's interface \<open>R\<close>, the environment \<open>E\<close>, the request and the world, and returns the
  response and the new world. The services are those of the component theories, on the parts of
  the same \<open>R\<close> that \<open>main.go\<close> gives them.
\<close>

definition scope_label :: "string \<Rightarrow> string" where
  "scope_label sid =
    (if sid = ''openid'' then msg_scope_openid
     else if sid = ''profile'' then msg_scope_profile
     else if sid = ''email'' then msg_scope_email
     else if sid = ''offline_access'' then msg_scope_offline
     else if sid = ''org'' then msg_scope_org
     else sid)"

definition scopeViews :: "string list \<Rightarrow> scope_view list" where
  "scopeViews scopes = map (\<lambda>sid. \<lparr>svID = sid, svLabel = scope_label sid\<rparr>) scopes"

definition render :: "string \<Rightarrow> page \<Rightarrow> nat \<Rightarrow> response \<Rightarrow> response" where
  "render name data status rs =
    (set_header ''Cache-Control'' ''no-store''
      (set_header ''Content-Type'' ''text/html; charset=utf-8'' rs))
      \<lparr>rs_status := status, rs_body := PageBody name data\<rparr>"

definition handleHealth :: "response \<Rightarrow> response" where
  "handleHealth rs = (set_header ''Content-Type'' ''text/plain'' rs)\<lparr>rs_body := TextBody ''ok''\<rparr>"

text \<open>The limiter of the login form, as \<open>NewServer\<close> creates it.\<close>

definition Logins :: limiter where
  "Logins = New_limiter 5 minute"

subsection \<open>Who is logged in\<close>

definition currentUser :: "'s repos \<Rightarrow> env \<Rightarrow> request \<Rightarrow> 's world \<Rightarrow> user option \<times> 's world" where
  "currentUser R E r w =
    (case Cookie r CookieName of
       None \<Rightarrow> (None, w)
     | Some c \<Rightarrow>
    case Lookup (Sessions R) E c w of
       (Inl e, w) \<Rightarrow> (None, w)
     | (Inr uid, w) \<Rightarrow>
    case GetByID (Users R) uid (w_store w) of
       Inl e \<Rightarrow> (None, w)
     | Inr u \<Rightarrow> if uDisabled u then (None, w) else (Some u, w))"

definition currentSID :: "'s repos \<Rightarrow> env \<Rightarrow> request \<Rightarrow> 's world \<Rightarrow> string \<times> 's world" where
  "currentSID R E r w =
    (case Cookie r CookieName of
       None \<Rightarrow> ([], w)
     | Some c \<Rightarrow>
    case LookupSession (Sessions R) E c w of
       (Inl e, w) \<Rightarrow> ([], w)
     | (Inr sess, w) \<Rightarrow> (sSID sess, w))"

subsection \<open>Cross-site request forgery\<close>

definition csrfCookie :: string where
  "csrfCookie = ''idp_csrf''"

definition issueCSRF :: "env \<Rightarrow> response \<Rightarrow> 's world \<Rightarrow> string res \<times> response \<times> 's world" where
  "issueCSRF E rs w =
    (case random_Token E w of
       (Inl e, w) \<Rightarrow> (Inl e, rs, w)
     | (Inr tok, w) \<Rightarrow>
         (Inr tok,
          SetCookie \<lparr>ckName = csrfCookie, ckValue = tok, ckHttpOnly = True,
            ckSecure = CookieSecure (Cfg E), ckSameSiteLax = True,
            ckExpires = Some (Now E + 2 * hour), ckMaxAge = 0\<rparr> rs,
          w))"

definition checkCSRF :: "request \<Rightarrow> bool" where
  "checkCSRF r =
    (case Cookie r csrfCookie of
       None \<Rightarrow> False
     | Some c \<Rightarrow>
         let form = FormValue r ''csrf''
         in if c = [] \<or> form = [] then False
            else if length c \<noteq> length form then False
            else c = form)"

definition setSessionCookie :: "string \<Rightarrow> int \<Rightarrow> bool \<Rightarrow> response \<Rightarrow> response" where
  "setSessionCookie plain exp secure rs =
    SetCookie \<lparr>ckName = ''idp_session'', ckValue = plain, ckHttpOnly = True, ckSecure = secure,
      ckSameSiteLax = True, ckExpires = Some exp, ckMaxAge = 0\<rparr> rs"

definition clearCookie :: "string \<Rightarrow> bool \<Rightarrow> response \<Rightarrow> response" where
  "clearCookie name secure rs =
    SetCookie \<lparr>ckName = name, ckValue = [], ckHttpOnly = True, ckSecure = secure,
      ckSameSiteLax = True, ckExpires = None, ckMaxAge = -1\<rparr> rs"

subsection \<open>The audit trail\<close>

definition audit ::
  "'s repos \<Rightarrow> env \<Rightarrow> request \<Rightarrow> audit_type \<Rightarrow> string \<Rightarrow> string \<Rightarrow> string \<Rightarrow> 's world \<Rightarrow> 's world" where
  "audit R E r typ subject clientID note w =
    (let (aid, w) = id_New E w
     in snd (on_store (AppendAudit (Audits R)
          \<lparr>aeID = aid, aeType = typ, aeAt = Now E, aeSubject = subject, aeClientID = clientID,
           aeIP = requestIP r, aeNote = note\<rparr>) w))"

subsection \<open>OAuth errors\<close>

definition jsonEscape :: "string \<Rightarrow> string" where
  "jsonEscape s =
    (let s = concat (map (\<lambda>c. if c = CHR 0x5C then [CHR 0x5C, CHR 0x5C] else [c]) s)
     in concat (map (\<lambda>c. if c = CHR 0x22 then [CHR 0x5C, CHR 0x22] else [c]) s))"

definition error_json :: "string \<Rightarrow> string \<Rightarrow> string" where
  "error_json code desc =
    ''{'' @ [CHR 0x22] @ ''error'' @ [CHR 0x22] @ '':'' @ [CHR 0x22] @ code @ [CHR 0x22] @ '','' @
    [CHR 0x22] @ ''error_description'' @ [CHR 0x22] @ '':'' @ [CHR 0x22] @ jsonEscape desc @ [CHR 0x22] @ ''}''"

definition clientError :: "nat \<Rightarrow> string \<Rightarrow> string \<Rightarrow> response \<Rightarrow> response" where
  "clientError status code desc rs =
    (set_header ''Content-Type'' ''application/json'' rs)
      \<lparr>rs_status := status, rs_body := TextBody (error_json code desc)\<rparr>"

definition write_json :: "json \<Rightarrow> response \<Rightarrow> response" where
  "write_json j rs = (set_header ''Content-Type'' ''application/json'' rs)\<lparr>rs_body := JsonBody j\<rparr>"

definition oauthFail ::
  "request \<Rightarrow> string \<Rightarrow> string \<Rightarrow> string \<Rightarrow> string \<Rightarrow> response \<Rightarrow> response" where
  "oauthFail r redirectURI state code desc rs =
    (if redirectURI = [] then http_Error (code @ '': '' @ desc) 400 rs
     else case url_Parse redirectURI of
       None \<Rightarrow> http_Error code 400 rs
     | Some u \<Rightarrow>
         let q = url_Query u;
             q = values_set ''error'' code q;
             q = values_set ''error_description'' desc q;
             q = (if state \<noteq> [] then values_set ''state'' state q else q)
         in http_Redirect r (url_String (u\<lparr>url_RawQuery := values_Encode q\<rparr>)) 302 rs)"

definition bearer :: "request \<Rightarrow> string" where
  "bearer r =
    (let h = r_authorization r
     in if length h < 8 \<or> \<not> EqualFold (take 7 h) ''bearer '' then [] else TrimSpace (drop 7 h))"

subsection \<open>Lemmas\<close>

lemma checkCSRF_iff:
  "checkCSRF r \<longleftrightarrow> (\<exists>c. Cookie r csrfCookie = Some c \<and> c \<noteq> [] \<and> FormValue r ''csrf'' = c)"
  by (auto simp: checkCSRF_def Let_def split: option.splits)

lemma render_simps [simp]:
  "Location (render n d st rs) = Location rs" "rs_status (render n d st rs) = st"
  "rs_body (render n d st rs) = PageBody n d"
  by (simp_all add: render_def Location_def http_defs)

lemma clientError_simps [simp]:
  "Location (clientError st c d rs) = Location rs" "rs_status (clientError st c d rs) = st"
  "rs_body (clientError st c d rs) = TextBody (error_json c d)"
  by (simp_all add: clientError_def Location_def http_defs)

lemma write_json_simps [simp]:
  "Location (write_json j rs) = Location rs" "rs_status (write_json j rs) = rs_status rs"
  "rs_body (write_json j rs) = JsonBody j"
  by (simp_all add: write_json_def Location_def http_defs)

lemma cookie_simps [simp]:
  "Location (setSessionCookie p e b rs) = Location rs" "Location (clearCookie n b rs) = Location rs"
  "rs_status (setSessionCookie p e b rs) = rs_status rs" "rs_status (clearCookie n b rs) = rs_status rs"
  "rs_body (setSessionCookie p e b rs) = rs_body rs" "rs_body (clearCookie n b rs) = rs_body rs"
  by (simp_all add: setSessionCookie_def clearCookie_def)

subsection \<open>What an audit leaves alone\<close>

text \<open>The abstract stores that agree on everything but the audit trail.\<close>

definition same_but_audits :: "astore \<Rightarrow> astore \<Rightarrow> bool" where
  "same_but_audits a b \<longleftrightarrow> a\<lparr>av_audits := av_audits b\<rparr> = b"

lemma same_but_audits_iff:
  "same_but_audits a b \<longleftrightarrow>
    av_users a = av_users b \<and> av_sessions a = av_sessions b \<and> av_sidRP a = av_sidRP b \<and>
    av_clients a = av_clients b \<and> av_codes a = av_codes b \<and> av_refresh a = av_refresh b \<and>
    av_access a = av_access b \<and> av_consents a = av_consents b \<and> av_orgs a = av_orgs b \<and>
    av_members a = av_members b"
  by (cases a, cases b) (auto simp: same_but_audits_def)

lemma same_but_auditsD:
  assumes "same_but_audits a b"
  shows "av_users a = av_users b" "av_sessions a = av_sessions b" "av_sidRP a = av_sidRP b"
    "av_clients a = av_clients b" "av_codes a = av_codes b" "av_refresh a = av_refresh b"
    "av_access a = av_access b" "av_consents a = av_consents b" "av_orgs a = av_orgs b"
    "av_members a = av_members b"
  using assms unfolding same_but_audits_iff by blast+

lemma audit_world [simp]:
  "w_draws (audit R E r t sub c n w) = w_draws w" "w_ids (audit R E r t sub c n w) = Suc (w_ids w)"
  "w_hits (audit R E r t sub c n w) = w_hits w" "w_pending (audit R E r t sub c n w) = w_pending w"
  "w_sent (audit R E r t sub c n w) = w_sent w"
  by (simp_all add: audit_def id_New_def)

context repos_contract
begin

lemma audit_inv: "inv (w_store w) \<Longrightarrow> inv (w_store (audit R E r t sub c n w))"
  using append_frame by (simp add: audit_def id_New_def)

lemma audit_same: "inv (w_store w) \<Longrightarrow> same_but_audits (abs (w_store (audit R E r t sub c n w))) (abs (w_store w))"
  using append_frame by (simp add: audit_def id_New_def same_but_audits_def)

lemmas audit_keeps [simp] = same_but_auditsD [OF audit_same]

end

end
