(* ===== verification/WebAuthorize.thy ===== *)
theory WebAuthorize
  imports WebCore
begin

section \<open>The authorization endpoint\<close>

text \<open>
  \<open>internal/web/authorize.go\<close>: checking an authorization request, asking for consent, and
  issuing a code. A request that waits for consent is kept in \<open>w_pending\<close> under a random
  identifier until the consent form comes back.
\<close>

definition hasConsent :: "'s repos \<Rightarrow> string \<Rightarrow> string \<Rightarrow> string list \<Rightarrow> 's \<Rightarrow> bool" where
  "hasConsent R userID clientID want s =
    (case GetConsent (Consents R) userID clientID s of
       Inl e \<Rightarrow> False
     | Inr c \<Rightarrow> list_all (\<lambda>scope. Contains (gScopes c) scope) want)"

definition issueCodeRedirect ::
  "'s repos \<Rightarrow> env \<Rightarrow> request \<Rightarrow> string \<Rightarrow> pending_auth \<Rightarrow> 's world \<Rightarrow> response \<times> 's world" where
  "issueCodeRedirect R E r userID p w =
    (case random_Token E w of
       (Inl e, w) \<Rightarrow> (http_Error ''internal'' 500 new_response, w)
     | (Inr plain, w) \<Rightarrow>
    let (sid, w) = currentSID R E r w;
        row = \<lparr>acHash = HashToken plain, acClientID = paClientID p, acUserID = userID,
               acRedirectURI = paRedirectURI p, acScopes = paScopes p, acNonce = paNonce p,
               acCodeChallenge = paChallenge p, acSessionSID = sid,
               acExpiresAt = Now E + CodeTTL (Cfg E), acUsed = False\<rparr>
    in case on_store (PutCode (AuthCodes R) row) w of
       (Inl e, w) \<Rightarrow> (http_Error ''internal'' 500 new_response, w)
     | (Inr _, w) \<Rightarrow>
    let w = snd (on_store (AddSessionClient (Sessions R) sid (paClientID p)) w)
    in case url_Parse (paRedirectURI p) of
       None \<Rightarrow> (http_Error ''internal'' 500 new_response, w)
     | Some u \<Rightarrow>
         let q = values_set ''code'' plain (url_Query u);
             q = (if paState p \<noteq> [] then values_set ''state'' (paState p) q else q)
         in (http_Redirect r (url_String (u\<lparr>url_RawQuery := values_Encode q\<rparr>)) 302 new_response, w))"

text \<open>The first checks, before any user is looked at: the client and the scopes, or the answer.\<close>

definition err_text :: "derr \<Rightarrow> string" where
  "err_text e = (case e of ErrOther t \<Rightarrow> t | _ \<Rightarrow> [])"

definition checkAuthorize :: "'s repos \<Rightarrow> request \<Rightarrow> 's \<Rightarrow> response + client \<times> string list" where
  "checkAuthorize R r s =
    (let q = r_query r;
         redirectURI = values_get q ''redirect_uri'';
         clientID = values_get q ''client_id'';
         state = values_get q ''state''
     in if values_get q ''response_type'' \<noteq> ''code'' then
          Inl (oauthFail r redirectURI state ''unsupported_response_type''
            ''only response_type=code is supported'' new_response)
        else if values_get q ''code_challenge_method'' \<noteq> ChallengeS256 \<or> values_get q ''code_challenge'' = [] then
          Inl (oauthFail r redirectURI state ''invalid_request'' ''PKCE S256 is required'' new_response)
        else case GetClient (Clients R) clientID s of
          Inl e \<Rightarrow> Inl (http_Error ''unknown client'' 400 new_response)
        | Inr c \<Rightarrow>
            if \<not> is_ok (ParseRedirectURI redirectURI) \<or> \<not> RedirectURIExact redirectURI (cRedirectURIs c) then
              Inl (http_Error ''invalid redirect_uri'' 400 new_response)
            else case NormalizeScopes (values_get q ''scope'') True of
              Inl e \<Rightarrow> Inl (oauthFail r redirectURI state ''invalid_scope'' (err_text e) new_response)
            | Inr scopes \<Rightarrow> Inr (c, scopes))"

definition pending_of :: "env \<Rightarrow> request \<Rightarrow> client \<Rightarrow> string list \<Rightarrow> pending_auth" where
  "pending_of E r c scopes =
    \<lparr>paClientID = cID c, paRedirectURI = values_get (r_query r) ''redirect_uri'',
     paState = values_get (r_query r) ''state'', paNonce = values_get (r_query r) ''nonce'',
     paScopes = scopes, paChallenge = values_get (r_query r) ''code_challenge'',
     paExpiresAt = Now E + int64 (CodeTTL (Cfg E) * 10)\<rparr>"

definition handleAuthorize :: "'s repos \<Rightarrow> env \<Rightarrow> request \<Rightarrow> 's world \<Rightarrow> response \<times> 's world" where
  "handleAuthorize R E r w =
    (case checkAuthorize R r (w_store w) of
       Inl rs \<Rightarrow> (rs, w)
     | Inr (c, scopes) \<Rightarrow>
    case currentUser R E r w of
       (None, w) \<Rightarrow>
         (http_Redirect r (''/login?continue='' @ QueryEscape (r_uri r)) 303 new_response, w)
     | (Some u, w) \<Rightarrow>
    let p = pending_of E r c scopes
    in if hasConsent R (uID u) (cID c) scopes (w_store w) then issueCodeRedirect R E r (uID u) p w
       else case random_Token E w of
         (Inl e, w) \<Rightarrow> (http_Error ''internal'' 500 new_response, w)
       | (Inr reqID, w) \<Rightarrow>
           let w = w\<lparr>w_pending := gput reqID p (w_pending w)\<rparr>
           in case issueCSRF E new_response w of
                (Inl e, rs, w) \<Rightarrow> (http_Error ''csrf'' 500 rs, w)
              | (Inr tok, rs, w) \<Rightarrow>
                  (render ''consent'' (no_page\<lparr>pdTitle := msg_consent, pdCSRF := tok, pdClientName := cName c,
                     pdScopes := scopes, pdScopeViews := scopeViews scopes, pdRequestID := reqID\<rparr>) 200 rs, w))"

text \<open>The pending request is removed as soon as it is read, whatever the decision.\<close>

definition take_pending :: "string \<Rightarrow> 's world \<Rightarrow> pending_auth option \<times> 's world" where
  "take_pending reqID w =
    (case gget (w_pending w) reqID of
       None \<Rightarrow> (None, w)
     | Some p \<Rightarrow> (Some p, w\<lparr>w_pending := gdel reqID (w_pending w)\<rparr>))"

definition handleConsent :: "'s repos \<Rightarrow> env \<Rightarrow> request \<Rightarrow> 's world \<Rightarrow> response \<times> 's world" where
  "handleConsent R E r w =
    (if \<not> r_form_ok r \<or> \<not> checkCSRF r then (http_Error ''csrf'' 400 new_response, w)
     else case currentUser R E r w of
       (None, w) \<Rightarrow> (http_Redirect r ''/login'' 303 new_response, w)
     | (Some u, w) \<Rightarrow>
    case take_pending (FormValue r ''request_id'') w of
       (None, w) \<Rightarrow> (http_Error ''expired authorization request'' 400 new_response, w)
     | (Some p, w) \<Rightarrow>
    if \<not> Now E < paExpiresAt p then (http_Error ''expired authorization request'' 400 new_response, w)
    else if FormValue r ''decision'' \<noteq> ''allow'' then
      (oauthFail r (paRedirectURI p) (paState p) ''access_denied'' ''the user denied the request'' new_response, w)
    else
      let w = snd (on_store (PutConsent (Consents R)
                \<lparr>gUserID = uID u, gClientID = paClientID p, gScopes = paScopes p\<rparr>) w);
          w = audit R E r AuditConsent (uID u) (paClientID p) (join '' '' (paScopes p)) w
      in issueCodeRedirect R E r (uID u) p w)"

end
