(* ===== verification/WebLogout.thy ===== *)
theory WebLogout
  imports WebCore
begin

section \<open>Logout\<close>

text \<open>
  \<open>internal/web/end_session.go\<close>: RP-initiated logout, with the front-channel frames and the
  back-channel notices to the clients of the session. A notice is recorded in \<open>w_sent\<close> as
  its address and logout token when the request is handed to \<open>http.Client\<close>. The code ignores what
  comes of it, and so does the model: an address that the client cannot reach, one with a
  custom scheme for instance, is recorded as well.
\<close>

record end_session_req =
  esIDTokenHint :: string
  esClientID :: string
  esPostLogoutRedirectURI :: string
  esState :: string
  esConfirm :: bool

definition empty_end_session :: end_session_req where
  "empty_end_session = \<lparr>esIDTokenHint = [], esClientID = [], esPostLogoutRedirectURI = [], esState = [],
     esConfirm = False\<rparr>"

definition parseEndSession :: "request \<Rightarrow> end_session_req" where
  "parseEndSession r =
    (let get_param = (if r_method r = ''POST'' then FormValue r else values_get (r_query r))
     in \<lparr>esIDTokenHint = get_param ''id_token_hint'', esClientID = get_param ''client_id'',
         esPostLogoutRedirectURI = get_param ''post_logout_redirect_uri'', esState = get_param ''state'',
         esConfirm = (get_param ''confirm'' = ''yes'')\<rparr>)"

definition parseHint :: "env \<Rightarrow> string \<Rightarrow> id_token_hint option" where
  "parseHint E compact =
    (if compact = [] then None
     else case ParseIDTokenHint E compact of
       Inl e \<Rightarrow> None
     | Inr hint \<Rightarrow> if ihIssuer hint \<noteq> Issuer (Cfg E) \<or> ihSubject hint = [] then None else Some hint)"

fun containsAudience :: "string list \<Rightarrow> string \<Rightarrow> bool" where
  "containsAudience [] clientID = False"
| "containsAudience (a # auds) clientID = (if a = clientID then True else containsAudience auds clientID)"

lemma containsAudience_iff [simp]: "containsAudience auds c \<longleftrightarrow> c \<in> set auds"
  by (induction auds) auto

definition errBadLogoutClient :: string where
  "errBadLogoutClient = ''unknown client_id''"

definition errBadLogoutRedirect :: string where
  "errBadLogoutRedirect = ''post_logout_redirect_uri is not registered''"

fun audience_client :: "'s repos \<Rightarrow> 's \<Rightarrow> string \<Rightarrow> string list \<Rightarrow> client option" where
  "audience_client R s uri [] = None"
| "audience_client R s uri (a # auds) =
    (case GetClient (Clients R) a s of
       Inl e \<Rightarrow> audience_client R s uri auds
     | Inr c \<Rightarrow>
         if RedirectURIExact uri (cPostLogoutRedirectURIs c) then Some c
         else audience_client R s uri auds)"

text \<open>The client of a logout request: none, one, or an error text.\<close>

definition logoutClient ::
  "'s repos \<Rightarrow> end_session_req \<Rightarrow> id_token_hint option \<Rightarrow> 's \<Rightarrow> string + client option" where
  "logoutClient R req hint s =
    (let cid = (case hint of
           Some h \<Rightarrow> if esClientID req = [] \<and> length (ihAudience h) = 1 then ihAudience h ! 0 else esClientID req
         | None \<Rightarrow> esClientID req)
     in if cid \<noteq> [] then
          (case GetClient (Clients R) cid s of
             Inl e \<Rightarrow> Inl errBadLogoutClient
           | Inr c \<Rightarrow> Inr (Some c))
        else case hint of
          None \<Rightarrow> Inr None
        | Some h \<Rightarrow>
            if esPostLogoutRedirectURI req = [] then Inr None
            else case audience_client R s (esPostLogoutRedirectURI req) (ihAudience h) of
              None \<Rightarrow> Inl errBadLogoutRedirect
            | Some c \<Rightarrow> Inr (Some c))"

subsection \<open>Telling the clients\<close>

text \<open>One back-channel notice.\<close>

definition notify_client :: "'s repos \<Rightarrow> env \<Rightarrow> string \<Rightarrow> string \<Rightarrow> string \<Rightarrow> 's world \<Rightarrow> 's world" where
  "notify_client R E sid subject clientID w =
    (case GetClient (Clients R) clientID (w_store w) of
       Inl e \<Rightarrow> w
     | Inr c \<Rightarrow>
    if cBackChannelLogoutURI c = [] then w
    else if \<not> is_ok (ParseRedirectURI (cBackChannelLogoutURI c)) then w
    else case random_Token E w of
       (Inl e, w) \<Rightarrow> w
     | (Inr jti, w) \<Rightarrow>
         (case SignLogoutToken E \<lparr>ltIssuer = Issuer (Cfg E), ltSubject = subject, ltAudience = cID c,
                 ltSID = sid, ltJTI = jti, ltNow = Now E, ltTTL = 2 * minute\<rparr> of
            Inl e \<Rightarrow> w
          | Inr tok \<Rightarrow> w\<lparr>w_sent := w_sent w @ [(cBackChannelLogoutURI c, tok)]\<rparr>))"

definition notifyBackChannel :: "'s repos \<Rightarrow> env \<Rightarrow> string \<Rightarrow> string \<Rightarrow> 's world \<Rightarrow> 's world" where
  "notifyBackChannel R E sid subject w =
    (if sid = [] then w
     else case ListSessionClients (Sessions R) sid (w_store w) of
       Inl e \<Rightarrow> w
     | Inr ids \<Rightarrow> fold (notify_client R E sid subject) ids w)"

definition iframe_src :: "env \<Rightarrow> string \<Rightarrow> client \<Rightarrow> string option" where
  "iframe_src E sid c =
    (if cFrontChannelLogoutURI c = [] then None
     else case url_Parse (cFrontChannelLogoutURI c) of
       None \<Rightarrow> None
     | Some u \<Rightarrow>
         let q = values_set ''sid'' sid (values_set ''iss'' (Issuer (Cfg E)) (url_Query u))
         in Some (url_String (u\<lparr>url_RawQuery := values_Encode q\<rparr>)))"

fun iframes_of :: "'s repos \<Rightarrow> env \<Rightarrow> string \<Rightarrow> 's \<Rightarrow> string list \<Rightarrow> string list \<Rightarrow> string list" where
  "iframes_of R E sid s out [] = out"
| "iframes_of R E sid s out (i # ids) =
    (case GetClient (Clients R) i s of
       Inl e \<Rightarrow> iframes_of R E sid s out ids
     | Inr c \<Rightarrow>
         (case iframe_src E sid c of
            None \<Rightarrow> iframes_of R E sid s out ids
          | Some src \<Rightarrow>
              if src \<in> set out then iframes_of R E sid s out ids
              else iframes_of R E sid s (out @ [src]) ids))"

definition frontChannelIFrames :: "'s repos \<Rightarrow> env \<Rightarrow> string \<Rightarrow> 's \<Rightarrow> string list" where
  "frontChannelIFrames R E sid s =
    (if sid = [] then []
     else case ListSessionClients (Sessions R) sid s of
       Inl e \<Rightarrow> []
     | Inr ids \<Rightarrow> iframes_of R E sid s [] ids)"

subsection \<open>Ending the session\<close>

definition endBrowserSession ::
  "'s repos \<Rightarrow> env \<Rightarrow> request \<Rightarrow> response \<Rightarrow> 's world \<Rightarrow> response \<times> 's world" where
  "endBrowserSession R E r rs w =
    (clearCookie CookieName (CookieSecure (Cfg E)) rs,
     case Cookie r CookieName of
       None \<Rightarrow> w
     | Some c \<Rightarrow> snd (End_session (Sessions R) c (snd (LookupSession (Sessions R) E c w))))"

text \<open>Where to go after the logout: the registered address with the state, or the default.\<close>

definition logout_next :: "end_session_req \<Rightarrow> string \<Rightarrow> string option" where
  "logout_next req defaultNext =
    (if esPostLogoutRedirectURI req = [] then Some defaultNext
     else case url_Parse (esPostLogoutRedirectURI req) of
       None \<Rightarrow> None
     | Some u \<Rightarrow>
         let q = (if esState req \<noteq> [] then values_set ''state'' (esState req) (url_Query u) else url_Query u)
         in Some (url_String (u\<lparr>url_RawQuery := values_Encode q\<rparr>)))"

definition finishLogout ::
  "'s repos \<Rightarrow> env \<Rightarrow> request \<Rightarrow> end_session_req \<Rightarrow> string \<Rightarrow> 's world \<Rightarrow> response \<times> 's world" where
  "finishLogout R E r req defaultNext w =
    (let (sid, w) = currentSID R E r w;
         (usr, w) = currentUser R E r w;
         w = notifyBackChannel R E sid (case usr of None \<Rightarrow> [] | Some u \<Rightarrow> uID u) w;
         iframes = frontChannelIFrames R E sid (w_store w);
         (rs, w) = endBrowserSession R E r new_response w
     in (case logout_next req defaultNext of
           None \<Rightarrow> http_Error ''post_logout_redirect_uri is not registered'' 400 rs
         | Some next_url \<Rightarrow>
             if iframes \<noteq> [] then
               render ''front_channel'' (no_page\<lparr>pdTitle := msg_logout, pdIFrames := iframes,
                 pdContinueURL := next_url\<rparr>) 200 rs
             else if next_url \<noteq> [] then http_Redirect r next_url 302 rs
             else render ''logged_out'' (no_page\<lparr>pdTitle := msg_logout\<rparr>) 200 rs,
         w))"

definition renderEndSessionConfirm ::
  "env \<Rightarrow> end_session_req \<Rightarrow> 's world \<Rightarrow> response \<times> 's world" where
  "renderEndSessionConfirm E req w =
    (case issueCSRF E new_response w of
       (Inl e, rs, w) \<Rightarrow> (http_Error ''csrf'' 500 rs, w)
     | (Inr tok, rs, w) \<Rightarrow>
         (render ''end_session'' (no_page\<lparr>pdTitle := msg_logout_confirm, pdCSRF := tok,
            pdIDTokenHint := esIDTokenHint req, pdPostLogoutRedirectURI := esPostLogoutRedirectURI req,
            pdState := esState req, pdClientID := esClientID req\<rparr>) 200 rs, w))"

text \<open>The checks of \<open>handleEndSession\<close> that come before it looks at the user: the hint, or the answer.\<close>

definition checkEndSession ::
  "'s repos \<Rightarrow> env \<Rightarrow> end_session_req \<Rightarrow> 's \<Rightarrow> string + id_token_hint option" where
  "checkEndSession R E req s =
    (if esPostLogoutRedirectURI req \<noteq> [] \<and> \<not> is_ok (ParseRedirectURI (esPostLogoutRedirectURI req)) then
       Inl ''post_logout_redirect_uri must be an absolute http(s) URL without a fragment''
     else
       let hint = parseHint E (esIDTokenHint req)
       in case logoutClient R req hint s of
            Inl e \<Rightarrow> Inl e
          | Inr c \<Rightarrow>
              if esPostLogoutRedirectURI req \<noteq> [] \<and>
                 (case c of None \<Rightarrow> True
                  | Some cl \<Rightarrow> cID cl = [] \<or>
                      \<not> RedirectURIExact (esPostLogoutRedirectURI req) (cPostLogoutRedirectURIs cl))
              then Inl ''post_logout_redirect_uri is not registered''
              else Inr hint)"

definition handleEndSession :: "'s repos \<Rightarrow> env \<Rightarrow> request \<Rightarrow> 's world \<Rightarrow> response \<times> 's world" where
  "handleEndSession R E r w =
    (if r_method r = ''POST'' \<and> \<not> r_form_ok r then (http_Error ''invalid form'' 400 new_response, w)
     else
       let req = parseEndSession r
       in case checkEndSession R E req (w_store w) of
            Inl msg \<Rightarrow> (http_Error msg 400 new_response, w)
          | Inr hint \<Rightarrow>
              let (usr, w) = currentUser R E r w;
                  hintMatches = (case (usr, hint) of
                    (Some u, Some h) \<Rightarrow> ihIssuer h = Issuer (Cfg E) \<and> ihSubject h = uID u
                  | _ \<Rightarrow> False)
              in if esClientID req \<noteq> [] \<and>
                    (case hint of None \<Rightarrow> False | Some h \<Rightarrow> \<not> containsAudience (ihAudience h) (esClientID req))
                 then (http_Error ''client_id does not match id_token_hint audience'' 400 new_response, w)
                 else
                   let confirmed = (esConfirm req \<and> r_method r = ''POST'' \<and> checkCSRF r)
                   in if usr \<noteq> None \<and> \<not> hintMatches \<and> \<not> confirmed then renderEndSessionConfirm E req w
                      else finishLogout R E r req [] w)"

end
