(* ===== verification/WebAccount.thy ===== *)
theory WebAccount
  imports WebLogout
begin

section \<open>Registration, login and home\<close>

text \<open>
  \<open>internal/web/account.go\<close>: the browser forms. Every form carries a CSRF token, login attempts
  pass the limiter under a key of address and email, and \<open>continue\<close> may only name a relative
  \<open>/authorize\<close> URL.
\<close>

definition safeContinue :: "string \<Rightarrow> string" where
  "safeContinue raw =
    (if raw = [] then []
     else case url_Parse raw of
       None \<Rightarrow> []
     | Some u \<Rightarrow>
         if url_Scheme u \<noteq> [] \<or> url_Host u \<noteq> [] then []
         else if url_Path u \<noteq> ''/authorize'' then []
         else if CHR 0x5C \<in> set raw then []
         else url_String u)"

definition loginKey :: "request \<Rightarrow> string \<Rightarrow> string" where
  "loginKey r email = requestIP r @ [CHR 0x0A] @ ToLower (TrimSpace email)"

definition startSessionAndRedirect ::
  "'s repos \<Rightarrow> env \<Rightarrow> request \<Rightarrow> string \<Rightarrow> string \<Rightarrow> 's world \<Rightarrow> response \<times> 's world" where
  "startSessionAndRedirect R E r userID cont w =
    (case Start_session (Sessions R) E (SessionTTL (Cfg E)) userID w of
       (Inl e, w) \<Rightarrow> (http_Error ''session'' 500 new_response, w)
     | (Inr (plain, exp), w) \<Rightarrow>
         (http_Redirect r (if cont = [] then ''/'' else cont) 303
           (setSessionCookie plain exp (CookieSecure (Cfg E)) new_response), w))"

definition failForm ::
  "env \<Rightarrow> request \<Rightarrow> string \<Rightarrow> string \<Rightarrow> string \<Rightarrow> nat \<Rightarrow> 's world \<Rightarrow> response \<times> 's world" where
  "failForm E r view title msg status w =
    (case issueCSRF E new_response w of
       (Inl e, rs, w) \<Rightarrow> (http_Error ''csrf'' 500 rs, w)
     | (Inr tok, rs, w) \<Rightarrow>
         (render view (no_page\<lparr>pdTitle := title, pdCSRF := tok, pdError := msg,
            pdContinue := safeContinue (FormValue r ''continue'')\<rparr>) status rs, w))"

definition formPage :: "env \<Rightarrow> request \<Rightarrow> string \<Rightarrow> string \<Rightarrow> 's world \<Rightarrow> response \<times> 's world" where
  "formPage E r view title w =
    (case issueCSRF E new_response w of
       (Inl e, rs, w) \<Rightarrow> (http_Error ''csrf'' 500 rs, w)
     | (Inr tok, rs, w) \<Rightarrow>
         (render view (no_page\<lparr>pdTitle := title, pdCSRF := tok,
            pdContinue := safeContinue (values_get (r_query r) ''continue'')\<rparr>) 200 rs, w))"

definition handleRegisterForm :: "env \<Rightarrow> request \<Rightarrow> 's world \<Rightarrow> response \<times> 's world" where
  "handleRegisterForm E r w = formPage E r ''register'' msg_register w"

definition handleLoginForm :: "env \<Rightarrow> request \<Rightarrow> 's world \<Rightarrow> response \<times> 's world" where
  "handleLoginForm E r w = formPage E r ''login'' msg_login w"

definition handleRegister :: "'s repos \<Rightarrow> env \<Rightarrow> request \<Rightarrow> 's world \<Rightarrow> response \<times> 's world" where
  "handleRegister R E r w =
    (if \<not> r_form_ok r \<or> \<not> checkCSRF r then failForm E r ''register'' msg_register msg_redo_form 400 w
     else
       let cont = safeContinue (FormValue r ''continue'')
       in case Register (Users R) E \<lparr>rEmail = FormValue r ''email'', rPassword = FormValue r ''password'',
                 rName = FormValue r ''name''\<rparr> w of
            (Inl e, w) \<Rightarrow>
              failForm E r ''register'' msg_register
                (if e = ErrConflict then msg_email_taken else msg_not_registered) 400 w
          | (Inr u, w) \<Rightarrow> startSessionAndRedirect R E r (uID u) cont w)"

definition handleLogin :: "'s repos \<Rightarrow> env \<Rightarrow> request \<Rightarrow> 's world \<Rightarrow> response \<times> 's world" where
  "handleLogin R E r w =
    (if \<not> r_form_ok r \<or> \<not> checkCSRF r then failForm E r ''login'' msg_login msg_redo_form 400 w
     else
       let cont = safeContinue (FormValue r ''continue'');
           email = FormValue r ''email'';
           limitKey = loginKey r email;
           (limited, hits) = Limited Logins (Now E) limitKey (w_hits w);
           w = w\<lparr>w_hits := hits\<rparr>
       in if limited then failForm E r ''login'' msg_login msg_too_many 429 w
          else case Authenticate (Users R) E email (FormValue r ''password'') (w_store w) of
            Inl e \<Rightarrow>
              let w = w\<lparr>w_hits := Failure Logins (Now E) limitKey (w_hits w)\<rparr>;
                  w = audit R E r AuditLoginFail [] [] (ToLower (TrimSpace email)) w
              in failForm E r ''login'' msg_login msg_bad_login 400 w
          | Inr u \<Rightarrow>
              let w = w\<lparr>w_hits := Success limitKey (w_hits w)\<rparr>
              in startSessionAndRedirect R E r (uID u) cont w)"

definition handleLogout :: "'s repos \<Rightarrow> env \<Rightarrow> request \<Rightarrow> 's world \<Rightarrow> response \<times> 's world" where
  "handleLogout R E r w =
    (if \<not> r_form_ok r \<or> \<not> checkCSRF r then (http_Error ''csrf'' 400 new_response, w)
     else finishLogout R E r empty_end_session ''/login'' w)"

definition handleHome :: "'s repos \<Rightarrow> env \<Rightarrow> request \<Rightarrow> 's world \<Rightarrow> response \<times> 's world" where
  "handleHome R E r w =
    (if r_path r \<noteq> ''/'' then (http_Error ''404 page not found'' 404 new_response, w)
     else case currentUser R E r w of
       (None, w) \<Rightarrow> (http_Redirect r ''/login'' 303 new_response, w)
     | (Some u, w) \<Rightarrow>
         (case issueCSRF E new_response w of
            (Inl e, rs, w) \<Rightarrow> (http_Error ''csrf'' 500 rs, w)
          | (Inr tok, rs, w) \<Rightarrow>
              (render ''home'' (no_page\<lparr>pdTitle := msg_home, pdCSRF := tok, pdName := uName u,
                 pdEmail := uEmail u\<rparr>) 200 rs, w)))"

end
