(* ===== verification/WebToken.thy ===== *)
theory WebToken
  imports WebCore
begin

section \<open>The token endpoint\<close>

text \<open>
  \<open>internal/web/token.go\<close> and \<open>appendOrgClaims\<close> of \<open>orgs.go\<close>: redeeming an authorization code,
  rotating a refresh token, authenticating a client, and \<open>/userinfo\<close>. A JSON map is printed
  with its keys sorted, as \<open>encoding/json\<close> does.
\<close>

definition json_map :: "(string \<times> json) list \<Rightarrow> json" where
  "json_map kvs = JObj (sort_key fst kvs)"

definition authenticateClient :: "'s repos \<Rightarrow> env \<Rightarrow> request \<Rightarrow> 's \<Rightarrow> client option" where
  "authenticateClient R E r s =
    (let (cid, secret) = (case r_basic r of
           Some (i, p) \<Rightarrow> (i, p)
         | None \<Rightarrow> (FormValue r ''client_id'', FormValue r ''client_secret''))
     in case GetClient (Clients R) cid s of
          Inl e \<Rightarrow> None
        | Inr c \<Rightarrow>
            if cType c = ClientConfidential then
              (case Verify E secret (cSecretHash c) of
                 Inl e \<Rightarrow> None
               | Inr ok \<Rightarrow> if ok then Some c else None)
            else if secret \<noteq> [] then None
            else Some c)"

definition oidcIDToken ::
  "'s repos \<Rightarrow> env \<Rightarrow> user \<Rightarrow> string \<Rightarrow> string \<Rightarrow> string \<Rightarrow> string list \<Rightarrow> 's \<Rightarrow> id_token_input" where
  "oidcIDToken R E u aud nonce sid scopes s =
    (let inp = \<lparr>itIssuer = Issuer (Cfg E), itSubject = uID u, itAudience = aud, itNonce = nonce,
                itEmail = uEmail u, itName = uName u, itVerified = uEmailVerified u, itSID = sid,
                itOrgID = [], itOrgRole = [], itNow = Now E, itTTL = AccessTTL (Cfg E)\<rparr>
     in if Contains scopes ''org'' then
          (case PrimaryOrg R (uID u) sid s of
             Inl e \<Rightarrow> inp
           | Inr (primary, views) \<Rightarrow> inp\<lparr>itOrgID := vOrgID primary, itOrgRole := vRole primary\<rparr>)
        else inp)"

text \<open>
  \<open>writeTokenResponse\<close>, in three parts: storing an access token, storing a refresh token (with
  a new family unless one is given), and the response.
\<close>

definition issueAccess ::
  "'s repos \<Rightarrow> env \<Rightarrow> client \<Rightarrow> string \<Rightarrow> string list \<Rightarrow> string \<Rightarrow> 's world \<Rightarrow> string res \<times> 's world" where
  "issueAccess R E c userID scopes sid w =
    (case random_Token E w of
       (Inl e, w) \<Rightarrow> (Inl e, w)
     | (Inr accessPlain, w) \<Rightarrow>
    case on_store (PutAccess (AccessTokens R)
           \<lparr>atHash = HashToken accessPlain, atClientID = cID c, atUserID = userID, atScopes = scopes,
            atSessionSID = sid, atExpiresAt = Now E + AccessTTL (Cfg E)\<rparr>) w of
       (Inl e, w) \<Rightarrow> (Inl e, w)
     | (Inr _, w) \<Rightarrow> (Inr accessPlain, w))"

definition issueRefresh ::
  "'s repos \<Rightarrow> env \<Rightarrow> client \<Rightarrow> string \<Rightarrow> string list \<Rightarrow> string \<Rightarrow> string \<Rightarrow> 's world \<Rightarrow> string res \<times> 's world" where
  "issueRefresh R E c userID scopes familyID sid w =
    (case random_Token E w of
       (Inl e, w) \<Rightarrow> (Inl e, w)
     | (Inr refreshPlain, w) \<Rightarrow>
    let (familyID, w) = (if familyID = [] then id_New E w else (familyID, w))
    in case on_store (PutRefresh (RefreshTokens R)
           \<lparr>rtHash = HashToken refreshPlain, rtFamilyID = familyID, rtClientID = cID c,
            rtUserID = userID, rtScopes = scopes, rtSessionSID = sid,
            rtExpiresAt = Now E + RefreshTTL (Cfg E), rtRevoked = False\<rparr>) w of
       (Inl e, w) \<Rightarrow> (Inl e, w)
     | (Inr _, w) \<Rightarrow> (Inr refreshPlain, w))"

definition server_error :: "string \<Rightarrow> response" where
  "server_error desc = clientError 500 ''server_error'' desc new_response"

definition token_json :: "env \<Rightarrow> string \<Rightarrow> string \<Rightarrow> string list \<Rightarrow> string option \<Rightarrow> json" where
  "token_json E accessPlain idTok scopes refresh =
    json_map ([(''access_token'', JStr accessPlain), (''token_type'', JStr ''Bearer''),
      (''expires_in'', JNum (AccessTTL (Cfg E) div second)), (''id_token'', JStr idTok),
      (''scope'', JStr (join '' '' scopes))] @
      (case refresh of None \<Rightarrow> [] | Some t \<Rightarrow> [(''refresh_token'', JStr t)]))"

definition token_ok ::
  "'s repos \<Rightarrow> env \<Rightarrow> request \<Rightarrow> client \<Rightarrow> string \<Rightarrow> json \<Rightarrow> 's world \<Rightarrow> response \<times> 's world" where
  "token_ok R E r c userID resp w =
    (write_json resp (set_header ''Cache-Control'' ''no-store'' new_response),
     audit R E r AuditTokenIssue userID (cID c) (FormValue r ''grant_type'') w)"

definition writeTokenResponse ::
  "'s repos \<Rightarrow> env \<Rightarrow> request \<Rightarrow> client \<Rightarrow> string \<Rightarrow> string list \<Rightarrow> string \<Rightarrow> bool \<Rightarrow> string \<Rightarrow> string \<Rightarrow>
   's world \<Rightarrow> response \<times> 's world" where
  "writeTokenResponse R E r c userID scopes nonce withRefresh familyID sid w =
    (case GetByID (Users R) userID (w_store w) of
       Inl e \<Rightarrow> (clientError 400 ''invalid_grant'' ''user missing'' new_response, w)
     | Inr u \<Rightarrow>
    case issueAccess R E c userID scopes sid w of
       (Inl e, w) \<Rightarrow> (server_error ''token'', w)
     | (Inr accessPlain, w) \<Rightarrow>
    case SignIDToken E (oidcIDToken R E u (cID c) nonce sid scopes (w_store w)) of
       Inl e \<Rightarrow> (server_error ''id_token'', w)
     | Inr idTok \<Rightarrow>
    if withRefresh then
      (case issueRefresh R E c userID scopes familyID sid w of
         (Inl e, w) \<Rightarrow> (server_error ''refresh'', w)
       | (Inr refreshPlain, w) \<Rightarrow>
           token_ok R E r c userID (token_json E accessPlain idTok scopes (Some refreshPlain)) w)
    else token_ok R E r c userID (token_json E accessPlain idTok scopes None) w)"

text \<open>The checks on a code that was taken, in the order of the code.\<close>

definition code_error :: "env \<Rightarrow> request \<Rightarrow> client \<Rightarrow> auth_code \<Rightarrow> string option" where
  "code_error E r c row =
    (if \<not> Now E < acExpiresAt row then Some ''code expired''
     else if acClientID row \<noteq> cID c then Some ''code was issued to another client''
     else if acRedirectURI row \<noteq> FormValue r ''redirect_uri'' then Some ''redirect_uri mismatch''
     else if VerifyS256 (FormValue r ''code_verifier'') (acCodeChallenge row) \<noteq> Inr () then
       Some ''pkce verification failed''
     else None)"

definition tokenAuthCode :: "'s repos \<Rightarrow> env \<Rightarrow> request \<Rightarrow> 's world \<Rightarrow> response \<times> 's world" where
  "tokenAuthCode R E r w =
    (case authenticateClient R E r (w_store w) of
       None \<Rightarrow>
         (clientError 401 ''invalid_client'' ''client authentication failed''
           (set_header ''WWW-Authenticate'' (''Basic realm='' @ Quote ''idp'') new_response), w)
     | Some c \<Rightarrow>
    let plain = FormValue r ''code'' in
    if plain = [] then (clientError 400 ''invalid_request'' ''code is required'' new_response, w)
    else case on_store (TakeCode (AuthCodes R) (HashToken plain)) w of
       (Inl e, w) \<Rightarrow>
         (clientError 400 ''invalid_grant'' ''code is invalid or already used'' new_response, w)
     | (Inr row, w) \<Rightarrow>
    case code_error E r c row of
       Some desc \<Rightarrow> (clientError 400 ''invalid_grant'' desc new_response, w)
     | None \<Rightarrow>
         writeTokenResponse R E r c (acUserID row) (acScopes row) (acNonce row)
           (Contains (acScopes row) ''offline_access'') [] (acSessionSID row) w)"

text \<open>Revoking the family of a refresh token row, with the audit event for it.\<close>

definition revoke_row :: "'s repos \<Rightarrow> env \<Rightarrow> request \<Rightarrow> refresh_token \<Rightarrow> 's world \<Rightarrow> 's world" where
  "revoke_row R E r row w =
    audit R E r AuditRevoke (rtUserID row) (rtClientID row) (rtFamilyID row)
      (snd (on_store (RevokeFamily (RefreshTokens R) (rtFamilyID row)) w))"

definition tokenRefresh :: "'s repos \<Rightarrow> env \<Rightarrow> request \<Rightarrow> 's world \<Rightarrow> response \<times> 's world" where
  "tokenRefresh R E r w =
    (case authenticateClient R E r (w_store w) of
       None \<Rightarrow> (clientError 401 ''invalid_client'' ''client authentication failed'' new_response, w)
     | Some c \<Rightarrow>
    let plain = FormValue r ''refresh_token'' in
    case on_store (TakeRefresh (RefreshTokens R) (HashToken plain)) w of
       (Inl e, w) \<Rightarrow>
         (clientError 400 ''invalid_grant'' ''refresh token invalid'' new_response,
          case GetRefresh (RefreshTokens R) (HashToken plain) (w_store w) of
            Inl e \<Rightarrow> w
          | Inr existing \<Rightarrow> revoke_row R E r existing w)
     | (Inr row, w) \<Rightarrow>
    if \<not> Now E < rtExpiresAt row \<or> rtClientID row \<noteq> cID c then
      (clientError 400 ''invalid_grant'' ''refresh token reuse or expiry'' new_response,
       revoke_row R E r row w)
    else
      writeTokenResponse R E r c (rtUserID row) (rtScopes row) [] True (rtFamilyID row)
        (rtSessionSID row) w)"

definition handleToken :: "'s repos \<Rightarrow> env \<Rightarrow> request \<Rightarrow> 's world \<Rightarrow> response \<times> 's world" where
  "handleToken R E r w =
    (if \<not> r_form_ok r then (clientError 400 ''invalid_request'' ''malformed body'' new_response, w)
     else
       let grant = FormValue r ''grant_type'' in
       if grant = ''authorization_code'' then tokenAuthCode R E r w
       else if grant = ''refresh_token'' then tokenRefresh R E r w
       else (clientError 400 ''unsupported_grant_type'' ''use authorization_code or refresh_token'' new_response, w))"

subsection \<open>Userinfo\<close>

definition view_json :: "membership_view \<Rightarrow> json" where
  "view_json v = JObj [(''org_id'', JStr (vOrgID v)), (''org_name'', JStr (vOrgName v)), (''role'', JStr (vRole v))]"

definition appendOrgClaims ::
  "'s repos \<Rightarrow> (string \<times> json) list \<Rightarrow> string \<Rightarrow> string \<Rightarrow> string list \<Rightarrow> 's \<Rightarrow> (string \<times> json) list" where
  "appendOrgClaims R bdy userID sessionSID scopes s =
    (if \<not> Contains scopes ''org'' then bdy
     else case PrimaryOrg R userID sessionSID s of
       Inl e \<Rightarrow> bdy
     | Inr (primary, views) \<Rightarrow>
         bdy @ [(''org_id'', JStr (vOrgID primary)), (''org_role'', JStr (vRole primary))] @
         (if views \<noteq> [] then [(''organizations'', JArr (map view_json views))] else []))"

definition userinfo_claims :: "'s repos \<Rightarrow> user \<Rightarrow> access_token \<Rightarrow> 's \<Rightarrow> (string \<times> json) list" where
  "userinfo_claims R u tok s =
    appendOrgClaims R
      ([(''sub'', JStr (uID u))] @
       (if Contains (atScopes tok) ''email'' then
          [(''email'', JStr (uEmail u)), (''email_verified'', JBool (uEmailVerified u))] else []) @
       (if Contains (atScopes tok) ''profile'' then [(''name'', JStr (uName u))] else []))
      (uID u) (atSessionSID tok) (atScopes tok) s"

definition handleUserInfo :: "'s repos \<Rightarrow> env \<Rightarrow> request \<Rightarrow> 's world \<Rightarrow> response \<times> 's world" where
  "handleUserInfo R E r w =
    (let raw = bearer r in
     if raw = [] then
       (clientError 401 ''invalid_token'' ''missing bearer token''
         (set_header ''WWW-Authenticate'' ''Bearer'' new_response), w)
     else case GetAccess (AccessTokens R) (HashToken raw) (w_store w) of
       Inl e \<Rightarrow> (clientError 401 ''invalid_token'' ''access token invalid'' new_response, w)
     | Inr tok \<Rightarrow>
    if \<not> Now E < atExpiresAt tok then
      (clientError 401 ''invalid_token'' ''access token invalid'' new_response, w)
    else case GetByID (Users R) (atUserID tok) (w_store w) of
       Inl e \<Rightarrow> (clientError 401 ''invalid_token'' ''user'' new_response, w)
     | Inr u \<Rightarrow> (write_json (json_map (userinfo_claims R u tok (w_store w))) new_response, w))"

subsection \<open>Over any store\<close>

definition access_row :: "env \<Rightarrow> client \<Rightarrow> string \<Rightarrow> string list \<Rightarrow> string \<Rightarrow> string \<Rightarrow> access_token" where
  "access_row E c userID scopes sid t =
    \<lparr>atHash = HashToken t, atClientID = cID c, atUserID = userID, atScopes = scopes,
     atSessionSID = sid, atExpiresAt = Now E + AccessTTL (Cfg E)\<rparr>"

definition refresh_row ::
  "env \<Rightarrow> client \<Rightarrow> string \<Rightarrow> string list \<Rightarrow> string \<Rightarrow> string \<Rightarrow> string \<Rightarrow> refresh_token" where
  "refresh_row E c userID scopes familyID sid t =
    \<lparr>rtHash = HashToken t, rtFamilyID = familyID, rtClientID = cID c, rtUserID = userID,
     rtScopes = scopes, rtSessionSID = sid, rtExpiresAt = Now E + RefreshTTL (Cfg E), rtRevoked = False\<rparr>"

text \<open>The family of a refresh token that is issued in world \<open>w\<close>.\<close>

definition family_at :: "env \<Rightarrow> string \<Rightarrow> 's world \<Rightarrow> string" where
  "family_at E familyID w = (if familyID = [] then ULID E (w_ids w) else familyID)"

context repos_contract
begin

lemma issueAccess_eq:
  assumes "inv (w_store w)"
  shows "issueAccess R E c u sc sid w =
    (case token_at E (w_draws w) of
       None \<Rightarrow> (Inl (ErrOther ''crypto/rand''), w\<lparr>w_draws := w_draws w + 1\<rparr>)
     | Some t \<Rightarrow> (Inr t, w\<lparr>w_draws := w_draws w + 1,
         w_store := snd (PutAccess (AccessTokens R) (access_row E c u sc sid t) (w_store w))\<rparr>))"
proof (cases "token_at E (w_draws w)")
  case None
  then show ?thesis by (simp add: issueAccess_def random_Token_eq)
next
  case (Some t)
  obtain s where "PutAccess (AccessTokens R) (access_row E c u sc sid t) (w_store w) = (Inr (), s)"
    using put_access [OF assms] by (metis prod.collapse)
  with Some show ?thesis by (simp add: issueAccess_def random_Token_eq on_store_def access_row_def)
qed

lemma issueRefresh_eq:
  assumes "inv (w_store w)"
  shows "issueRefresh R E c u sc fam sid w =
    (case token_at E (w_draws w) of
       None \<Rightarrow> (Inl (ErrOther ''crypto/rand''), w\<lparr>w_draws := w_draws w + 1\<rparr>)
     | Some t \<Rightarrow> (Inr t, w\<lparr>w_draws := w_draws w + 1, w_ids := (if fam = [] then w_ids w + 1 else w_ids w),
         w_store := snd (PutRefresh (RefreshTokens R)
           (refresh_row E c u sc (family_at E fam w) sid t) (w_store w))\<rparr>))"
proof (cases "token_at E (w_draws w)")
  case None
  then show ?thesis by (simp add: issueRefresh_def random_Token_eq)
next
  case (Some t)
  obtain s where "PutRefresh (RefreshTokens R) (refresh_row E c u sc (family_at E fam w) sid t) (w_store w) = (Inr (), s)"
    using put_refresh [OF assms] by (metis prod.collapse)
  with Some show ?thesis
    by (auto simp: issueRefresh_def random_Token_eq on_store_def refresh_row_def family_at_def id_New_def)
qed

text \<open>
  The store after a token response: an access token and, when one is asked for, a refresh token
  are added, or only the first when the second or the signature fails; nothing else changes.
\<close>

definition token_change :: "env \<Rightarrow> client \<Rightarrow> string \<Rightarrow> string list \<Rightarrow> string \<Rightarrow> string \<Rightarrow> 's world \<Rightarrow>
  string option \<Rightarrow> string option \<Rightarrow> 's world \<Rightarrow> bool" where
  "token_change E c u sc fam sid w acc ref w' \<longleftrightarrow>
    inv (w_store w') \<and>
    same_but_audits (abs (w_store w')) ((abs (w_store w))\<lparr>
      av_access := (case acc of None \<Rightarrow> av_access (abs (w_store w))
        | Some t \<Rightarrow> (av_access (abs (w_store w)))(HashToken t \<mapsto> access_row E c u sc sid t)),
      av_refresh := (case ref of None \<Rightarrow> av_refresh (abs (w_store w))
        | Some t \<Rightarrow> (av_refresh (abs (w_store w)))(HashToken t \<mapsto>
            refresh_row E c u sc (family_at E fam w) sid t))\<rparr>) \<and>
    w_hits w' = w_hits w \<and> w_pending w' = w_pending w \<and> w_sent w' = w_sent w \<and>
    w_draws w \<le> w_draws w' \<and> w_ids w \<le> w_ids w' \<and> (ref \<noteq> None \<and> fam = [] \<longrightarrow> w_ids w < w_ids w')"

lemma token_change_refl: "inv (w_store w) \<Longrightarrow> token_change E c u sc fam sid w None None w"
  by (simp add: token_change_def same_but_audits_def)

lemma token_change_draw:
  "token_change E c u sc fam sid w acc ref w' \<Longrightarrow>
    token_change E c u sc fam sid w acc ref (w'\<lparr>w_draws := Suc (w_draws w')\<rparr>)"
  by (simp add: token_change_def)

lemma token_change_audit:
  assumes "token_change E c u sc fam sid w acc ref w'"
  shows "token_change E c u sc fam sid w acc ref (audit R E r t a b n w')"
proof -
  have inv: "inv (w_store w')" using assms by (simp add: token_change_def)
  show ?thesis
    using assms audit_inv [OF inv] audit_keeps [OF inv, of E r t a b n]
    by (simp add: token_change_def same_but_audits_iff)
qed

definition access_world :: "env \<Rightarrow> client \<Rightarrow> string \<Rightarrow> string list \<Rightarrow> string \<Rightarrow> string \<Rightarrow> 's world \<Rightarrow> 's world" where
  "access_world E c u sc sid t w = w\<lparr>w_draws := w_draws w + 1,
     w_store := snd (PutAccess (AccessTokens R) (access_row E c u sc sid t) (w_store w))\<rparr>"

definition refresh_world ::
  "env \<Rightarrow> client \<Rightarrow> string \<Rightarrow> string list \<Rightarrow> string \<Rightarrow> string \<Rightarrow> string \<Rightarrow> 's world \<Rightarrow> 's world" where
  "refresh_world E c u sc fam sid t w = w\<lparr>w_draws := w_draws w + 1,
     w_ids := (if fam = [] then w_ids w + 1 else w_ids w),
     w_store := snd (PutRefresh (RefreshTokens R) (refresh_row E c u sc (family_at E fam w) sid t) (w_store w))\<rparr>"

lemma access_world_sel [simp]:
  "w_draws (access_world E c u sc sid t w) = Suc (w_draws w)" "w_ids (access_world E c u sc sid t w) = w_ids w"
  "w_hits (access_world E c u sc sid t w) = w_hits w" "w_pending (access_world E c u sc sid t w) = w_pending w"
  "w_sent (access_world E c u sc sid t w) = w_sent w"
  by (simp_all add: access_world_def)

lemma family_access [simp]: "family_at E fam (access_world E' c u sc sid t w) = family_at E fam w"
  by (simp add: family_at_def)

lemma access_world_store:
  assumes "inv (w_store w)"
  shows "inv (w_store (access_world E c u sc sid t w))"
    and "abs (w_store (access_world E c u sc sid t w)) = (abs (w_store w))\<lparr>
      av_access := (av_access (abs (w_store w)))(HashToken t \<mapsto> access_row E c u sc sid t)\<rparr>"
  using put_access [OF assms, of "access_row E c u sc sid t"]
  by (simp_all add: access_row_def access_world_def)

lemma token_change_access:
  "inv (w_store w) \<Longrightarrow> token_change E c u sc fam sid w (Some t) None (access_world E c u sc sid t w)"
  by (simp add: token_change_def access_world_store same_but_audits_def)

lemma token_change_refresh:
  assumes "token_change E c u sc fam sid w acc None w1" and "w_ids w1 = w_ids w"
  shows "token_change E c u sc fam sid w acc (Some t) (refresh_world E c u sc fam sid t w1)"
proof -
  have inv: "inv (w_store w1)" using assms by (simp add: token_change_def)
  have fam: "family_at E fam w1 = family_at E fam w" using assms(2) by (simp add: family_at_def)
  have ab: "abs (w_store (refresh_world E c u sc fam sid t w1)) = (abs (w_store w1))\<lparr>
      av_refresh := (av_refresh (abs (w_store w1)))(HashToken t \<mapsto> refresh_row E c u sc (family_at E fam w) sid t)\<rparr>"
    and inv': "inv (w_store (refresh_world E c u sc fam sid t w1))"
    using put_refresh [OF inv, of "refresh_row E c u sc (family_at E fam w) sid t"]
    by (simp_all add: refresh_world_def fam refresh_row_def)
  show ?thesis
    using assms inv' unfolding token_change_def ab by (simp add: same_but_audits_iff refresh_world_def)
qed

lemma writeTokenResponse_eq:
  assumes inv: "inv (w_store w)"
  shows "writeTokenResponse R E r c u sc nonce wr fam sid w =
    (case av_users (abs (w_store w)) u of
       None \<Rightarrow> (clientError 400 ''invalid_grant'' ''user missing'' new_response, w)
     | Some usr \<Rightarrow>
    case token_at E (w_draws w) of
       None \<Rightarrow> (server_error ''token'', w\<lparr>w_draws := Suc (w_draws w)\<rparr>)
     | Some t \<Rightarrow>
    let w1 = access_world E c u sc sid t w in
    case SignIDToken E (oidcIDToken R E usr (cID c) nonce sid sc (w_store w1)) of
       Inl e \<Rightarrow> (server_error ''id_token'', w1)
     | Inr idt \<Rightarrow>
    if wr then
      (case token_at E (Suc (w_draws w)) of
         None \<Rightarrow> (server_error ''refresh'', w1\<lparr>w_draws := Suc (w_draws w1)\<rparr>)
       | Some t2 \<Rightarrow> token_ok R E r c u (token_json E t idt sc (Some t2)) (refresh_world E c u sc fam sid t2 w1))
    else token_ok R E r c u (token_json E t idt sc None) w1)"
proof -
  have acc: "issueAccess R E c u sc sid w = (case token_at E (w_draws w) of
      None \<Rightarrow> (Inl (ErrOther ''crypto/rand''), w\<lparr>w_draws := Suc (w_draws w)\<rparr>)
    | Some t \<Rightarrow> (Inr t, access_world E c u sc sid t w))"
    by (simp add: issueAccess_eq [OF inv] access_world_def split: option.split)
  have ref: "issueRefresh R E c u sc fam sid (access_world E c u sc sid t w) = (case token_at E (Suc (w_draws w)) of
      None \<Rightarrow> (Inl (ErrOther ''crypto/rand''), (access_world E c u sc sid t w)\<lparr>w_draws := Suc (Suc (w_draws w))\<rparr>)
    | Some t2 \<Rightarrow> (Inr t2, refresh_world E c u sc fam sid t2 (access_world E c u sc sid t w)))" for t
    by (simp add: issueRefresh_eq [OF access_world_store(1) [OF inv]] refresh_world_def split: option.split)
  show ?thesis
    by (simp add: writeTokenResponse_def get_by_id acc ref Let_def split: option.split sum.split)
qed

lemma writeTokenResponse_cases:
  assumes inv: "inv (w_store w)" and res: "writeTokenResponse R E r c u sc nonce wr fam sid w = (rs, w')"
  shows "(\<exists>acc. rs_status rs \<in> {400, 500} \<and> token_change E c u sc fam sid w acc None w') \<or>
    (\<exists>t idt usr. rs_status rs = 200 \<and> av_users (abs (w_store w)) u = Some usr \<and>
      token_at E (w_draws w) = Some t \<and>
      (if wr then \<exists>t2. token_at E (Suc (w_draws w)) = Some t2 \<and>
         rs_body rs = JsonBody (token_json E t idt sc (Some t2)) \<and>
         token_change E c u sc fam sid w (Some t) (Some t2) w'
       else rs_body rs = JsonBody (token_json E t idt sc None) \<and>
         token_change E c u sc fam sid w (Some t) None w'))"
proof -
  note ch0 = token_change_refl [OF inv] and ch1 = token_change_access [OF inv]
  note ch2 = token_change_refresh [OF ch1 access_world_sel(2)]
  note eqs = res [unfolded writeTokenResponse_eq [OF inv] token_ok_def server_error_def Let_def, symmetric]
  show ?thesis
  proof (cases "av_users (abs (w_store w)) u")
    case None
    with eqs ch0 [of E c u sc fam sid] show ?thesis by auto
  next
    case usr: (Some usr)
    show ?thesis
    proof (cases "token_at E (w_draws w)")
      case None
      with eqs usr token_change_draw [OF ch0, of E c u sc fam sid] show ?thesis by auto
    next
      case t: (Some t)
      let ?w1 = "access_world E c u sc sid t w"
      show ?thesis
      proof (cases "SignIDToken E (oidcIDToken R E usr (cID c) nonce sid sc (w_store ?w1))")
        case (Inl e)
        with eqs usr t ch1 [of E c u sc fam sid t] show ?thesis by auto
      next
        case (Inr idt)
        show ?thesis
        proof (cases "wr \<and> token_at E (Suc (w_draws w)) = None")
          case True
          with eqs usr t Inr token_change_draw [OF ch1, of E c u sc fam sid t] show ?thesis by auto
        next
          case False
          with eqs usr t Inr token_change_audit [OF ch1] token_change_audit [OF ch2] show ?thesis
            by (intro disjI2 exI [of _ t] exI [of _ idt] exI [of _ usr]) (auto split: if_splits option.splits)
        qed
      qed
    qed
  qed
qed

text \<open>Taking a code or a refresh token, as a step of the world.\<close>

definition code_taken :: "string \<Rightarrow> auth_code \<Rightarrow> 's world \<Rightarrow> 's world \<Rightarrow> bool" where
  "code_taken h row w w1 \<longleftrightarrow>
    av_codes (abs (w_store w)) h = Some row \<and> \<not> acUsed row \<and> inv (w_store w1) \<and>
    abs (w_store w1) = (abs (w_store w))\<lparr>av_codes := (av_codes (abs (w_store w)))(h \<mapsto> row\<lparr>acUsed := True\<rparr>)\<rparr> \<and>
    w1 = w\<lparr>w_store := w_store w1\<rparr>"

definition refresh_taken :: "string \<Rightarrow> refresh_token \<Rightarrow> 's world \<Rightarrow> 's world \<Rightarrow> bool" where
  "refresh_taken h row w w1 \<longleftrightarrow>
    av_refresh (abs (w_store w)) h = Some row \<and> \<not> rtRevoked row \<and> inv (w_store w1) \<and>
    abs (w_store w1) = (abs (w_store w))\<lparr>av_refresh := (av_refresh (abs (w_store w)))(h \<mapsto> row\<lparr>rtRevoked := True\<rparr>)\<rparr> \<and>
    w1 = w\<lparr>w_store := w_store w1\<rparr>"

lemma code_takenD:
  assumes "code_taken h row w w1"
  shows "inv (w_store w1)" and "w_draws w1 = w_draws w" and "w_ids w1 = w_ids w"
    and "av_codes (abs (w_store w)) h = Some row" and "\<not> acUsed row"
    and "av_codes (abs (w_store w1)) = (av_codes (abs (w_store w)))(h \<mapsto> row\<lparr>acUsed := True\<rparr>)"
    and "av_refresh (abs (w_store w1)) = av_refresh (abs (w_store w))"
    and "av_users (abs (w_store w1)) = av_users (abs (w_store w))"
  using assms by (cases w, cases w1, simp add: code_taken_def)+

lemma refresh_takenD:
  assumes "refresh_taken h row w w1"
  shows "inv (w_store w1)" and "w_draws w1 = w_draws w" and "w_ids w1 = w_ids w"
    and "av_refresh (abs (w_store w)) h = Some row" and "\<not> rtRevoked row"
    and "av_refresh (abs (w_store w1)) = (av_refresh (abs (w_store w)))(h \<mapsto> row\<lparr>rtRevoked := True\<rparr>)"
    and "av_codes (abs (w_store w1)) = av_codes (abs (w_store w))"
    and "av_users (abs (w_store w1)) = av_users (abs (w_store w))"
  using assms by (cases w, cases w1, simp add: refresh_taken_def)+

lemma take_code_step:
  assumes "inv (w_store w)"
  shows "(\<exists>e. on_store (TakeCode (AuthCodes R) h) w = (Inl e, w)) \<and>
      (\<nexists>row. av_codes (abs (w_store w)) h = Some row \<and> \<not> acUsed row) \<or>
    (\<exists>row w1. on_store (TakeCode (AuthCodes R) h) w = (Inr (row\<lparr>acUsed := True\<rparr>), w1) \<and> code_taken h row w w1)"
proof (cases "av_codes (abs (w_store w)) h")
  case None
  then show ?thesis using take_code_missing by (simp add: on_store_def)
next
  case (Some row)
  show ?thesis
  proof (cases "acUsed row")
    case True
    then show ?thesis using take_code_used [OF Some True] Some by (simp add: on_store_def)
  next
    case False
    obtain s1 where s1: "TakeCode (AuthCodes R) h (w_store w) = (Inr (row\<lparr>acUsed := True\<rparr>), s1)"
      using take_code [OF assms Some False] by (metis prod.collapse)
    then have "code_taken h row w (w\<lparr>w_store := s1\<rparr>)"
      using take_code [OF assms Some False] Some False by (simp add: code_taken_def)
    with s1 show ?thesis by (auto simp: on_store_def)
  qed
qed

lemma take_refresh_step:
  assumes "inv (w_store w)"
  shows "(\<exists>e. on_store (TakeRefresh (RefreshTokens R) h) w = (Inl e, w)) \<and>
      (\<nexists>row. av_refresh (abs (w_store w)) h = Some row \<and> \<not> rtRevoked row) \<or>
    (\<exists>row w1. on_store (TakeRefresh (RefreshTokens R) h) w = (Inr (row\<lparr>rtRevoked := True\<rparr>), w1) \<and>
      refresh_taken h row w w1)"
proof (cases "av_refresh (abs (w_store w)) h")
  case None
  then show ?thesis using take_refresh_missing by (simp add: on_store_def)
next
  case (Some row)
  show ?thesis
  proof (cases "rtRevoked row")
    case True
    then show ?thesis using take_refresh_used [OF Some True] Some by (simp add: on_store_def)
  next
    case False
    obtain s1 where s1: "TakeRefresh (RefreshTokens R) h (w_store w) = (Inr (row\<lparr>rtRevoked := True\<rparr>), s1)"
      using take_refresh [OF assms Some False] by (metis prod.collapse)
    then have "refresh_taken h row w (w\<lparr>w_store := s1\<rparr>)"
      using take_refresh [OF assms Some False] Some False by (simp add: refresh_taken_def)
    with s1 show ?thesis by (auto simp: on_store_def)
  qed
qed

lemma code_error_used [simp]: "code_error E r c (row\<lparr>acUsed := b\<rparr>) = code_error E r c row"
  by (simp add: code_error_def)

lemma tokenAuthCode_cases:
  assumes inv: "inv (w_store w)" and res: "tokenAuthCode R E r w = (rs, w')"
  shows "rs_status rs \<in> {400, 401} \<and> w' = w \<or>
    (\<exists>c row w1. authenticateClient R E r (w_store w) = Some c \<and> FormValue r ''code'' \<noteq> [] \<and>
      code_taken (HashToken (FormValue r ''code'')) row w w1 \<and>
      (code_error E r c row \<noteq> None \<and> rs_status rs = 400 \<and> w' = w1 \<or>
       code_error E r c row = None \<and>
       writeTokenResponse R E r c (acUserID row) (acScopes row) (acNonce row)
         (''offline_access'' \<in> set (acScopes row)) [] (acSessionSID row) w1 = (rs, w')))"
proof (cases "authenticateClient R E r (w_store w)")
  case None
  then show ?thesis using res by (auto simp: tokenAuthCode_def)
next
  case c: (Some c)
  show ?thesis
  proof (cases "FormValue r ''code'' = []")
    case True
    then show ?thesis using res c by (auto simp: tokenAuthCode_def)
  next
    case plain: False
    from take_code_step [OF inv, of "HashToken (FormValue r ''code'')"] show ?thesis
    proof (elim disjE conjE exE)
      fix e assume "on_store (TakeCode (AuthCodes R) (HashToken (FormValue r ''code''))) w = (Inl e, w)"
      then show ?thesis using res c plain by (auto simp: tokenAuthCode_def)
    next
      fix row w1
      assume t: "on_store (TakeCode (AuthCodes R) (HashToken (FormValue r ''code''))) w = (Inr (row\<lparr>acUsed := True\<rparr>), w1)"
        and taken: "code_taken (HashToken (FormValue r ''code'')) row w w1"
      from res c plain t taken show ?thesis
        by (intro disjI2 exI [of _ c] exI [of _ row] exI [of _ w1], cases "code_error E r c row")
          (auto simp: tokenAuthCode_def)
    qed
  qed
qed

lemma revoke_row_inv:
  assumes "inv (w_store w)"
  shows "inv (w_store (revoke_row R E r row w))"
    and "same_but_audits (abs (w_store (revoke_row R E r row w)))
      ((abs (w_store w))\<lparr>av_refresh := (\<lambda>h. map_option
        (\<lambda>t. if rtFamilyID t = rtFamilyID row then t\<lparr>rtRevoked := True\<rparr> else t) (av_refresh (abs (w_store w)) h))\<rparr>)"
  using revoke_family [OF assms, of "rtFamilyID row"]
    audit_inv [of "snd (on_store (RevokeFamily (RefreshTokens R) (rtFamilyID row)) w)"]
    audit_same [of "snd (on_store (RevokeFamily (RefreshTokens R) (rtFamilyID row)) w)"]
  by (simp_all add: revoke_row_def)

lemma revoke_row_codes:
  "inv (w_store w) \<Longrightarrow> av_codes (abs (w_store (revoke_row R E r row w))) = av_codes (abs (w_store w))"
  using same_but_auditsD(5) [OF revoke_row_inv(2)] by simp

lemma revoke_row_refresh:
  "inv (w_store w) \<Longrightarrow> av_refresh (abs (w_store (revoke_row R E r row w))) =
    (\<lambda>h. map_option (\<lambda>t. if rtFamilyID t = rtFamilyID row then t\<lparr>rtRevoked := True\<rparr> else t)
      (av_refresh (abs (w_store w)) h))"
  using same_but_auditsD(6) [OF revoke_row_inv(2)] by simp

lemma revoke_row_world [simp]:
  "w_draws (revoke_row R E r row w) = w_draws w" "w_ids (revoke_row R E r row w) = Suc (w_ids w)"
  "w_hits (revoke_row R E r row w) = w_hits w" "w_pending (revoke_row R E r row w) = w_pending w"
  "w_sent (revoke_row R E r row w) = w_sent w"
  by (simp_all add: revoke_row_def)

lemma tokenRefresh_cases:
  assumes inv: "inv (w_store w)" and res: "tokenRefresh R E r w = (rs, w')"
  shows "rs_status rs \<in> {400, 401} \<and> w' = w \<or>
    (\<exists>c row. authenticateClient R E r (w_store w) = Some c \<and> rs_status rs = 400 \<and>
      av_refresh (abs (w_store w)) (HashToken (FormValue r ''refresh_token'')) = Some row \<and> rtRevoked row \<and>
      w' = revoke_row R E r row w) \<or>
    (\<exists>c row w1. authenticateClient R E r (w_store w) = Some c \<and>
      refresh_taken (HashToken (FormValue r ''refresh_token'')) row w w1 \<and>
      ((rtExpiresAt row \<le> Now E \<or> rtClientID row \<noteq> cID c) \<and> rs_status rs = 400 \<and>
         w' = revoke_row R E r (row\<lparr>rtRevoked := True\<rparr>) w1 \<or>
       Now E < rtExpiresAt row \<and> rtClientID row = cID c \<and>
       writeTokenResponse R E r c (rtUserID row) (rtScopes row) [] True (rtFamilyID row)
         (rtSessionSID row) w1 = (rs, w')))"
proof (cases "authenticateClient R E r (w_store w)")
  case None
  then show ?thesis using res by (auto simp: tokenRefresh_def)
next
  case c: (Some c)
  let ?h = "HashToken (FormValue r ''refresh_token'')"
  from take_refresh_step [OF inv, of ?h] show ?thesis
  proof (elim disjE conjE exE)
    fix e
    assume "on_store (TakeRefresh (RefreshTokens R) ?h) w = (Inl e, w)"
      and "\<nexists>row. av_refresh (abs (w_store w)) ?h = Some row \<and> \<not> rtRevoked row"
    then show ?thesis using res c get_refresh
      by (cases "av_refresh (abs (w_store w)) ?h") (auto simp: tokenRefresh_def)
  next
    fix row w1
    assume t: "on_store (TakeRefresh (RefreshTokens R) ?h) w = (Inr (row\<lparr>rtRevoked := True\<rparr>), w1)"
      and taken: "refresh_taken ?h row w w1"
    from res c t taken show ?thesis
      by (intro disjI2 exI [of _ c] exI [of _ row] exI [of _ w1],
          cases "Now E < rtExpiresAt row \<and> rtClientID row = cID c")
        (auto simp: tokenRefresh_def)
  qed
qed

subsubsection \<open>Every outcome\<close>

lemma token_changeD:
  assumes "token_change E c u sc fam sid w acc ref w'"
  shows "inv (w_store w')" "av_codes (abs (w_store w')) = av_codes (abs (w_store w))"
    "av_users (abs (w_store w')) = av_users (abs (w_store w))"
    "av_access (abs (w_store w')) = (case acc of None \<Rightarrow> av_access (abs (w_store w))
        | Some t \<Rightarrow> (av_access (abs (w_store w)))(HashToken t \<mapsto> access_row E c u sc sid t))"
    "av_refresh (abs (w_store w')) = (case ref of None \<Rightarrow> av_refresh (abs (w_store w))
        | Some t \<Rightarrow> (av_refresh (abs (w_store w)))(HashToken t \<mapsto>
            refresh_row E c u sc (family_at E fam w) sid t))"
  using assms by (simp_all add: token_change_def same_but_audits_iff)

lemma writeTokenResponse_change:
  assumes "inv (w_store w)" and "writeTokenResponse R E r c u sc nonce wr fam sid w = (rs, w')"
  shows "\<exists>acc ref. token_change E c u sc fam sid w acc ref w'"
  using writeTokenResponse_cases [OF assms] by (auto split: if_splits)

definition code_spent :: "string \<Rightarrow> 's world \<Rightarrow> bool" where
  "code_spent h w \<longleftrightarrow> (\<exists>row. av_codes (abs (w_store w)) h = Some row \<and> acUsed row)"

lemma taken_codes:
  "code_taken h row w w1 \<Longrightarrow> code_spent h w1 \<and> \<not> code_spent h w \<and> (code_spent k w \<longrightarrow> code_spent k w1)"
  by (auto simp: code_taken_def code_spent_def)

lemma tokenAuthCode_inv:
  assumes "inv (w_store w)"
  shows "inv (w_store (snd (tokenAuthCode R E r w)))"
    and "code_spent h w \<Longrightarrow> code_spent h (snd (tokenAuthCode R E r w))"
    and "rs_status (fst (tokenAuthCode R E r w)) = 200 \<Longrightarrow>
      \<not> code_spent (HashToken (FormValue r ''code'')) w \<and>
      code_spent (HashToken (FormValue r ''code'')) (snd (tokenAuthCode R E r w))"
proof -
  obtain rs w' where res: "tokenAuthCode R E r w = (rs, w')" by fastforce
  have "inv (w_store w') \<and> (code_spent h w \<longrightarrow> code_spent h w') \<and>
    (rs_status rs = 200 \<longrightarrow> \<not> code_spent (HashToken (FormValue r ''code'')) w \<and>
      code_spent (HashToken (FormValue r ''code'')) w')"
    using tokenAuthCode_cases [OF assms res]
  proof (elim disjE conjE exE)
    fix c row w1
    assume taken: "code_taken (HashToken (FormValue r ''code'')) row w w1"
      and wtr: "writeTokenResponse R E r c (acUserID row) (acScopes row) (acNonce row)
        (''offline_access'' \<in> set (acScopes row)) [] (acSessionSID row) w1 = (rs, w')"
    then obtain acc ref where ch: "token_change E c (acUserID row) (acScopes row) [] (acSessionSID row) w1 acc ref w'"
      using writeTokenResponse_change [OF _ wtr] taken unfolding code_taken_def by blast
    have "code_spent k w1 \<longleftrightarrow> code_spent k w'" for k
      using token_changeD(2) [OF ch] by (simp add: code_spent_def)
    then show ?thesis using token_changeD(1) [OF ch] taken_codes [OF taken] by simp
  qed (use assms taken_codes in \<open>auto simp: code_taken_def\<close>)
  with res show "inv (w_store (snd (tokenAuthCode R E r w)))"
    and "code_spent h w \<Longrightarrow> code_spent h (snd (tokenAuthCode R E r w))"
    and "rs_status (fst (tokenAuthCode R E r w)) = 200 \<Longrightarrow>
      \<not> code_spent (HashToken (FormValue r ''code'')) w \<and>
      code_spent (HashToken (FormValue r ''code'')) (snd (tokenAuthCode R E r w))"
    by simp_all
qed

lemma tokenRefresh_codes:
  assumes "inv (w_store w)"
  shows "inv (w_store (snd (tokenRefresh R E r w)))"
    and "av_codes (abs (w_store (snd (tokenRefresh R E r w)))) = av_codes (abs (w_store w))"
proof -
  obtain rs w' where res: "tokenRefresh R E r w = (rs, w')" by fastforce
  have "inv (w_store w') \<and> av_codes (abs (w_store w')) = av_codes (abs (w_store w))"
    using tokenRefresh_cases [OF assms res]
  proof (elim disjE conjE exE)
    fix c row w1
    assume taken: "refresh_taken (HashToken (FormValue r ''refresh_token'')) row w w1"
      and wtr: "writeTokenResponse R E r c (rtUserID row) (rtScopes row) [] True (rtFamilyID row)
         (rtSessionSID row) w1 = (rs, w')"
    then obtain acc ref where ch: "token_change E c (rtUserID row) (rtScopes row) (rtFamilyID row) (rtSessionSID row) w1 acc ref w'"
      using writeTokenResponse_change [OF _ wtr] taken unfolding refresh_taken_def by blast
    show ?thesis using token_changeD [OF ch] taken by (simp add: refresh_taken_def)
  qed (simp_all add: assms revoke_row_inv(1) revoke_row_codes refresh_taken_def)
  with res show "inv (w_store (snd (tokenRefresh R E r w)))"
    and "av_codes (abs (w_store (snd (tokenRefresh R E r w)))) = av_codes (abs (w_store w))"
    by simp_all
qed

lemma handleToken_inv: "inv (w_store w) \<Longrightarrow> inv (w_store (snd (handleToken R E r w)))"
  using tokenAuthCode_inv(1) tokenRefresh_codes(1) by (simp add: handleToken_def Let_def)

lemma handleToken_spent:
  "inv (w_store w) \<Longrightarrow> code_spent h w \<Longrightarrow> code_spent h (snd (handleToken R E r w))"
  using tokenAuthCode_inv(2) [of w h] tokenRefresh_codes(2) [of w]
  by (simp add: handleToken_def Let_def code_spent_def)

lemma handleToken_code_200:
  assumes "inv (w_store w)" and "rs_status (fst (handleToken R E r w)) = 200"
    and "FormValue r ''grant_type'' = ''authorization_code''"
  shows "\<not> code_spent (HashToken (FormValue r ''code'')) w"
    and "code_spent (HashToken (FormValue r ''code'')) (snd (handleToken R E r w))"
  using tokenAuthCode_inv(3) [OF assms(1)] assms(2,3)
  by (auto simp: handleToken_def Let_def split: if_splits)

end

subsection \<open>Refresh token families\<close>

text \<open>
  Every family identifier was drawn (\<open>U j\<close> for a \<open>j\<close> below the number of draws), and a family
  has at most one refresh token that is not revoked.
\<close>

definition families_ok :: "(nat \<Rightarrow> string) \<Rightarrow> nat \<Rightarrow> (string \<rightharpoonup> refresh_token) \<Rightarrow> bool" where
  "families_ok U n T \<longleftrightarrow>
    (\<forall>h t. T h = Some t \<longrightarrow> (\<exists>j < n. rtFamilyID t = U j)) \<and>
    (\<forall>h h' t t'. T h = Some t \<longrightarrow> T h' = Some t' \<longrightarrow> \<not> rtRevoked t \<longrightarrow> \<not> rtRevoked t' \<longrightarrow>
      rtFamilyID t = rtFamilyID t' \<longrightarrow> h = h')"

definition family_dead :: "string \<Rightarrow> (string \<rightharpoonup> refresh_token) \<Rightarrow> bool" where
  "family_dead f T \<longleftrightarrow> (\<forall>h t. T h = Some t \<longrightarrow> rtFamilyID t = f \<longrightarrow> rtRevoked t)"

lemma families_mono: "families_ok U n T \<Longrightarrow> n \<le> m \<Longrightarrow> families_ok U m T"
  unfolding families_ok_def by (meson less_le_trans)

lemma families_taken:
  assumes "families_ok U n T" and "T h = Some t" and "\<not> rtRevoked t"
  shows "families_ok U n (T(h \<mapsto> t\<lparr>rtRevoked := True\<rparr>))"
    and "family_dead (rtFamilyID t) (T(h \<mapsto> t\<lparr>rtRevoked := True\<rparr>))"
    and "\<exists>j < n. rtFamilyID t = U j"
proof -
  show "\<exists>j < n. rtFamilyID t = U j" using assms by (simp add: families_ok_def)
  have "h' = h" if "T h' = Some t'" "\<not> rtRevoked t'" "rtFamilyID t' = rtFamilyID t" for h' t'
    using assms that unfolding families_ok_def by blast
  then show "family_dead (rtFamilyID t) (T(h \<mapsto> t\<lparr>rtRevoked := True\<rparr>))"
    by (auto simp: family_dead_def)
  show "families_ok U n (T(h \<mapsto> t\<lparr>rtRevoked := True\<rparr>))"
    using assms unfolding families_ok_def
    by (auto split: if_splits)
qed

lemma families_revoked:
  assumes "families_ok U n T"
  shows "families_ok U n (\<lambda>h. map_option (\<lambda>t. if rtFamilyID t = f then t\<lparr>rtRevoked := True\<rparr> else t) (T h))"
  unfolding families_ok_def
proof (intro conjI allI impI)
  fix h t assume "map_option (\<lambda>t. if rtFamilyID t = f then t\<lparr>rtRevoked := True\<rparr> else t) (T h) = Some t"
  then obtain t0 where "T h = Some t0" "rtFamilyID t = rtFamilyID t0" by (auto split: if_splits)
  then show "\<exists>j < n. rtFamilyID t = U j" using assms by (auto simp: families_ok_def)
next
  fix h h' t t'
  assume "map_option (\<lambda>t. if rtFamilyID t = f then t\<lparr>rtRevoked := True\<rparr> else t) (T h) = Some t"
    "map_option (\<lambda>t. if rtFamilyID t = f then t\<lparr>rtRevoked := True\<rparr> else t) (T h') = Some t'"
    "\<not> rtRevoked t" "\<not> rtRevoked t'" "rtFamilyID t = rtFamilyID t'"
  then have "T h = Some t" "T h' = Some t'" by (auto split: if_splits)
  then show "h = h'" using assms \<open>\<not> rtRevoked t\<close> \<open>\<not> rtRevoked t'\<close> \<open>rtFamilyID t = rtFamilyID t'\<close>
    by (auto simp: families_ok_def)
qed

lemma family_dead_revoked:
  "family_dead f (\<lambda>h. map_option (\<lambda>t. if rtFamilyID t = f then t\<lparr>rtRevoked := True\<rparr> else t) (T h))"
  unfolding family_dead_def
proof (intro allI impI)
  fix h t
  assume "map_option (\<lambda>t. if rtFamilyID t = f then t\<lparr>rtRevoked := True\<rparr> else t) (T h) = Some t" "rtFamilyID t = f"
  then obtain t0 where "(if rtFamilyID t0 = f then t0\<lparr>rtRevoked := True\<rparr> else t0) = t"
    unfolding map_option_eq_Some by blast
  with \<open>rtFamilyID t = f\<close> show "rtRevoked t" by (cases "rtFamilyID t0 = f") auto
qed

lemma families_put:
  assumes "families_ok U n T" and "family_dead (rtFamilyID t) T" and "\<exists>j < n. rtFamilyID t = U j"
  shows "families_ok U n (T(h \<mapsto> t))"
  using assms by (auto simp: families_ok_def family_dead_def)

lemma family_fresh: "families_ok U n T \<Longrightarrow> inj U \<Longrightarrow> family_dead (U n) T"
  by (auto simp: families_ok_def family_dead_def inj_eq) (metis inj_eq less_irrefl)

context repos_contract
begin

abbreviation world_families :: "env \<Rightarrow> 's world \<Rightarrow> bool" where
  "world_families E w \<equiv> families_ok (ULID E) (w_ids w) (av_refresh (abs (w_store w)))"

lemma change_families:
  assumes ch: "token_change E c u sc fam sid w acc ref w'" and ok: "world_families E w"
    and "inj (ULID E)" and "fam \<noteq> [] \<Longrightarrow> family_dead fam (av_refresh (abs (w_store w))) \<and> (\<exists>j < w_ids w. fam = ULID E j)"
  shows "world_families E w'"
proof (cases ref)
  case None
  then show ?thesis using token_changeD(5) [OF ch] families_mono [OF ok] ch by (simp add: token_change_def)
next
  case (Some t)
  let ?row = "refresh_row E c u sc (family_at E fam w) sid t"
  have ids: "w_ids w \<le> w_ids w'" "fam = [] \<longrightarrow> w_ids w < w_ids w'" using ch Some by (auto simp: token_change_def)
  have "family_dead (rtFamilyID ?row) (av_refresh (abs (w_store w)))"
    and "\<exists>j < w_ids w'. rtFamilyID ?row = ULID E j"
    using assms(4) ids family_fresh [OF ok assms(3)] by (auto simp: refresh_row_def family_at_def intro: less_le_trans)
  then have "families_ok (ULID E) (w_ids w') ((av_refresh (abs (w_store w)))(HashToken t \<mapsto> ?row))"
    using families_put [OF families_mono [OF ok ids(1)], of ?row] by simp
  then show ?thesis using token_changeD(5) [OF ch] Some by simp
qed

lemma tokenAuthCode_families:
  assumes inv: "inv (w_store w)" and ok: "world_families E w" and "inj (ULID E)"
  shows "world_families E (snd (tokenAuthCode R E r w))"
proof -
  obtain rs w' where res: "tokenAuthCode R E r w = (rs, w')" by fastforce
  have "world_families E w'"
    using tokenAuthCode_cases [OF inv res]
  proof (elim disjE conjE exE)
    fix c row w1
    assume taken: "code_taken (HashToken (FormValue r ''code'')) row w w1"
      and wtr: "writeTokenResponse R E r c (acUserID row) (acScopes row) (acNonce row)
        (''offline_access'' \<in> set (acScopes row)) [] (acSessionSID row) w1 = (rs, w')"
    note w1 = code_takenD [OF taken]
    obtain acc ref where ch: "token_change E c (acUserID row) (acScopes row) [] (acSessionSID row) w1 acc ref w'"
      using writeTokenResponse_change [OF w1(1) wtr] by blast
    show ?thesis by (rule change_families [OF ch _ assms(3)]) (simp_all add: w1 ok)
  qed (use ok code_takenD(3,7) in auto)
  with res show ?thesis by simp
qed

lemma tokenRefresh_families:
  assumes inv: "inv (w_store w)" and ok: "world_families E w" and "inj (ULID E)"
  shows "world_families E (snd (tokenRefresh R E r w))"
proof -
  obtain rs w' where res: "tokenRefresh R E r w = (rs, w')" by fastforce
  have taken_ok: "world_families E w1 \<and> family_dead (rtFamilyID row) (av_refresh (abs (w_store w1))) \<and>
      (\<exists>j < w_ids w1. rtFamilyID row = ULID E j)" if "refresh_taken h row w w1" for h row w1
    using families_taken [OF ok, of h row] refresh_takenD [OF that] by simp
  have revoked: "world_families E (revoke_row R E r row w1)" if "inv (w_store w1)" "world_families E w1" for row w1
    using families_mono [OF families_revoked [OF that(2)], of "Suc (w_ids w1)"]
    by (simp add: revoke_row_refresh [OF that(1)])
  have "world_families E w'"
    using tokenRefresh_cases [OF inv res]
  proof (elim disjE conjE exE)
    fix c row w1
    assume taken: "refresh_taken (HashToken (FormValue r ''refresh_token'')) row w w1"
      and wtr: "writeTokenResponse R E r c (rtUserID row) (rtScopes row) [] True (rtFamilyID row)
         (rtSessionSID row) w1 = (rs, w')"
    obtain acc ref where ch: "token_change E c (rtUserID row) (rtScopes row) (rtFamilyID row) (rtSessionSID row) w1 acc ref w'"
      using writeTokenResponse_change [OF refresh_takenD(1) [OF taken] wtr] by blast
    show ?thesis by (rule change_families [OF ch _ assms(3)]) (use taken_ok [OF taken] in auto)
  qed (use inv ok revoked taken_ok refresh_takenD(1) in auto)
  with res show ?thesis by simp
qed

lemma handleToken_families:
  "inv (w_store w) \<Longrightarrow> world_families E w \<Longrightarrow> inj (ULID E) \<Longrightarrow> world_families E (snd (handleToken R E r w))"
  using tokenAuthCode_families tokenRefresh_families by (simp add: handleToken_def Let_def)

end

end
