(* ===== verification/WebJson.thy ===== *)
theory WebJson
  imports WebToken
begin

section \<open>JSON bodies and timestamps\<close>

text \<open>
  What the JSON handlers share: \<open>decodeJSON\<close> and \<open>writeJSON\<close> of \<open>internal/web/admin.go\<close>, with the
  rules of \<open>encoding/json\<close> for decoding an object into a struct (an exact field name wins over one
  that differs in case, \<open>null\<close> leaves a scalar alone, a value of another type is an error, the last of
  several equal keys counts), the two layouts in which instants are printed, and \<open>strconv.Atoi\<close>. The body of a
  request is the JSON value at its front; it is at most 1 MiB, the limit of \<open>decodeJSON\<close>.
\<close>

subsection \<open>Decoding into a struct\<close>

type_synonym 'a decoder = "json \<Rightarrow> 'a \<Rightarrow> 'a option"

fun decode_string :: "string decoder" where
  "decode_string JNull old = Some old"
| "decode_string (JStr s) old = Some s"
| "decode_string _ old = None"

fun decode_bool :: "bool decoder" where
  "decode_bool JNull old = Some old"
| "decode_bool (JBool b) old = Some b"
| "decode_bool _ old = None"

fun those_strings :: "json list \<Rightarrow> string list option" where
  "those_strings [] = Some []"
| "those_strings (j # js) =
    (case decode_string j [] of
       None \<Rightarrow> None
     | Some s \<Rightarrow> map_option (Cons s) (those_strings js))"

fun decode_strings :: "string list decoder" where
  "decode_strings JNull old = Some []"
| "decode_strings (JArr js) old = those_strings js"
| "decode_strings _ old = None"

text \<open>The fields of a struct: the JSON name of each and how its value is stored.\<close>

type_synonym 'r fields = "(string \<times> 'r decoder) list"

definition field :: "string \<Rightarrow> 'a decoder \<Rightarrow> ('r \<Rightarrow> 'a) \<Rightarrow> (('a \<Rightarrow> 'a) \<Rightarrow> 'r \<Rightarrow> 'r) \<Rightarrow> string \<times> 'r decoder" where
  "field name dec_val get_val upd = (name, \<lambda>j r. map_option (\<lambda>v. upd (\<lambda>_. v) r) (dec_val j (get_val r)))"

definition find_field :: "'r fields \<Rightarrow> string \<Rightarrow> 'r decoder option" where
  "find_field fs key =
    (case map_of fs key of
       Some d \<Rightarrow> Some d
     | None \<Rightarrow> map_option snd (find (\<lambda>(name, d). EqualFold name key) fs))"

fun decode_members :: "bool \<Rightarrow> 'r fields \<Rightarrow> (string \<times> json) list \<Rightarrow> 'r \<Rightarrow> 'r option" where
  "decode_members strict fs [] r = Some r"
| "decode_members strict fs ((key, j) # kvs) r =
    (case find_field fs key of
       None \<Rightarrow> if strict then None else decode_members strict fs kvs r
     | Some d \<Rightarrow>
         (case d j r of
            None \<Rightarrow> None
          | Some r' \<Rightarrow> decode_members strict fs kvs r'))"

fun decode_struct :: "bool \<Rightarrow> 'r fields \<Rightarrow> 'r decoder" where
  "decode_struct strict fs (JObj kvs) r = decode_members strict fs kvs r"
| "decode_struct strict fs JNull r = Some r"
| "decode_struct strict fs _ r = None"

text \<open>\<open>decodeJSON\<close> refuses unknown fields; the organization API decodes without that option.\<close>

definition decodeJSON :: "'r fields \<Rightarrow> 'r \<Rightarrow> request \<Rightarrow> 'r option" where
  "decodeJSON fs zero r = (case r_json r of None \<Rightarrow> None | Some j \<Rightarrow> decode_struct True fs j zero)"

definition looseJSON :: "'r fields \<Rightarrow> 'r \<Rightarrow> request \<Rightarrow> 'r option" where
  "looseJSON fs zero r = (case r_json r of None \<Rightarrow> None | Some j \<Rightarrow> decode_struct False fs j zero)"

definition writeJSON :: "nat \<Rightarrow> json \<Rightarrow> response \<Rightarrow> response" where
  "writeJSON status j rs =
    (set_header ''Cache-Control'' ''no-store'' (set_header ''Content-Type'' ''application/json'' rs))
      \<lparr>rs_status := status, rs_body := JsonBody j\<rparr>"

definition writeHeader :: "nat \<Rightarrow> response \<Rightarrow> response" where
  "writeHeader status rs = rs\<lparr>rs_status := status\<rparr>"

lemma writeJSON_simps [simp]:
  "Location (writeJSON st j rs) = Location rs" "rs_status (writeJSON st j rs) = st"
  "rs_body (writeJSON st j rs) = JsonBody j" "rs_status (writeHeader st rs) = st"
  by (simp_all add: writeJSON_def writeHeader_def Location_def http_defs)

subsection \<open>Timestamps\<close>

text \<open>
  The civil date of a day number (day 0 is 1 January 1970), by counting in eras of 400 years that
  start on 1 March, and the layouts \<open>2006-01-02T15:04:05Z\<close> and \<open>time.RFC3339Nano\<close> of an instant in UTC.
\<close>

definition civil :: "int \<Rightarrow> int \<times> int \<times> int" where
  "civil days =
    (let z = days + 719468; era = z div 146097; doe = z mod 146097;
         yoe = (doe - doe div 1460 + doe div 36524 - doe div 146096) div 365;
         doy = doe - (365 * yoe + yoe div 4 - yoe div 100);
         mp = (5 * doy + 2) div 153;
         d = doy - (153 * mp + 2) div 5 + 1;
         m = (if mp < 10 then mp + 3 else mp - 9)
     in (yoe + era * 400 + (if m \<le> 2 then 1 else 0), m, d))"

definition pad :: "nat \<Rightarrow> int \<Rightarrow> string" where
  "pad n x = (let s = dec (nat x) in replicate (n - length s) CHR ''0'' @ s)"

definition format_seconds :: "int \<Rightarrow> string" where
  "format_seconds t =
    (let secs = t div second; days = secs div 86400; s = secs mod 86400;
         (y, m, d) = civil days
     in pad 4 y @ ''-'' @ pad 2 m @ ''-'' @ pad 2 d @ ''T'' @
        pad 2 (s div 3600) @ '':'' @ pad 2 (s div 60 mod 60) @ '':'' @ pad 2 (s mod 60))"

definition format_Z :: "int \<Rightarrow> string" where
  "format_Z t = format_seconds t @ ''Z''"

definition format_fraction :: "int \<Rightarrow> string" where
  "format_fraction ns =
    (if ns = 0 then [] else ''.'' @ rev (dropWhile (\<lambda>c. c = CHR ''0'') (rev (pad 9 ns))))"

definition time_json :: "int \<Rightarrow> json" where
  "time_json t = JStr (format_seconds t @ format_fraction (t mod second) @ ''Z'')"

subsection \<open>Numbers of a query\<close>

text \<open>\<open>strconv.Atoi\<close>; \<open>None\<close> is a syntax or range error.\<close>

definition Atoi :: "string \<Rightarrow> int option" where
  "Atoi s =
    (let (neg, ds) = (case s of
           [] \<Rightarrow> (False, [])
         | c # t \<Rightarrow> if c = CHR ''-'' then (True, t) else if c = CHR ''+'' then (False, t) else (False, s))
     in if ds = [] then None
        else case parse_digits 0 ds of
          None \<Rightarrow> None
        | Some n \<Rightarrow>
            if neg then (if n \<le> 2 ^ 63 then Some (- int n) else None)
            else (if n < 2 ^ 63 then Some (int n) else None))"

lemma Atoi_range: "Atoi s = Some n \<Longrightarrow> - (2 ^ 63) \<le> n \<and> n < 2 ^ 63"
  by (auto simp: Atoi_def Let_def split: option.splits if_splits prod.splits)

end
