(* ===== verification/WebOrgs.thy ===== *)
theory WebOrgs
  imports WebJson
begin

section \<open>The organization API\<close>

text \<open>
  \<open>internal/web/orgs.go\<close>: a bearer of an access token creates and lists organizations, reads the
  members of one it belongs to, and chooses the active organization, either of the browser session
  (cookie) or of the session the token came from. The token must be live and its user enabled.
\<close>

record bearer_user =
  buUser :: user
  buScopes :: "string list"

definition bearerUser :: "'s repos \<Rightarrow> env \<Rightarrow> request \<Rightarrow> 's \<Rightarrow> bearer_user option" where
  "bearerUser R E r s =
    (let raw = bearer r in
     if raw = [] then None
     else case GetAccess (AccessTokens R) (HashToken raw) s of
       Inl e \<Rightarrow> None
     | Inr tok \<Rightarrow>
    if \<not> Now E < atExpiresAt tok then None
    else case GetByID (Users R) (atUserID tok) s of
       Inl e \<Rightarrow> None
     | Inr u \<Rightarrow> if uDisabled u then None else Some \<lparr>buUser = u, buScopes = atScopes tok\<rparr>)"

definition bearer_required :: response where
  "bearer_required =
    clientError 401 ''invalid_token'' ''bearer required'' (set_header ''WWW-Authenticate'' ''Bearer'' new_response)"

text \<open>The request bodies \<open>{"name": ...}\<close> and \<open>{"orgId": ...}\<close>.\<close>

definition name_body :: "request \<Rightarrow> string option" where
  "name_body r = looseJSON [(''name'', decode_string)] [] r"

definition org_id_body :: "request \<Rightarrow> string option" where
  "org_id_body r = looseJSON [(''orgId'', decode_string)] [] r"

definition org_json :: "organization \<Rightarrow> json" where
  "org_json org =
    JObj [(''id'', JStr (oID org)), (''name'', JStr (oName org)), (''createdAt'', time_json (oCreatedAt org))]"

definition detail_json :: "member_detail \<Rightarrow> json" where
  "detail_json d =
    JObj ([(''userId'', JStr (dUserID d)), (''role'', JStr (dRole d))] @
      (if dEmail d \<noteq> [] then [(''email'', JStr (dEmail d))] else []) @
      (if dName d \<noteq> [] then [(''name'', JStr (dName d))] else []) @
      [(''joinedAt'', time_json (dJoinedAt d))])"

definition handleCreateOrganization :: "'s repos \<Rightarrow> env \<Rightarrow> request \<Rightarrow> 's world \<Rightarrow> response \<times> 's world" where
  "handleCreateOrganization R E r w =
    (case bearerUser R E r (w_store w) of
       None \<Rightarrow> (bearer_required, w)
     | Some u \<Rightarrow>
    case name_body r of
       None \<Rightarrow> (clientError 400 ''invalid_request'' ''json'' new_response, w)
     | Some name \<Rightarrow>
    case Create_org R E (uID (buUser u)) name w of
       (Inl e, w) \<Rightarrow>
         (if e = ErrInvalid then clientError 400 ''invalid_request'' ''name'' new_response
          else clientError 500 ''server_error'' ''org'' new_response, w)
     | (Inr created, w) \<Rightarrow> (writeJSON 201 (org_json created) new_response, w))"

definition handleListOrganizations :: "'s repos \<Rightarrow> env \<Rightarrow> request \<Rightarrow> 's world \<Rightarrow> response \<times> 's world" where
  "handleListOrganizations R E r w =
    (case bearerUser R E r (w_store w) of
       None \<Rightarrow> (bearer_required, w)
     | Some u \<Rightarrow>
    case ListForUser R (uID (buUser u)) (w_store w) of
       Inl e \<Rightarrow> (clientError 500 ''server_error'' ''org'' new_response, w)
     | Inr orgs \<Rightarrow> (writeJSON 200 (JObj [(''organizations'', JArr (map org_json orgs))]) new_response, w))"

definition members_path_org :: "request \<Rightarrow> string" where
  "members_path_org r = TrimSuffix (TrimPrefix (r_path r) ''/v1/organizations/'') ''/members''"

definition handleListOrganizationMembers :: "'s repos \<Rightarrow> env \<Rightarrow> request \<Rightarrow> 's world \<Rightarrow> response \<times> 's world" where
  "handleListOrganizationMembers R E r w =
    (case bearerUser R E r (w_store w) of
       None \<Rightarrow> (bearer_required, w)
     | Some u \<Rightarrow>
    case ListMembers R (uID (buUser u)) (members_path_org r) (w_store w) of
       Inl e \<Rightarrow>
         (if e = ErrForbidden then clientError 403 ''access_denied'' ''not a member'' new_response
          else clientError 500 ''server_error'' ''org'' new_response, w)
     | Inr members \<Rightarrow> (writeJSON 200 (JObj [(''members'', JArr (map detail_json members))]) new_response, w))"

definition handleSetActiveOrg :: "'s repos \<Rightarrow> env \<Rightarrow> request \<Rightarrow> 's world \<Rightarrow> response \<times> 's world" where
  "handleSetActiveOrg R E r w =
    (case currentUser R E r w of
       (None, w) \<Rightarrow> (http_Redirect r ''/login'' 302 new_response, w)
     | (Some u, w) \<Rightarrow>
    case Cookie r CookieName of
       None \<Rightarrow> (clientError 401 ''invalid_request'' ''session'' new_response, w)
     | Some c \<Rightarrow>
    case org_id_body r of
       None \<Rightarrow> (clientError 400 ''invalid_request'' ''json'' new_response, w)
     | Some org \<Rightarrow>
    case SetActiveOrg R (uID u) (HashToken c) (TrimSpace org) w of
       (Inl e, w) \<Rightarrow>
         (if e = ErrForbidden then clientError 403 ''access_denied'' ''not a member'' new_response
          else clientError 400 ''invalid_request'' ''org'' new_response, w)
     | (Inr _, w) \<Rightarrow> (writeHeader 204 new_response, w))"

definition handleSetActiveOrgAPI :: "'s repos \<Rightarrow> env \<Rightarrow> request \<Rightarrow> 's world \<Rightarrow> response \<times> 's world" where
  "handleSetActiveOrgAPI R E r w =
    (case bearerUser R E r (w_store w) of
       None \<Rightarrow> (bearer_required, w)
     | Some u \<Rightarrow>
    case GetAccess (AccessTokens R) (HashToken (bearer r)) (w_store w) of
       Inl e \<Rightarrow> (clientError 401 ''invalid_token'' ''access token invalid'' new_response, w)
     | Inr tok \<Rightarrow>
    if \<not> Now E < atExpiresAt tok then
      (clientError 401 ''invalid_token'' ''access token invalid'' new_response, w)
    else case org_id_body r of
       None \<Rightarrow> (clientError 400 ''invalid_request'' ''json'' new_response, w)
     | Some body \<Rightarrow>
    let org = TrimSpace body in
    if org = [] then (clientError 400 ''invalid_request'' ''orgId'' new_response, w)
    else if atSessionSID tok = [] then
      (clientError 400 ''invalid_request'' ''session missing on token'' new_response, w)
    else case SetActiveOrgBySID R (uID (buUser u)) (atSessionSID tok) org w of
       (Inl e, w) \<Rightarrow>
         (if e = ErrForbidden then clientError 403 ''access_denied'' ''not a member'' new_response
          else clientError 400 ''invalid_request'' ''org'' new_response, w)
     | (Inr _, w) \<Rightarrow> (writeHeader 204 new_response, w))"

end
