(* ===== verification/WebAdmin.thy ===== *)
theory WebAdmin
  imports WebOrgs
begin

section \<open>The admin API: clients, users, audit events\<close>

text \<open>
  \<open>internal/web/admin.go\<close>: every handler first asks \<open>requireAdmin\<close>, which refuses unless the bearer
  token is the configured one. Clients are registered, listed, changed and given new secrets, users
  are listed and disabled, the audit trail is read in pages. A request body is decoded strictly.
\<close>

definition isClientIDChar :: "char \<Rightarrow> bool" where
  "isClientIDChar c \<longleftrightarrow>
    (let n = of_char c :: nat in 97 \<le> n \<and> n \<le> 122 \<or> 48 \<le> n \<and> n \<le> 57)"

text \<open>The regular expression \<open>^[a-z0-9][a-z0-9-]{1,62}$\<close>.\<close>

definition clientIDPattern :: "string \<Rightarrow> bool" where
  "clientIDPattern s =
    (case s of
       [] \<Rightarrow> False
     | c # t \<Rightarrow> isClientIDChar c \<and> 1 \<le> length t \<and> length t \<le> 62 \<and>
         list_all (\<lambda>d. isClientIDChar d \<or> d = CHR ''-'') t)"

text \<open>The refusal of \<open>requireAdmin\<close>, or \<open>None\<close> when it lets the request through.\<close>

definition requireAdmin :: "env \<Rightarrow> request \<Rightarrow> response option" where
  "requireAdmin E r =
    (let tok = AdminToken (Cfg E) in
     if tok = [] then Some (http_Error ''admin api disabled'' 401 new_response)
     else
       let got = bearer r in
       if length got \<noteq> length tok \<or> got \<noteq> tok then
         Some (http_Error ''unauthorized'' 401
           (set_header ''WWW-Authenticate''
             (''Bearer realm='' @ [CHR 0x22] @ ''admin'' @ [CHR 0x22]) new_response))
       else None)"

definition asAdmin ::
  "env \<Rightarrow> request \<Rightarrow> ('s world \<Rightarrow> response \<times> 's world) \<Rightarrow> 's world \<Rightarrow> response \<times> 's world" where
  "asAdmin E r handler w = (case requireAdmin E r of Some rs \<Rightarrow> (rs, w) | None \<Rightarrow> handler w)"

definition fail :: "string \<Rightarrow> nat \<Rightarrow> 's world \<Rightarrow> response \<times> 's world" where
  "fail msg code w = (http_Error msg code new_response, w)"

subsection \<open>Views\<close>

definition viewClient :: "client \<Rightarrow> json" where
  "viewClient c =
    JObj [(''id'', JStr (cID c)), (''name'', JStr (cName c)), (''type'', JStr (client_type_string (cType c))),
      (''redirect_uris'', JArr (map JStr (cRedirectURIs c))),
      (''post_logout_redirect_uris'', JArr (map JStr (cPostLogoutRedirectURIs c))),
      (''frontchannel_logout_uri'', JStr (cFrontChannelLogoutURI c)),
      (''backchannel_logout_uri'', JStr (cBackChannelLogoutURI c)),
      (''token_endpoint_auth'', JStr (cTokenEndpointAuth c)),
      (''has_secret'', JBool (cSecretHash c \<noteq> []))]"

definition viewUser :: "user \<Rightarrow> json" where
  "viewUser u =
    JObj [(''id'', JStr (uID u)), (''email'', JStr (uEmail u)), (''name'', JStr (uName u)),
      (''disabled'', JBool (uDisabled u)), (''created_at'', JStr (format_Z (uCreatedAt u)))]"

fun audit_type_string :: "audit_type \<Rightarrow> string" where
  "audit_type_string AuditLoginFail = ''login_fail''"
| "audit_type_string AuditConsent = ''consent''"
| "audit_type_string AuditTokenIssue = ''token_issue''"
| "audit_type_string AuditRevoke = ''revoke''"

definition event_json :: "audit_event \<Rightarrow> json" where
  "event_json e =
    JObj [(''id'', JStr (aeID e)), (''type'', JStr (audit_type_string (aeType e))), (''at'', time_json (aeAt e)),
      (''subject'', JStr (aeSubject e)), (''client_id'', JStr (aeClientID e)), (''ip'', JStr (aeIP e)),
      (''note'', JStr (aeNote e))]"

definition page_json :: "audit_page \<Rightarrow> json" where
  "page_json p = JObj [(''items'', JArr (map event_json (pgItems p))), (''next'', JStr (pgNext p))]"

subsection \<open>Addresses in a request\<close>

text \<open>
  The loop of \<open>normalizeRedirects\<close> and \<open>normalizeOptionalURIs\<close>: blank items are dropped, duplicates
  too (\<open>seen\<close> holds the items of the output), a bad address ends it with \<open>msg\<close>.
\<close>

fun uri_loop :: "string \<Rightarrow> string list \<Rightarrow> string list \<Rightarrow> string + string list" where
  "uri_loop msg out [] = Inr out"
| "uri_loop msg out (raw # rest) =
    (let item = TrimSpace raw in
     if item = [] then uri_loop msg out rest
     else if \<not> is_ok (ParseRedirectURI item) then Inl msg
     else if item \<in> set out then uri_loop msg out rest
     else uri_loop msg (out @ [item]) rest)"

definition uri_required :: string where
  "uri_required = ''at least one redirect_uri is required''"

definition normalizeRedirects :: "string list \<Rightarrow> string + string list" where
  "normalizeRedirects raw =
    (if raw = [] then Inl uri_required
     else case uri_loop ''redirect_uri must be an absolute http(s) URL without a fragment'' [] raw of
       Inl e \<Rightarrow> Inl e
     | Inr out \<Rightarrow> if out = [] then Inl uri_required else Inr out)"

definition normalizeOptionalURIs :: "string list \<Rightarrow> string \<Rightarrow> string + string list" where
  "normalizeOptionalURIs raw fname =
    uri_loop (fname @ '' must be an absolute http(s) URL without a fragment'') [] raw"

definition normalizeOptionalURI :: "string \<Rightarrow> string \<Rightarrow> string + string" where
  "normalizeOptionalURI raw fname =
    (let raw = TrimSpace raw in
     if raw = [] then Inr []
     else if \<not> is_ok (ParseRedirectURI raw) then
       Inl (fname @ '' must be an absolute http(s) URL without a fragment'')
     else Inr raw)"

subsection \<open>Clients\<close>

record client_input =
  ciID :: string
  ciName :: string
  ciType :: string
  ciRedirectURIs :: "string list"
  ciPostLogoutRedirectURIs :: "string list"
  ciFrontChannelLogoutURI :: string
  ciBackChannelLogoutURI :: string

definition no_client_input :: client_input where
  "no_client_input = \<lparr>ciID = [], ciName = [], ciType = [], ciRedirectURIs = [],
     ciPostLogoutRedirectURIs = [], ciFrontChannelLogoutURI = [], ciBackChannelLogoutURI = []\<rparr>"

definition patch_fields :: "client_input fields" where
  "patch_fields =
    [field ''name'' decode_string ciName ciName_update,
     field ''redirect_uris'' decode_strings ciRedirectURIs ciRedirectURIs_update,
     field ''post_logout_redirect_uris'' decode_strings ciPostLogoutRedirectURIs ciPostLogoutRedirectURIs_update,
     field ''frontchannel_logout_uri'' decode_string ciFrontChannelLogoutURI ciFrontChannelLogoutURI_update,
     field ''backchannel_logout_uri'' decode_string ciBackChannelLogoutURI ciBackChannelLogoutURI_update]"

definition create_fields :: "client_input fields" where
  "create_fields =
    [field ''id'' decode_string ciID ciID_update, field ''type'' decode_string ciType ciType_update] @ patch_fields"

text \<open>The four address checks that creating and changing a client share, in their order.\<close>

definition checkClientURIs ::
  "client_input \<Rightarrow> string + (string list \<times> string list \<times> string \<times> string)" where
  "checkClientURIs inp =
    (case normalizeRedirects (ciRedirectURIs inp) of
       Inl e \<Rightarrow> Inl e
     | Inr uris \<Rightarrow>
    case normalizeOptionalURIs (ciPostLogoutRedirectURIs inp) ''post_logout_redirect_uri'' of
       Inl e \<Rightarrow> Inl e
     | Inr posts \<Rightarrow>
    case normalizeOptionalURI (ciFrontChannelLogoutURI inp) ''frontchannel_logout_uri'' of
       Inl e \<Rightarrow> Inl e
     | Inr fc \<Rightarrow>
    case normalizeOptionalURI (ciBackChannelLogoutURI inp) ''backchannel_logout_uri'' of
       Inl e \<Rightarrow> Inl e
     | Inr bc \<Rightarrow> Inr (uris, posts, fc, bc))"

definition handleAdminListClients :: "'s repos \<Rightarrow> env \<Rightarrow> request \<Rightarrow> 's world \<Rightarrow> response \<times> 's world" where
  "handleAdminListClients R E r = asAdmin E r (\<lambda>w.
    case ListClients (Clients R) (w_store w) of
      Inl e \<Rightarrow> fail ''store'' 500 w
    | Inr cs \<Rightarrow> (writeJSON 200 (JArr (map viewClient cs)) new_response, w))"

text \<open>The secret of a new client: its type with the plain and the stored secret, or the answer.\<close>

definition clientSecret ::
  "env \<Rightarrow> string \<Rightarrow> 's world \<Rightarrow> (string \<times> nat + client_type \<times> string \<times> string) \<times> 's world" where
  "clientSecret E typ w =
    (if typ = ''confidential'' then
       (case random_Token E w of
          (Inl e, w) \<Rightarrow> (Inl (''secret'', 500), w)
        | (Inr plain, w) \<Rightarrow>
            (case Hash_password E plain w of
               (Inl e, w) \<Rightarrow> (Inl (''secret'', 500), w)
             | (Inr hash, w) \<Rightarrow> (Inr (ClientConfidential, plain, hash), w)))
     else if typ = ''public'' \<or> typ = [] then (Inr (ClientPublic, [], []), w)
     else (Inl (''type must be public or confidential'', 400), w))"

definition storeNewClient ::
  "'s repos \<Rightarrow> client \<Rightarrow> string \<Rightarrow> 's world \<Rightarrow> response \<times> 's world" where
  "storeNewClient R c plainSecret w =
    (case on_store (CreateClient (Clients R) c) w of
       (Inl e, w) \<Rightarrow> if e = ErrConflict then fail ''client id already exists'' 409 w else fail ''store'' 500 w
     | (Inr _, w) \<Rightarrow>
         (writeJSON 201 (json_map ([(''client'', viewClient c)] @
            (if plainSecret \<noteq> [] then [(''client_secret'', JStr plainSecret)] else []))) new_response, w))"

text \<open>The identifier of a new client: the one asked for, or a fresh one.\<close>

definition client_id_for :: "env \<Rightarrow> client_input \<Rightarrow> 's world \<Rightarrow> string \<times> 's world" where
  "client_id_for E inp w =
    (let cid = TrimSpace (ciID inp) in
     if cid = [] then (let (i, w) = id_New E w in (ToLower i, w)) else (cid, w))"

definition handleAdminCreateClient :: "'s repos \<Rightarrow> env \<Rightarrow> request \<Rightarrow> 's world \<Rightarrow> response \<times> 's world" where
  "handleAdminCreateClient R E r = asAdmin E r (\<lambda>w.
    case decodeJSON create_fields no_client_input r of
      None \<Rightarrow> fail ''invalid json'' 400 w
    | Some inp \<Rightarrow>
    let name = TrimSpace (ciName inp) in
    if name = [] then fail ''name is required'' 400 w
    else
      let (cid, w) = client_id_for E inp w in
      if \<not> clientIDPattern cid then fail ''id must be lowercase alphanumeric with hyphens'' 400 w
      else case checkClientURIs inp of
        Inl msg \<Rightarrow> fail msg 400 w
      | Inr (uris, posts, fc, bc) \<Rightarrow>
      case clientSecret E (ciType inp) w of
        (Inl (msg, code), w) \<Rightarrow> fail msg code w
      | (Inr (typ, plain, hash), w) \<Rightarrow>
          storeNewClient R
            \<lparr>cID = cid, cName = name, cType = typ, cSecretHash = hash, cRedirectURIs = uris,
             cPostLogoutRedirectURIs = posts, cFrontChannelLogoutURI = fc, cBackChannelLogoutURI = bc,
             cTokenEndpointAuth = (case typ of ClientConfidential \<Rightarrow> ''client_secret_basic'' | ClientPublic \<Rightarrow> ''none'')\<rparr>
            plain w)"

definition handleAdminGetClient :: "'s repos \<Rightarrow> env \<Rightarrow> request \<Rightarrow> 's world \<Rightarrow> response \<times> 's world" where
  "handleAdminGetClient R E r = asAdmin E r (\<lambda>w.
    case GetClient (Clients R) (r_path_id r) (w_store w) of
      Inl e \<Rightarrow> fail ''not found'' 404 w
    | Inr c \<Rightarrow> (writeJSON 200 (viewClient c) new_response, w))"

definition handleAdminUpdateClient :: "'s repos \<Rightarrow> env \<Rightarrow> request \<Rightarrow> 's world \<Rightarrow> response \<times> 's world" where
  "handleAdminUpdateClient R E r = asAdmin E r (\<lambda>w.
    case decodeJSON patch_fields no_client_input r of
      None \<Rightarrow> fail ''invalid json'' 400 w
    | Some inp \<Rightarrow>
    let name = TrimSpace (ciName inp) in
    if name = [] then fail ''name is required'' 400 w
    else case checkClientURIs inp of
      Inl msg \<Rightarrow> fail msg 400 w
    | Inr (uris, posts, fc, bc) \<Rightarrow>
    case on_store (UpdateClient (Clients R) (r_path_id r)
           \<lparr>pName = name, pRedirectURIs = uris, pPostLogoutRedirectURIs = posts,
            pFrontChannelLogoutURI = fc, pBackChannelLogoutURI = bc\<rparr>) w of
      (Inl e, w) \<Rightarrow> if e = ErrNotFound then fail ''not found'' 404 w else fail ''store'' 500 w
    | (Inr _, w) \<Rightarrow>
    case GetClient (Clients R) (r_path_id r) (w_store w) of
      Inl e \<Rightarrow> fail ''store'' 500 w
    | Inr c \<Rightarrow> (writeJSON 200 (viewClient c) new_response, w))"

definition handleAdminRotateSecret :: "'s repos \<Rightarrow> env \<Rightarrow> request \<Rightarrow> 's world \<Rightarrow> response \<times> 's world" where
  "handleAdminRotateSecret R E r = asAdmin E r (\<lambda>w.
    case GetClient (Clients R) (r_path_id r) (w_store w) of
      Inl e \<Rightarrow> fail ''not found'' 404 w
    | Inr c \<Rightarrow>
    if cType c \<noteq> ClientConfidential then fail ''public clients have no secret'' 400 w
    else case random_Token E w of
      (Inl e, w) \<Rightarrow> fail ''secret'' 500 w
    | (Inr plain, w) \<Rightarrow>
    case Hash_password E plain w of
      (Inl e, w) \<Rightarrow> fail ''secret'' 500 w
    | (Inr hash, w) \<Rightarrow>
    case on_store (SetClientSecret (Clients R) (cID c) hash) w of
      (Inl e, w) \<Rightarrow> fail ''store'' 500 w
    | (Inr _, w) \<Rightarrow> (writeJSON 200 (JObj [(''client_secret'', JStr plain)]) new_response, w))"

subsection \<open>Users and audit events\<close>

definition handleAdminListUsers :: "'s repos \<Rightarrow> env \<Rightarrow> request \<Rightarrow> 's world \<Rightarrow> response \<times> 's world" where
  "handleAdminListUsers R E r = asAdmin E r (\<lambda>w.
    case ListUsers (Users R) (w_store w) of
      Inl e \<Rightarrow> fail ''store'' 500 w
    | Inr us \<Rightarrow> (writeJSON 200 (JArr (map viewUser us)) new_response, w))"

definition handleAdminSetDisabled :: "'s repos \<Rightarrow> env \<Rightarrow> request \<Rightarrow> 's world \<Rightarrow> response \<times> 's world" where
  "handleAdminSetDisabled R E r = asAdmin E r (\<lambda>w.
    case decodeJSON [(''disabled'', decode_bool)] False r of
      None \<Rightarrow> fail ''invalid json'' 400 w
    | Some b \<Rightarrow>
    case on_store (SetUserDisabled (Users R) (r_path_id r) b) w of
      (Inl e, w) \<Rightarrow> if e = ErrNotFound then fail ''not found'' 404 w else fail ''store'' 500 w
    | (Inr _, w) \<Rightarrow>
    case GetByID (Users R) (r_path_id r) (w_store w) of
      Inl e \<Rightarrow> fail ''store'' 500 w
    | Inr u \<Rightarrow> (writeJSON 200 (viewUser u) new_response, w))"

text \<open>The page size of a request: 20 unless the query names a positive number.\<close>

definition audit_limit :: "request \<Rightarrow> int option" where
  "audit_limit r =
    (let raw = TrimSpace (values_get (r_query r) ''limit'') in
     if raw = [] then Some 20
     else case Atoi raw of None \<Rightarrow> None | Some n \<Rightarrow> if n < 1 then None else Some n)"

definition handleAdminListAudits :: "'s repos \<Rightarrow> env \<Rightarrow> request \<Rightarrow> 's world \<Rightarrow> response \<times> 's world" where
  "handleAdminListAudits R E r = asAdmin E r (\<lambda>w.
    case audit_limit r of
      None \<Rightarrow> fail ''invalid limit'' 400 w
    | Some limit \<Rightarrow>
    case ListAudits (Audits R) limit (TrimSpace (values_get (r_query r) ''after'')) (w_store w) of
      Inl e \<Rightarrow> if e = ErrNotFound then fail ''unknown cursor'' 400 w else fail ''store'' 500 w
    | Inr pg \<Rightarrow> (writeJSON 200 (page_json pg) new_response, w))"

end
