(* ===== verification/WebAdminOrgs.thy ===== *)
theory WebAdminOrgs
  imports WebAdmin
begin

section \<open>The admin API: organizations\<close>

text \<open>
  \<open>internal/web/admin_orgs.go\<close>: organizations and their members. The last owner of an organization can be
  neither demoted nor removed: both handlers count the owners before they write.
\<close>

definition viewOrg :: "organization \<Rightarrow> json" where
  "viewOrg org =
    JObj [(''id'', JStr (oID org)), (''name'', JStr (oName org)), (''created_at'', JStr (format_Z (oCreatedAt org)))]"

text \<open>A member in an answer; email and name are filled in when the account is found.\<close>

definition viewMember :: "'s repos \<Rightarrow> string \<Rightarrow> org_role \<Rightarrow> int \<Rightarrow> 's \<Rightarrow> json" where
  "viewMember R userID role joined s =
    (let (email, name) = (case GetByID (Users R) userID s of Inl e \<Rightarrow> ([], []) | Inr u \<Rightarrow> (uEmail u, uName u))
     in JObj [(''user_id'', JStr userID), (''email'', JStr email), (''name'', JStr name),
          (''role'', JStr (org_role_string role)), (''joined_at'', JStr (format_Z joined))])"

text \<open>\<open>domain.OrgRole(strings.TrimSpace(raw))\<close>, when it is one of the two roles.\<close>

definition role_of :: "string \<Rightarrow> org_role option" where
  "role_of raw =
    (let role = TrimSpace raw in
     if role = ''owner'' then Some OrgRoleOwner
     else if role = ''member'' then Some OrgRoleMember
     else None)"

text \<open>
  The account a request names, by identifier or else by email: its identifier, or the message
  and status of the refusal.
\<close>

definition resolveUser ::
  "'s repos \<Rightarrow> string \<Rightarrow> string \<Rightarrow> string \<Rightarrow> string \<Rightarrow> 's \<Rightarrow> string \<times> nat + string" where
  "resolveUser R idText emailText needed missing s =
    (let userID = TrimSpace idText in
     if userID = [] then
       (let email = TrimSpace (ToLower emailText) in
        if email = [] then Inl (needed, 400)
        else case GetByEmail (Users R) email s of
          Inl e \<Rightarrow> if e = ErrNotFound then Inl (missing, 404) else Inl (''store'', 500)
        | Inr u \<Rightarrow> Inr (uID u))
     else case GetByID (Users R) userID s of
       Inl e \<Rightarrow> if e = ErrNotFound then Inl (missing, 404) else Inl (''store'', 500)
     | Inr _ \<Rightarrow> Inr userID)"

definition countOrgOwners :: "'s repos \<Rightarrow> string \<Rightarrow> 's \<Rightarrow> nat res" where
  "countOrgOwners R orgID s =
    (case ListOrganizationMembers (Organizations R) orgID s of
       Inl e \<Rightarrow> Inl e
     | Inr members \<Rightarrow> Inr (length (filter (\<lambda>m. mRole m = OrgRoleOwner) members)))"

definition notFoundOr500 :: "derr \<Rightarrow> 's world \<Rightarrow> response \<times> 's world" where
  "notFoundOr500 e w = (if e = ErrNotFound then fail ''not found'' 404 w else fail ''store'' 500 w)"

definition handleAdminListOrganizations :: "'s repos \<Rightarrow> env \<Rightarrow> request \<Rightarrow> 's world \<Rightarrow> response \<times> 's world" where
  "handleAdminListOrganizations R E r = asAdmin E r (\<lambda>w.
    case ListOrganizations (Organizations R) (w_store w) of
      Inl e \<Rightarrow> fail ''store'' 500 w
    | Inr orgs \<Rightarrow> (writeJSON 200 (JArr (map viewOrg orgs)) new_response, w))"

record org_input =
  oiName :: string
  oiOwnerUserID :: string
  oiOwnerEmail :: string

definition org_fields :: "org_input fields" where
  "org_fields =
    [field ''name'' decode_string oiName oiName_update,
     field ''owner_user_id'' decode_string oiOwnerUserID oiOwnerUserID_update,
     field ''owner_email'' decode_string oiOwnerEmail oiOwnerEmail_update]"

definition handleAdminCreateOrganization :: "'s repos \<Rightarrow> env \<Rightarrow> request \<Rightarrow> 's world \<Rightarrow> response \<times> 's world" where
  "handleAdminCreateOrganization R E r = asAdmin E r (\<lambda>w.
    case decodeJSON org_fields \<lparr>oiName = [], oiOwnerUserID = [], oiOwnerEmail = []\<rparr> r of
      None \<Rightarrow> fail ''invalid json'' 400 w
    | Some inp \<Rightarrow>
    let name = TrimSpace (oiName inp) in
    if name = [] \<or> 120 < length name then fail ''name is required (max 120)'' 400 w
    else case resolveUser R (oiOwnerUserID inp) (oiOwnerEmail inp)
           ''owner_user_id or owner_email is required'' ''owner not found'' (w_store w) of
      Inl (msg, code) \<Rightarrow> fail msg code w
    | Inr ownerID \<Rightarrow>
    let now = Now E;
        (oid, w) = id_New E w;
        org = \<lparr>oID = oid, oName = name, oCreatedAt = now\<rparr>
    in case on_store (CreateOrganization (Organizations R) org) w of
      (Inl e, w) \<Rightarrow> fail ''store'' 500 w
    | (Inr _, w) \<Rightarrow>
    case on_store (AddOrganizationMember (Organizations R)
           \<lparr>mOrgID = oid, mUserID = ownerID, mRole = OrgRoleOwner, mJoinedAt = now\<rparr>) w of
      (Inl e, w) \<Rightarrow> fail ''store'' 500 w
    | (Inr _, w) \<Rightarrow> (writeJSON 201 (viewOrg org) new_response, w))"

definition handleAdminGetOrganization :: "'s repos \<Rightarrow> env \<Rightarrow> request \<Rightarrow> 's world \<Rightarrow> response \<times> 's world" where
  "handleAdminGetOrganization R E r = asAdmin E r (\<lambda>w.
    case GetOrganization (Organizations R) (r_path_id r) (w_store w) of
      Inl e \<Rightarrow> notFoundOr500 e w
    | Inr org \<Rightarrow> (writeJSON 200 (viewOrg org) new_response, w))"

definition handleAdminListOrganizationMembers ::
  "'s repos \<Rightarrow> env \<Rightarrow> request \<Rightarrow> 's world \<Rightarrow> response \<times> 's world" where
  "handleAdminListOrganizationMembers R E r = asAdmin E r (\<lambda>w.
    case GetOrganization (Organizations R) (r_path_id r) (w_store w) of
      Inl e \<Rightarrow> notFoundOr500 e w
    | Inr _ \<Rightarrow>
    case ListOrganizationMembers (Organizations R) (r_path_id r) (w_store w) of
      Inl e \<Rightarrow> fail ''store'' 500 w
    | Inr members \<Rightarrow>
        (writeJSON 200 (JArr (map (\<lambda>m. viewMember R (mUserID m) (mRole m) (mJoinedAt m) (w_store w)) members))
           new_response, w))"

record member_input =
  miUserID :: string
  miEmail :: string
  miRole :: string

definition member_fields :: "member_input fields" where
  "member_fields =
    [field ''user_id'' decode_string miUserID miUserID_update,
     field ''email'' decode_string miEmail miEmail_update,
     field ''role'' decode_string miRole miRole_update]"

definition handleAdminAddOrganizationMember ::
  "'s repos \<Rightarrow> env \<Rightarrow> request \<Rightarrow> 's world \<Rightarrow> response \<times> 's world" where
  "handleAdminAddOrganizationMember R E r = asAdmin E r (\<lambda>w.
    case GetOrganization (Organizations R) (r_path_id r) (w_store w) of
      Inl e \<Rightarrow> notFoundOr500 e w
    | Inr _ \<Rightarrow>
    case decodeJSON member_fields \<lparr>miUserID = [], miEmail = [], miRole = []\<rparr> r of
      None \<Rightarrow> fail ''invalid json'' 400 w
    | Some inp \<Rightarrow>
    case (if TrimSpace (miRole inp) = [] then Some OrgRoleMember else role_of (miRole inp)) of
      None \<Rightarrow> fail ''role must be owner or member'' 400 w
    | Some role \<Rightarrow>
    case resolveUser R (miUserID inp) (miEmail inp) ''user_id or email is required'' ''user not found'' (w_store w) of
      Inl (msg, code) \<Rightarrow> fail msg code w
    | Inr userID \<Rightarrow>
    case on_store (AddOrganizationMember (Organizations R)
           \<lparr>mOrgID = r_path_id r, mUserID = userID, mRole = role, mJoinedAt = Now E\<rparr>) w of
      (Inl e, w) \<Rightarrow> if e = ErrConflict then fail ''already a member'' 409 w else fail ''store'' 500 w
    | (Inr _, w) \<Rightarrow> (writeJSON 201 (viewMember R userID role (Now E) (w_store w)) new_response, w))"

text \<open>
  The check before a write that takes the owner role from a member: \<open>None\<close> lets it pass. The
  count is read before the write, in a separate call of the store.
\<close>

definition lastOwnerGuard :: "'s repos \<Rightarrow> string \<Rightarrow> string \<Rightarrow> 's \<Rightarrow> (string \<times> nat) option" where
  "lastOwnerGuard R orgID msg s =
    (case countOrgOwners R orgID s of
       Inl e \<Rightarrow> Some (''store'', 500)
     | Inr owners \<Rightarrow> if owners \<le> 1 then Some (msg, 403) else None)"

definition role_body :: "request \<Rightarrow> string option" where
  "role_body r = decodeJSON [(''role'', decode_string)] [] r"

definition handleAdminUpdateOrganizationMember ::
  "'s repos \<Rightarrow> env \<Rightarrow> request \<Rightarrow> 's world \<Rightarrow> response \<times> 's world" where
  "handleAdminUpdateOrganizationMember R E r = asAdmin E r (\<lambda>w.
    case role_body r of
      None \<Rightarrow> fail ''invalid json'' 400 w
    | Some raw \<Rightarrow>
    case role_of raw of
      None \<Rightarrow> fail ''role must be owner or member'' 400 w
    | Some role \<Rightarrow>
    case GetOrganizationMembership (Organizations R) (r_path_id r) (r_path_user r) (w_store w) of
      Inl e \<Rightarrow> notFoundOr500 e w
    | Inr current \<Rightarrow>
    case (if mRole current = OrgRoleOwner \<and> role \<noteq> OrgRoleOwner
          then lastOwnerGuard R (r_path_id r) ''cannot demote the last owner'' (w_store w) else None) of
      Some (msg, code) \<Rightarrow> fail msg code w
    | None \<Rightarrow>
    case on_store (UpdateOrganizationMemberRole (Organizations R) (r_path_id r) (r_path_user r) role) w of
      (Inl e, w) \<Rightarrow> fail ''store'' 500 w
    | (Inr _, w) \<Rightarrow>
        (writeJSON 200 (viewMember R (r_path_user r) role (mJoinedAt current) (w_store w)) new_response, w))"

definition handleAdminRemoveOrganizationMember ::
  "'s repos \<Rightarrow> env \<Rightarrow> request \<Rightarrow> 's world \<Rightarrow> response \<times> 's world" where
  "handleAdminRemoveOrganizationMember R E r = asAdmin E r (\<lambda>w.
    case GetOrganizationMembership (Organizations R) (r_path_id r) (r_path_user r) (w_store w) of
      Inl e \<Rightarrow> notFoundOr500 e w
    | Inr current \<Rightarrow>
    case (if mRole current = OrgRoleOwner
          then lastOwnerGuard R (r_path_id r) ''cannot remove the last owner'' (w_store w) else None) of
      Some (msg, code) \<Rightarrow> fail msg code w
    | None \<Rightarrow>
    case on_store (RemoveOrganizationMember (Organizations R) (r_path_id r) (r_path_user r)) w of
      (Inl e, w) \<Rightarrow> fail ''store'' 500 w
    | (Inr _, w) \<Rightarrow> (writeHeader 204 new_response, w))"

end
