(* ===== verification/Discovery.thy ===== *)
theory Discovery
  imports WebJson
begin

section \<open>Discovery documents\<close>

text \<open>
  \<open>internal/web/discovery.go\<close>: the provider's metadata and its public keys. The key set is the
  signer's (\<open>Signer.JWKS\<close>), a JSON value of the jwx library.
\<close>

definition discovery_doc :: "string \<Rightarrow> (string \<times> json) list" where
  "discovery_doc iss =
    [(''issuer'', JStr iss),
     (''authorization_endpoint'', JStr (iss @ ''/authorize'')),
     (''token_endpoint'', JStr (iss @ ''/token'')),
     (''userinfo_endpoint'', JStr (iss @ ''/userinfo'')),
     (''jwks_uri'', JStr (iss @ ''/jwks.json'')),
     (''response_types_supported'', JArr [JStr ''code'']),
     (''subject_types_supported'', JArr [JStr ''public'']),
     (''id_token_signing_alg_values_supported'', JArr [JStr ''RS256'']),
     (''scopes_supported'',
       JArr [JStr ''openid'', JStr ''profile'', JStr ''email'', JStr ''offline_access'', JStr ''org'']),
     (''token_endpoint_auth_methods_supported'',
       JArr [JStr ''client_secret_basic'', JStr ''client_secret_post'', JStr ''none'']),
     (''grant_types_supported'', JArr [JStr ''authorization_code'', JStr ''refresh_token'']),
     (''code_challenge_methods_supported'', JArr [JStr ''S256'']),
     (''end_session_endpoint'', JStr (iss @ ''/end-session'')),
     (''frontchannel_logout_supported'', JBool True),
     (''frontchannel_logout_session_supported'', JBool True),
     (''backchannel_logout_supported'', JBool True),
     (''backchannel_logout_session_supported'', JBool True)]"

definition handleDiscovery :: "env \<Rightarrow> response \<Rightarrow> response" where
  "handleDiscovery E rs = write_json (json_map (discovery_doc (Issuer (Cfg E)))) rs"

definition handleJWKS :: "json \<Rightarrow> response \<Rightarrow> response" where
  "handleJWKS keys rs = write_json keys rs"

end
