(* ===== verification/Serve.thy ===== *)
theory Serve
  imports WebAuthorize WebAccount WebAdminOrgs Discovery
begin

section \<open>The server\<close>

text \<open>
  The route table of \<open>NewServer\<close> (\<open>internal/web/server.go\<close>) and \<open>ServeHTTP\<close>: \<open>http.ServeMux\<close> redirects a
  path that is not clean, picks the route by method and path, hands its wildcards to the handler,
  and answers 404 or 405 itself. No two patterns of the table match the same request, so the first
  match is the only one. The path of a CONNECT is matched as it is.
\<close>

datatype route =
    RHealth | RRegisterForm | RRegister | RLoginForm | RLogin | RLogout | REndSession | RHome
  | RAuthorize | RConsent | RToken | RUserInfo | RDiscovery | RJWKS
  | RAdminListClients | RAdminCreateClient | RAdminGetClient | RAdminUpdateClient | RAdminRotateSecret
  | RAdminListUsers | RAdminSetDisabled | RAdminListAudits
  | RAdminListOrgs | RAdminCreateOrg | RAdminGetOrg | RAdminListMembers | RAdminAddMember
  | RAdminUpdateMember | RAdminRemoveMember
  | RCreateOrg | RListOrgs | RListMembers | RSetActiveOrg | RSetActiveOrgAPI

datatype seg = Lit string | Wild

type_synonym pattern = "string \<times> seg list"

definition routes :: "(pattern \<times> route) list" where
  "routes = [
    ((''GET'', [Lit ''health'']), RHealth),
    ((''GET'', [Lit ''register'']), RRegisterForm),
    ((''POST'', [Lit ''register'']), RRegister),
    ((''GET'', [Lit ''login'']), RLoginForm),
    ((''POST'', [Lit ''login'']), RLogin),
    ((''POST'', [Lit ''logout'']), RLogout),
    ((''GET'', [Lit ''end-session'']), REndSession),
    ((''POST'', [Lit ''end-session'']), REndSession),
    ((''GET'', [Lit ''/'']), RHome),
    ((''GET'', [Lit ''authorize'']), RAuthorize),
    ((''POST'', [Lit ''consent'']), RConsent),
    ((''POST'', [Lit ''token'']), RToken),
    ((''GET'', [Lit ''userinfo'']), RUserInfo),
    ((''GET'', [Lit ''.well-known'', Lit ''openid-configuration'']), RDiscovery),
    ((''GET'', [Lit ''jwks.json'']), RJWKS),
    ((''GET'', [Lit ''.well-known'', Lit ''jwks.json'']), RJWKS),
    ((''GET'', [Lit ''admin'', Lit ''api'', Lit ''clients'']), RAdminListClients),
    ((''POST'', [Lit ''admin'', Lit ''api'', Lit ''clients'']), RAdminCreateClient),
    ((''GET'', [Lit ''admin'', Lit ''api'', Lit ''clients'', Wild]), RAdminGetClient),
    ((''PATCH'', [Lit ''admin'', Lit ''api'', Lit ''clients'', Wild]), RAdminUpdateClient),
    ((''POST'', [Lit ''admin'', Lit ''api'', Lit ''clients'', Wild, Lit ''rotate-secret'']), RAdminRotateSecret),
    ((''GET'', [Lit ''admin'', Lit ''api'', Lit ''users'']), RAdminListUsers),
    ((''POST'', [Lit ''admin'', Lit ''api'', Lit ''users'', Wild, Lit ''disabled'']), RAdminSetDisabled),
    ((''GET'', [Lit ''admin'', Lit ''api'', Lit ''audits'']), RAdminListAudits),
    ((''GET'', [Lit ''admin'', Lit ''api'', Lit ''organizations'']), RAdminListOrgs),
    ((''POST'', [Lit ''admin'', Lit ''api'', Lit ''organizations'']), RAdminCreateOrg),
    ((''GET'', [Lit ''admin'', Lit ''api'', Lit ''organizations'', Wild]), RAdminGetOrg),
    ((''GET'', [Lit ''admin'', Lit ''api'', Lit ''organizations'', Wild, Lit ''members'']), RAdminListMembers),
    ((''POST'', [Lit ''admin'', Lit ''api'', Lit ''organizations'', Wild, Lit ''members'']), RAdminAddMember),
    ((''PATCH'', [Lit ''admin'', Lit ''api'', Lit ''organizations'', Wild, Lit ''members'', Wild]), RAdminUpdateMember),
    ((''DELETE'', [Lit ''admin'', Lit ''api'', Lit ''organizations'', Wild, Lit ''members'', Wild]), RAdminRemoveMember),
    ((''POST'', [Lit ''v1'', Lit ''organizations'']), RCreateOrg),
    ((''GET'', [Lit ''v1'', Lit ''organizations'']), RListOrgs),
    ((''GET'', [Lit ''v1'', Lit ''organizations'', Wild, Lit ''members'']), RListMembers),
    ((''PUT'', [Lit ''account'', Lit ''active-org'']), RSetActiveOrg),
    ((''PUT'', [Lit ''v1'', Lit ''active-org'']), RSetActiveOrgAPI)]"

subsection \<open>Matching\<close>

text \<open>
  The segments of an escaped path, each unescaped; the empty segment after a trailing slash is
  the segment \<open>/\<close>, which a wildcard does not match.
\<close>

definition path_segments :: "string \<Rightarrow> string list" where
  "path_segments p =
    map (\<lambda>s. if s = [] then ''/'' else case unescape PathPart s of None \<Rightarrow> s | Some t \<Rightarrow> t)
      (split_on CHR ''/'' (tl p))"

fun match_segs :: "seg list \<Rightarrow> string list \<Rightarrow> string list option" where
  "match_segs [] [] = Some []"
| "match_segs (Lit l # ps) (s # ss) = (if l = s then match_segs ps ss else None)"
| "match_segs (Wild # ps) (s # ss) = (if s = ''/'' then None else map_option (Cons s) (match_segs ps ss))"
| "match_segs _ _ = None"

text \<open>A pattern for GET serves HEAD as well.\<close>

definition match_method :: "string \<Rightarrow> string \<Rightarrow> bool" where
  "match_method m req \<longleftrightarrow> m = req \<or> m = ''GET'' \<and> req = ''HEAD''"

fun find_route :: "(pattern \<times> route) list \<Rightarrow> string \<Rightarrow> string list \<Rightarrow> (route \<times> string list) option" where
  "find_route [] m ss = None"
| "find_route (((pm, ps), rt) # rest) m ss =
    (case (if match_method pm m then match_segs ps ss else None) of
       None \<Rightarrow> find_route rest m ss
     | Some vals \<Rightarrow> Some (rt, vals))"

text \<open>The methods that a path would be served for, sorted, for the \<open>Allow\<close> header of a 405.\<close>

definition allowed_methods :: "string list \<Rightarrow> string list" where
  "allowed_methods ss =
    (let ms = List.map_filter (\<lambda>((pm, ps), rt). if match_segs ps ss = None then None else Some pm) routes
     in sort (remdups (ms @ (if ''GET'' \<in> set ms then [''HEAD''] else []))))"

text \<open>\<open>cleanPath\<close> of \<open>net/http\<close>.\<close>

definition mux_clean :: "string \<Rightarrow> string" where
  "mux_clean p =
    (let q = (if prefix ''/'' p then p else ''/'' @ p);
         np = path_Clean q
     in if suffix ''/'' q \<and> np \<noteq> ''/'' then np @ ''/'' else np)"

definition raw_path :: "request \<Rightarrow> string" where
  "raw_path r = before CHR ''?'' (r_uri r)"

definition raw_query :: "request \<Rightarrow> string" where
  "raw_query r = (case cut_at CHR ''?'' (r_uri r) of None \<Rightarrow> [] | Some (p, q) \<Rightarrow> q)"

definition with_path_values :: "string list \<Rightarrow> request \<Rightarrow> request" where
  "with_path_values vals r =
    r\<lparr>r_path_id := (case vals of [] \<Rightarrow> [] | v # vs \<Rightarrow> v),
      r_path_user := (case vals of v # u # vs \<Rightarrow> u | _ \<Rightarrow> [])\<rparr>"

subsection \<open>Serving\<close>

fun handle_route :: "'s repos \<Rightarrow> env \<Rightarrow> json \<Rightarrow> route \<Rightarrow> request \<Rightarrow> 's world \<Rightarrow> response \<times> 's world" where
  "handle_route R E keys RHealth r w = (handleHealth new_response, w)"
| "handle_route R E keys RRegisterForm r w = handleRegisterForm E r w"
| "handle_route R E keys RRegister r w = handleRegister R E r w"
| "handle_route R E keys RLoginForm r w = handleLoginForm E r w"
| "handle_route R E keys RLogin r w = handleLogin R E r w"
| "handle_route R E keys RLogout r w = handleLogout R E r w"
| "handle_route R E keys REndSession r w = handleEndSession R E r w"
| "handle_route R E keys RHome r w = handleHome R E r w"
| "handle_route R E keys RAuthorize r w = handleAuthorize R E r w"
| "handle_route R E keys RConsent r w = handleConsent R E r w"
| "handle_route R E keys RToken r w = handleToken R E r w"
| "handle_route R E keys RUserInfo r w = handleUserInfo R E r w"
| "handle_route R E keys RDiscovery r w = (handleDiscovery E new_response, w)"
| "handle_route R E keys RJWKS r w = (handleJWKS keys new_response, w)"
| "handle_route R E keys RAdminListClients r w = handleAdminListClients R E r w"
| "handle_route R E keys RAdminCreateClient r w = handleAdminCreateClient R E r w"
| "handle_route R E keys RAdminGetClient r w = handleAdminGetClient R E r w"
| "handle_route R E keys RAdminUpdateClient r w = handleAdminUpdateClient R E r w"
| "handle_route R E keys RAdminRotateSecret r w = handleAdminRotateSecret R E r w"
| "handle_route R E keys RAdminListUsers r w = handleAdminListUsers R E r w"
| "handle_route R E keys RAdminSetDisabled r w = handleAdminSetDisabled R E r w"
| "handle_route R E keys RAdminListAudits r w = handleAdminListAudits R E r w"
| "handle_route R E keys RAdminListOrgs r w = handleAdminListOrganizations R E r w"
| "handle_route R E keys RAdminCreateOrg r w = handleAdminCreateOrganization R E r w"
| "handle_route R E keys RAdminGetOrg r w = handleAdminGetOrganization R E r w"
| "handle_route R E keys RAdminListMembers r w = handleAdminListOrganizationMembers R E r w"
| "handle_route R E keys RAdminAddMember r w = handleAdminAddOrganizationMember R E r w"
| "handle_route R E keys RAdminUpdateMember r w = handleAdminUpdateOrganizationMember R E r w"
| "handle_route R E keys RAdminRemoveMember r w = handleAdminRemoveOrganizationMember R E r w"
| "handle_route R E keys RCreateOrg r w = handleCreateOrganization R E r w"
| "handle_route R E keys RListOrgs r w = handleListOrganizations R E r w"
| "handle_route R E keys RListMembers r w = handleListOrganizationMembers R E r w"
| "handle_route R E keys RSetActiveOrg r w = handleSetActiveOrg R E r w"
| "handle_route R E keys RSetActiveOrgAPI r w = handleSetActiveOrgAPI R E r w"

text \<open>What the mux answers without a handler.\<close>

definition mux_redirect :: "request \<Rightarrow> response" where
  "mux_redirect r =
    http_Redirect r (url_String (empty_url\<lparr>url_Path := mux_clean (raw_path r), url_RawQuery := raw_query r\<rparr>))
      307 new_response"

definition mux_refuse :: "string list \<Rightarrow> response" where
  "mux_refuse ss =
    (if allowed_methods ss = [] then http_Error ''404 page not found'' 404 new_response
     else http_Error ''Method Not Allowed'' 405
       (set_header ''Allow'' (join '', '' (allowed_methods ss)) new_response))"

definition serve :: "'s repos \<Rightarrow> env \<Rightarrow> json \<Rightarrow> request \<Rightarrow> 's world \<Rightarrow> response \<times> 's world" where
  "serve R E keys r w =
    (let p = raw_path r;
         cleaned = (if r_method r = ''CONNECT'' then p else mux_clean p);
         ss = path_segments cleaned in
     if cleaned \<noteq> p then (mux_redirect r, w)
     else case find_route routes (r_method r) ss of
       None \<Rightarrow> (mux_refuse ss, w)
     | Some (rt, vals) \<Rightarrow> handle_route R E keys rt (with_path_values vals r) w)"

text \<open>A request changes nothing, or it is handled by a route of the table.\<close>

lemma serve_cases:
  assumes "serve R E keys r w = (rs, w')"
  shows "w' = w \<or> (\<exists>rt vals. handle_route R E keys rt (with_path_values vals r) w = (rs, w') \<and>
    find_route routes (r_method r) (path_segments (raw_path r)) = Some (rt, vals))"
  using assms by (auto simp: serve_def Let_def split: if_splits option.splits prod.splits)

end
