(* ===== verification/SysInv.thy ===== *)
theory SysInv
  imports Serve
begin

section \<open>What every request keeps\<close>

text \<open>
  The invariant of the whole server, over any store that keeps the contracts: rows name users,
  clients and organizations that exist (the memory store has no foreign keys, so the handlers must
  see to it), every authorization code and every pending request is bound to a safe redirect URI, a
  PKCE challenge and known scopes, every organization has an owner, refresh token families keep
  one live token, and identifiers not yet drawn are not in use. \<open>U\<close> is the sequence of identifiers.
\<close>

subsection \<open>Well-formed stores\<close>

definition bound_ok :: "string \<Rightarrow> string \<Rightarrow> string list \<Rightarrow> bool" where
  "bound_ok uri challenge scopes \<longleftrightarrow>
    is_ok (ParseRedirectURI uri) \<and> challenge \<noteq> [] \<and> set scopes \<subseteq> set allowed \<and> ''openid'' \<in> set scopes"

definition pending_ok :: "astore \<Rightarrow> pending_auth \<Rightarrow> bool" where
  "pending_ok a p \<longleftrightarrow>
    av_clients a (paClientID p) \<noteq> None \<and> bound_ok (paRedirectURI p) (paChallenge p) (paScopes p)"

definition refs :: "astore \<Rightarrow> bool" where
  "refs a \<longleftrightarrow>
    (\<forall>h x. av_sessions a h = Some x \<longrightarrow> av_users a (sUserID x) \<noteq> None) \<and>
    (\<forall>h c. av_codes a h = Some c \<longrightarrow> av_users a (acUserID c) \<noteq> None \<and> av_clients a (acClientID c) \<noteq> None \<and>
      bound_ok (acRedirectURI c) (acCodeChallenge c) (acScopes c)) \<and>
    (\<forall>h t. av_refresh a h = Some t \<longrightarrow> av_users a (rtUserID t) \<noteq> None \<and> av_clients a (rtClientID t) \<noteq> None) \<and>
    (\<forall>h t. av_access a h = Some t \<longrightarrow> av_users a (atUserID t) \<noteq> None \<and> av_clients a (atClientID t) \<noteq> None) \<and>
    (\<forall>u c. av_consents a u c \<noteq> None \<longrightarrow> av_users a u \<noteq> None \<and> av_clients a c \<noteq> None) \<and>
    (\<forall>i u. av_members a i u \<noteq> None \<longrightarrow> av_orgs a i \<noteq> None \<and> av_users a u \<noteq> None)"

definition owned :: "astore \<Rightarrow> bool" where
  "owned a \<longleftrightarrow> (\<forall>i. av_orgs a i \<noteq> None \<longrightarrow> (\<exists>u m. av_members a i u = Some m \<and> mRole m = OrgRoleOwner))"

definition unused :: "(nat \<Rightarrow> string) \<Rightarrow> nat \<Rightarrow> astore \<Rightarrow> bool" where
  "unused U n a \<longleftrightarrow> (\<forall>k \<ge> n. av_users a (U k) = None \<and> av_orgs a (U k) = None)"

definition plain_ids :: "astore \<Rightarrow> bool" where
  "plain_ids a \<longleftrightarrow> (\<forall>i. av_users a i \<noteq> None \<longrightarrow> CHR ''|'' \<notin> set i)"

definition astore_ok :: "(nat \<Rightarrow> string) \<Rightarrow> nat \<Rightarrow> astore \<Rightarrow> bool" where
  "astore_ok U n a \<longleftrightarrow> refs a \<and> owned a \<and> unused U n a \<and> plain_ids a \<and> families_ok U n (av_refresh a)"

text \<open>Accounts, clients and organizations are never removed.\<close>

definition grows :: "astore \<Rightarrow> astore \<Rightarrow> bool" where
  "grows a b \<longleftrightarrow> dom (av_users a) \<subseteq> dom (av_users b) \<and> dom (av_clients a) \<subseteq> dom (av_clients b) \<and>
    dom (av_orgs a) \<subseteq> dom (av_orgs b)"

lemma grows_refl [simp]: "grows a a"
  by (simp add: grows_def)

lemma grows_trans: "grows a b \<Longrightarrow> grows b c \<Longrightarrow> grows a c"
  unfolding grows_def by (meson subset_trans)

lemma on_store_eq: "on_store f w = (fst (f (w_store w)), w\<lparr>w_store := snd (f (w_store w))\<rparr>)"
  by (simp add: on_store_def split: prod.split)

lemma only_sessions:
  "b\<lparr>av_sessions := av_sessions a\<rparr> = a \<Longrightarrow> b = a\<lparr>av_sessions := av_sessions b, av_sidRP := av_sidRP a\<rparr>"
  by (cases a, cases b) simp

lemma pending_grows: "pending_ok a p \<Longrightarrow> grows a b \<Longrightarrow> pending_ok b p"
  by (auto simp: pending_ok_def grows_def)

lemma ok_mono: "astore_ok U n a \<Longrightarrow> n \<le> m \<Longrightarrow> astore_ok U m a"
  by (auto simp: astore_ok_def unused_def families_mono)

lemma ok_same: "same_but_audits a b \<Longrightarrow> astore_ok U n a \<longleftrightarrow> astore_ok U n b"
  and grows_same: "same_but_audits a b \<Longrightarrow> grows c a \<longleftrightarrow> grows c b"
  by (simp_all add: same_but_audits_iff astore_ok_def refs_def owned_def unused_def plain_ids_def grows_def)

subsubsection \<open>The writes\<close>

lemmas ok_defs = astore_ok_def refs_def owned_def unused_def plain_ids_def

lemma ok_session:
  "astore_ok U n a \<Longrightarrow> av_users a (sUserID x) \<noteq> None \<Longrightarrow>
    astore_ok U n (a\<lparr>av_sessions := (av_sessions a)(h \<mapsto> x)\<rparr>)"
  by (auto simp: ok_defs)

lemma ok_sessions_less:
  "astore_ok U n a \<Longrightarrow> (\<And>h x. S h = Some x \<Longrightarrow> \<exists>y. av_sessions a h = Some y \<and> sUserID y = sUserID x) \<Longrightarrow>
    astore_ok U n (a\<lparr>av_sessions := S, av_sidRP := P\<rparr>)"
  by (fastforce simp: ok_defs)

lemma ok_sidRP: "astore_ok U n a \<Longrightarrow> astore_ok U n (a\<lparr>av_sidRP := P\<rparr>)"
  by (simp add: ok_defs)

lemma ok_client:
  "astore_ok U n a \<Longrightarrow> astore_ok U n (a\<lparr>av_clients := (av_clients a)(i \<mapsto> c)\<rparr>)"
  unfolding ok_defs by (auto; blast)

lemma ok_code:
  "astore_ok U n a \<Longrightarrow> av_users a (acUserID c) \<noteq> None \<Longrightarrow> av_clients a (acClientID c) \<noteq> None \<Longrightarrow>
    bound_ok (acRedirectURI c) (acCodeChallenge c) (acScopes c) \<Longrightarrow>
    (\<And>h. C h = av_codes a h \<or> C h = Some c) \<Longrightarrow> astore_ok U n (a\<lparr>av_codes := C\<rparr>)"
  unfolding ok_defs by (auto; metis option.inject)

lemma ok_consents:
  "astore_ok U n a \<Longrightarrow> av_users a u \<noteq> None \<Longrightarrow> av_clients a c \<noteq> None \<Longrightarrow>
    astore_ok U n (a\<lparr>av_consents := (av_consents a)(u := (av_consents a u)(c \<mapsto> g))\<rparr>)"
  unfolding ok_defs by (auto split: if_splits)

lemma ok_user_row:
  "astore_ok U n a \<Longrightarrow> av_users a i \<noteq> None \<Longrightarrow> astore_ok U n (a\<lparr>av_users := (av_users a)(i \<mapsto> u)\<rparr>)"
  unfolding ok_defs by (auto; blast)

lemma ok_new_user:
  "astore_ok U n a \<Longrightarrow> inj U \<Longrightarrow> CHR ''|'' \<notin> set (U n) \<Longrightarrow>
    astore_ok U (Suc n) (a\<lparr>av_users := (av_users a)(U n \<mapsto> u)\<rparr>)"
  unfolding ok_defs by (auto simp: inj_eq families_mono; blast)

lemma ok_new_org:
  "astore_ok U n a \<Longrightarrow> inj U \<Longrightarrow> av_users a (mUserID m) \<noteq> None \<Longrightarrow> mRole m = OrgRoleOwner \<Longrightarrow>
    astore_ok U (Suc n) (a\<lparr>av_orgs := (av_orgs a)(U n \<mapsto> org),
      av_members := (av_members a)(U n := [mUserID m \<mapsto> m])\<rparr>)"
  unfolding ok_defs by (auto simp: inj_eq families_mono split: if_splits; blast)

lemma ok_member:
  "astore_ok U n a \<Longrightarrow> av_orgs a i \<noteq> None \<Longrightarrow> av_users a u \<noteq> None \<Longrightarrow>
    av_members a i u = None \<or> mRole m = OrgRoleOwner \<or> (\<exists>v k. v \<noteq> u \<and> av_members a i v = Some k \<and> mRole k = OrgRoleOwner) \<Longrightarrow>
    astore_ok U n (a\<lparr>av_members := (av_members a)(i := (av_members a i)(u \<mapsto> m))\<rparr>)"
  unfolding ok_defs by (auto split: if_splits) (metis option.distinct(1))+

lemma ok_remove_member:
  "astore_ok U n a \<Longrightarrow> (\<exists>v k. v \<noteq> u \<and> av_members a i v = Some k \<and> mRole k = OrgRoleOwner) \<Longrightarrow>
    astore_ok U n (a\<lparr>av_members := (av_members a)(i := (av_members a i)(u := None))\<rparr>)"
  unfolding ok_defs by (auto split: if_splits)

text \<open>The token endpoint: it marks codes, and adds or revokes tokens of clients and users that exist.\<close>

lemma ok_tokens:
  assumes "astore_ok U n a" and "n \<le> m" and "families_ok U m (av_refresh b)"
    and "\<And>h t. av_access b h = Some t \<Longrightarrow> av_users a (atUserID t) \<noteq> None \<and> av_clients a (atClientID t) \<noteq> None"
    and "\<And>h t. av_refresh b h = Some t \<Longrightarrow> av_users a (rtUserID t) \<noteq> None \<and> av_clients a (rtClientID t) \<noteq> None"
    and "\<And>h c. av_codes b h = Some c \<Longrightarrow> \<exists>c0. av_codes a h = Some c0 \<and> (c = c0 \<or> c = c0\<lparr>acUsed := True\<rparr>)"
    and "av_users b = av_users a" and "av_clients b = av_clients a" and "av_sessions b = av_sessions a"
    and "av_consents b = av_consents a" and "av_orgs b = av_orgs a" and "av_members b = av_members a"
  shows "astore_ok U m b"
proof -
  have "av_users a (acUserID c) \<noteq> None \<and> av_clients a (acClientID c) \<noteq> None \<and>
      bound_ok (acRedirectURI c) (acCodeChallenge c) (acScopes c)" if "av_codes b h = Some c" for h c
    using assms(6) [OF that] assms(1) unfolding ok_defs by (elim exE conjE disjE) auto
  with assms show ?thesis by (simp add: ok_defs)
qed

lemma ok_access_rows:
  "astore_ok U n a \<Longrightarrow> av_access a h = Some t \<Longrightarrow> av_users a (atUserID t) \<noteq> None \<and> av_clients a (atClientID t) \<noteq> None"
  by (auto simp: ok_defs)

lemma ok_refresh_rows:
  "astore_ok U n a \<Longrightarrow> av_refresh a h = Some t \<Longrightarrow> av_users a (rtUserID t) \<noteq> None \<and> av_clients a (rtClientID t) \<noteq> None"
  by (auto simp: ok_defs)

lemma ok_code_rows:
  "astore_ok U n a \<Longrightarrow> av_codes a h = Some c \<Longrightarrow> av_users a (acUserID c) \<noteq> None \<and> av_clients a (acClientID c) \<noteq> None \<and>
    bound_ok (acRedirectURI c) (acCodeChallenge c) (acScopes c)"
  by (auto simp: ok_defs)

subsection \<open>The invariant\<close>

context repos_contract
begin

definition sys_inv :: "(nat \<Rightarrow> string) \<Rightarrow> 's world \<Rightarrow> bool" where
  "sys_inv U w \<longleftrightarrow> inv (w_store w) \<and> astore_ok U (w_ids w) (abs (w_store w)) \<and>
    (\<forall>k p. gget (w_pending w) k = Some p \<longrightarrow> pending_ok (abs (w_store w)) p)"

lemma sys_invD:
  assumes "sys_inv U w"
  shows "inv (w_store w)" "astore_ok U (w_ids w) (abs (w_store w))"
    "gget (w_pending w) k = Some p \<Longrightarrow> pending_ok (abs (w_store w)) p"
  using assms by (auto simp: sys_inv_def)

lemma sys_world [simp]:
  "sys_inv U (w\<lparr>w_draws := n\<rparr>) = sys_inv U w" "sys_inv U (w\<lparr>w_hits := hs\<rparr>) = sys_inv U w"
  "sys_inv U (w\<lparr>w_sent := ss\<rparr>) = sys_inv U w"
  by (simp_all add: sys_inv_def)

lemma sys_step:
  "sys_inv U w \<Longrightarrow> inv (w_store w') \<Longrightarrow> astore_ok U (w_ids w') (abs (w_store w')) \<Longrightarrow>
    grows (abs (w_store w)) (abs (w_store w')) \<Longrightarrow> w_pending w' = w_pending w \<Longrightarrow> sys_inv U w'"
  using pending_grows unfolding sys_inv_def by simp blast

lemma sys_store:
  "sys_inv U w \<Longrightarrow> inv s \<Longrightarrow> astore_ok U (w_ids w) (abs s) \<Longrightarrow> grows (abs (w_store w)) (abs s) \<Longrightarrow>
    sys_inv U (w\<lparr>w_store := s\<rparr>)"
  by (rule sys_step [of U w]) simp_all

lemma sys_ids: "sys_inv U w \<Longrightarrow> w_ids w \<le> n \<Longrightarrow> sys_inv U (w\<lparr>w_ids := n\<rparr>)"
  by (rule sys_step [of U w]) (auto simp: sys_inv_def intro: ok_mono)

lemma audit_sys: "sys_inv U w \<Longrightarrow> sys_inv U (audit R E r t sub c n w)"
  by (rule sys_step [of U w])
    (auto simp: sys_invD(1) audit_inv ok_same [OF audit_same] grows_same [OF audit_same] dest: sys_invD(2) intro: ok_mono)

lemma random_Token_sys: "sys_inv U w \<Longrightarrow> sys_inv U (snd (random_Token E w))"
  by (simp add: random_Token_eq split: option.split)

lemma issueCSRF_sys: "sys_inv U w \<Longrightarrow> sys_inv U (snd (snd (issueCSRF E rs w)))"
  by (simp add: issueCSRF_def random_Token_eq split: option.split)

subsubsection \<open>Sessions\<close>

lemma delete_sys:
  assumes "sys_inv U w"
  shows "sys_inv U (snd (on_store (DeleteSession (Sessions R) h) w))"
proof -
  note d = delete_session [OF sys_invD(1) [OF assms], of h]
  have "astore_ok U (w_ids w) (abs (snd (DeleteSession (Sessions R) h (w_store w))))"
    unfolding d [THEN conjunct2, THEN conjunct2]
    by (rule ok_sessions_less [OF sys_invD(2) [OF assms]]) (simp split: if_splits)
  then show ?thesis using d by (auto intro!: sys_store [OF assms] simp: grows_def)
qed

lemma LookupSession_sys: "sys_inv U w \<Longrightarrow> sys_inv U (snd (LookupSession (Sessions R) E c w))"
  using delete_sys [of U w "HashToken c"] by (simp add: LookupSession_eq [OF sys_invD(1)] split: option.split)

lemma Lookup_sys: "sys_inv U w \<Longrightarrow> sys_inv U (snd (Lookup (Sessions R) E c w))"
  by (simp add: Lookup_snd LookupSession_sys)

lemma currentSID_sys: "sys_inv U w \<Longrightarrow> sys_inv U (snd (currentSID R E r w))"
  using LookupSession_sys [of U w E] by (auto simp: currentSID_def split: option.split prod.split sum.split) (metis snd_conv)+

lemma currentUser_sys: "sys_inv U w \<Longrightarrow> sys_inv U (snd (currentUser R E r w))"
  using Lookup_sys [of U w E] by (auto simp: currentUser_def split: option.split prod.split sum.split) (metis snd_conv)+

text \<open>Who a session cookie stands for: an enabled account that exists, and nothing changes.\<close>

lemma currentUser_Some:
  assumes "inv (w_store w)" and "currentUser R E r w = (Some u, w')"
  shows "w' = w" and "av_users (abs (w_store w)) (uID u) = Some u" and "\<not> uDisabled u"
    and "\<exists>c x. Cookie r CookieName = Some c \<and> c \<noteq> [] \<and> Now E < sExpiresAt x \<and>
      av_sessions (abs (w_store w)) (HashToken c) = Some x \<and> sUserID x = uID u"
proof -
  obtain c uid w1 where c: "Cookie r CookieName = Some c" and l: "Lookup (Sessions R) E c w = (Inr uid, w1)"
    and g: "GetByID (Users R) uid (w_store w1) = Inr u" "\<not> uDisabled u" "w' = w1"
    using assms(2) by (auto simp: currentUser_def split: option.splits sum.splits prod.splits if_splits)
  obtain x where x: "LookupSession (Sessions R) E c w = (Inr x, w1)" "sUserID x = uid"
    using l by (auto simp: Lookup_def split: prod.splits sum.splits)
  note ls = LookupSession_ok [OF assms(1) x(1)]
  have u: "av_users (abs (w_store w)) uid = Some u" using g(1) ls(1) by (simp add: get_by_id)
  have key: "uID u = uid" by (rule user_key [OF assms(1) u])
  show "w' = w" using g ls by simp
  show "av_users (abs (w_store w)) (uID u) = Some u" using u key by simp
  show "\<not> uDisabled u" by (rule g(2))
  show "\<exists>c x. Cookie r CookieName = Some c \<and> c \<noteq> [] \<and> Now E < sExpiresAt x \<and>
      av_sessions (abs (w_store w)) (HashToken c) = Some x \<and> sUserID x = uID u"
    using c ls x(2) key by (intro exI [of _ c] exI [of _ x]) simp
qed

lemma Start_session_sys:
  assumes "sys_inv U w" and "av_users (abs (w_store w)) uid \<noteq> None"
  shows "sys_inv U (snd (Start_session (Sessions R) E ttl uid w))"
proof -
  have p: "sys_inv U (snd (on_store (PutSession (Sessions R) x) (w\<lparr>w_draws := n\<rparr>)))" if "sUserID x = uid" for x n
  proof -
    note ps = put_session [OF sys_invD(1) [OF assms(1)], of x]
    have "sys_inv U (w\<lparr>w_store := snd (PutSession (Sessions R) x (w_store w))\<rparr>)"
      using ps assms(2) that by (auto intro!: sys_store [OF assms(1)] ok_session sys_invD(2) [OF assms(1)] simp: grows_def)
    then show ?thesis by (simp add: sys_inv_def)
  qed
  show ?thesis
  proof (cases "token_at E (w_draws w)")
    case None
    then show ?thesis using assms(1) by (simp add: Start_session_def random_Token_eq)
  next
    case t: (Some t)
    show ?thesis
    proof (cases "token_at E (Suc (w_draws w))")
      case None
      then show ?thesis using assms(1) t by (simp add: Start_session_def random_Token_eq)
    next
      case (Some s)
      then show ?thesis using t p
        by (simp add: Start_session_def random_Token_eq Let_def on_store_eq split: sum.split)
    qed
  qed
qed

lemma End_session_sys: "sys_inv U w \<Longrightarrow> sys_inv U (snd (End_session (Sessions R) c w))"
  using delete_sys [of U w "HashToken c"] by (simp add: End_session_eq [OF sys_invD(1)])

lemma add_client_sys:
  assumes "sys_inv U w"
  shows "sys_inv U (snd (on_store (AddSessionClient (Sessions R) sid c) w))"
  using add_client [OF sys_invD(1) [OF assms], of sid c]
  by (auto intro!: sys_store [OF assms] ok_sidRP sys_invD(2) [OF assms] simp: grows_def)

lemma endBrowserSession_sys: "sys_inv U w \<Longrightarrow> sys_inv U (snd (endBrowserSession R E r rs w))"
  by (auto simp: endBrowserSession_def intro: End_session_sys LookupSession_sys split: option.split)

lemma set_active_sys:
  assumes "sys_inv U w"
  shows "sys_inv U (snd (SetActiveOrg R u h i w))"
proof (cases "av_members (abs (w_store w)) i u = None \<or> av_sessions (abs (w_store w)) h = None")
  case True
  then show ?thesis using assms set_active_missing by (auto simp: SetActiveOrg_eq on_store_def)
next
  case False
  then obtain x where x: "av_sessions (abs (w_store w)) h = Some x" by auto
  note sa = set_active [OF sys_invD(1) [OF assms] x, of i]
  have "av_users (abs (w_store w)) (sUserID x) \<noteq> None"
    using sys_invD(2) [OF assms] x by (auto simp: ok_defs)
  then show ?thesis using sa False
    by (auto simp: SetActiveOrg_eq intro!: sys_store [OF assms] ok_session sys_invD(2) [OF assms]) (simp add: grows_def)
qed

lemma set_active_by_sid_sys:
  assumes "sys_inv U w"
  shows "sys_inv U (snd (SetActiveOrgBySID R u sid i w))"
proof -
  let ?s = "snd (SetSessionActiveOrgBySID (Organizations R) sid i (w_store w))"
  note f = set_active_by_sid_frame [OF sys_invD(1) [OF assms], of sid i]
  have same: "\<exists>y. av_sessions (abs (w_store w)) h = Some y \<and> sUserID y = sUserID x"
    if "av_sessions (abs ?s) h = Some x" for h x
  proof -
    have "map_option (sActiveOrgID_update (\<lambda>_. [])) (av_sessions (abs (w_store w)) h) =
        Some (x\<lparr>sActiveOrgID := []\<rparr>)"
      using f that by (metis option.simps(9))
    then obtain y where y: "av_sessions (abs (w_store w)) h = Some y" "y\<lparr>sActiveOrgID := []\<rparr> = x\<lparr>sActiveOrgID := []\<rparr>"
      by auto
    from arg_cong [OF y(2), of sUserID] y(1) show ?thesis by simp
  qed
  have eq: "abs ?s = (abs (w_store w))\<lparr>av_sessions := av_sessions (abs ?s), av_sidRP := av_sidRP (abs (w_store w))\<rparr>"
    using f by (intro only_sessions) blast
  have "astore_ok U (w_ids w) (abs ?s)"
    by (subst eq) (rule ok_sessions_less [OF sys_invD(2) [OF assms] same])
  moreover have "grows (abs (w_store w)) (abs ?s)" by (subst eq) (simp add: grows_def)
  ultimately have "sys_inv U (w\<lparr>w_store := ?s\<rparr>)" using f by (auto intro: sys_store [OF assms])
  then show ?thesis using assms
    by (auto simp: SetActiveOrgBySID_def split: sum.split)
qed

end

end
