(* ===== verification/ServeInv.thy ===== *)
theory ServeInv
  imports SysInv
begin

section \<open>Every handler keeps the invariant\<close>

text \<open>
  One lemma per handler that \<open>sys_inv\<close> is kept, composed to the route table and to \<open>serve\<close>. The
  environment draws distinct identifiers without a bar (\<open>ulid.Make\<close>).
\<close>

definition ids_ok :: "(nat \<Rightarrow> string) \<Rightarrow> env \<Rightarrow> bool" where
  "ids_ok U E \<longleftrightarrow> ULID E = U \<and> inj U \<and> (\<forall>k. CHR ''|'' \<notin> set (U k))"

lemma only_consents:
  "b\<lparr>av_consents := c\<rparr> = a \<Longrightarrow> av_users b = av_users a \<and> av_clients b = av_clients a"
  by (cases b) auto

context repos_contract
begin

subsection \<open>Accounts and sessions\<close>

lemma create_sys:
  assumes "sys_inv U w" and "ids_ok U E" and "uID u = U (w_ids w)"
  shows "sys_inv U (snd (on_store (Create (Users R) u) (w\<lparr>w_ids := Suc (w_ids w)\<rparr>)))"
proof (cases "\<exists>i v. av_users (abs (w_store w)) i = Some v \<and> uEmail v = ToLower (uEmail u)")
  case True
  then obtain i v where "av_users (abs (w_store w)) i = Some v" "uEmail v = ToLower (uEmail u)" by blast
  from create_conflict [OF sys_invD(1) [OF assms(1)] this]
  have "snd (on_store (Create (Users R) u) (w\<lparr>w_ids := Suc (w_ids w)\<rparr>)) = w\<lparr>w_ids := Suc (w_ids w)\<rparr>"
    by (simp add: on_store_eq)
  then show ?thesis using sys_ids [OF assms(1), of "Suc (w_ids w)"] by simp
next
  case False
  have "av_users (abs (w_store w)) (uID u) = None"
    using sys_invD(2) [OF assms(1)] assms(3) by (simp add: ok_defs)
  then have c: "inv (snd (Create (Users R) u (w_store w)))"
    "abs (snd (Create (Users R) u (w_store w))) =
      (abs (w_store w))\<lparr>av_users := (av_users (abs (w_store w)))(uID u \<mapsto> u\<lparr>uEmail := ToLower (uEmail u)\<rparr>)\<rparr>"
    using create_ok [OF sys_invD(1) [OF assms(1)], of u] False by blast+
  have "CHR ''|'' \<notin> set (U (w_ids w))" "inj U" using assms(2) by (simp_all add: ids_ok_def)
  then show ?thesis
    using c ok_new_user [OF sys_invD(2) [OF assms(1)]] assms(3)
    by (auto intro!: sys_step [OF assms(1)] simp: on_store_eq grows_def)
qed

lemma Register_sys:
  assumes "sys_inv U w" and "ids_ok U E"
  shows "sys_inv U (snd (Register (Users R) E inp w))"
proof -
  have c: "sys_inv U (w\<lparr>w_draws := n, w_ids := Suc (w_ids w), w_store := snd (Create (Users R) u (w_store w))\<rparr>)"
    if "uID u = ULID E (w_ids w)" for u n
    using create_sys [of U "w\<lparr>w_draws := n\<rparr>" E u] assms that by (simp add: on_store_eq ids_ok_def)
  show ?thesis
    using assms(1) c
    by (simp add: Register_def Let_def Hash_password_def id_New_def on_store_eq split: sum.split option.split)
qed

lemma failForm_sys: "sys_inv U w \<Longrightarrow> sys_inv U (snd (failForm E r v t m st w))"
  and formPage_sys: "sys_inv U w \<Longrightarrow> sys_inv U (snd (formPage E r v t w))"
  by (simp_all add: failForm_def formPage_def issueCSRF_def random_Token_eq split: option.split)

lemma startSessionAndRedirect_sys:
  assumes "sys_inv U w" and "av_users (abs (w_store w)) uid \<noteq> None"
  shows "sys_inv U (snd (startSessionAndRedirect R E r uid cont w))"
  using Start_session_sys [OF assms, of E "SessionTTL (Cfg E)"]
  by (auto simp: startSessionAndRedirect_def split: prod.split sum.split)

lemma handleRegister_sys:
  assumes "sys_inv U w" and "ids_ok U E"
  shows "sys_inv U (snd (handleRegister R E r w))"
proof -
  let ?inp = "\<lparr>rEmail = FormValue r ''email'', rPassword = FormValue r ''password'', rName = FormValue r ''name''\<rparr>"
  obtain res w1 where reg: "Register (Users R) E ?inp w = (res, w1)" by fastforce
  have w1: "sys_inv U w1" using Register_sys [OF assms, of ?inp] reg by simp
  have "av_users (abs (w_store w)) (ULID E (w_ids w)) = None"
    using sys_invD(2) [OF assms(1)] assms(2) by (simp add: ok_defs ids_ok_def)
  then have "av_users (abs (w_store w1)) (uID u) \<noteq> None" if "res = Inr u" for u
    using Register_ok [OF sys_invD(1) [OF assms(1)] reg [unfolded that]] by auto
  then show ?thesis
    using failForm_sys [OF assms(1)] failForm_sys [OF w1] startSessionAndRedirect_sys [OF w1] reg
    by (simp add: handleRegister_def Let_def split: sum.split)
qed

lemma handleLogin_sys:
  assumes "sys_inv U w"
  shows "sys_inv U (snd (handleLogin R E r w))"
proof -
  have auth: "av_users (abs (w_store w)) (uID u) \<noteq> None"
    if "Authenticate (Users R) E email p (w_store w) = Inr u" for email p u
    using that Authenticate_iff [OF sys_invD(1) [OF assms]] by simp
  have start: "sys_inv U (snd (startSessionAndRedirect R E r (uID u) cont (w\<lparr>w_hits := hs\<rparr>)))"
    if "Authenticate (Users R) E email p (w_store w) = Inr u" for email p u cont hs
    using startSessionAndRedirect_sys [of U "w\<lparr>w_hits := hs\<rparr>"] auth [OF that] assms by simp
  have fl: "sys_inv U (snd (failForm E r v t m st (w\<lparr>w_hits := hs\<rparr>)))"
    and fl2: "sys_inv U (snd (failForm E r v t m st (audit R E r ty a b n (w\<lparr>w_hits := hs\<rparr>))))"
    for v t m st hs ty a b n
    using assms by (simp_all add: failForm_sys audit_sys)
  show ?thesis
    using failForm_sys [OF assms] start fl fl2
    by (simp add: handleLogin_def Let_def split: sum.split prod.split)
qed

subsection \<open>Logout\<close>

lemma notify_client_sys: "sys_inv U w \<Longrightarrow> sys_inv U (notify_client R E sid sub c w)"
  by (simp add: notify_client_def random_Token_eq split: sum.split option.split)

lemma fold_notify_sys: "sys_inv U w \<Longrightarrow> sys_inv U (fold (notify_client R E sid sub) cs w)"
  by (induction cs arbitrary: w) (simp_all add: notify_client_sys)

lemma notifyBackChannel_sys: "sys_inv U w \<Longrightarrow> sys_inv U (notifyBackChannel R E sid sub w)"
  by (simp add: notifyBackChannel_def fold_notify_sys split: sum.split)

lemma finishLogout_sys:
  assumes "sys_inv U w"
  shows "sys_inv U (snd (finishLogout R E r req d w))"
proof -
  obtain sid w1 where 1: "currentSID R E r w = (sid, w1)" by fastforce
  obtain usr w2 where 2: "currentUser R E r w1 = (usr, w2)" by fastforce
  have "sys_inv U w2" using currentSID_sys [OF assms, of E r] currentUser_sys [of U w1 E r] 1 2 by simp
  from endBrowserSession_sys [OF notifyBackChannel_sys [OF this]] show ?thesis
    using 1 2 by (simp add: finishLogout_def Let_def split: prod.split) (metis snd_conv)
qed

lemma handleLogout_sys: "sys_inv U w \<Longrightarrow> sys_inv U (snd (handleLogout R E r w))"
  by (simp add: handleLogout_def finishLogout_sys)

lemma renderEndSessionConfirm_sys: "sys_inv U w \<Longrightarrow> sys_inv U (snd (renderEndSessionConfirm E req w))"
  by (simp add: renderEndSessionConfirm_def issueCSRF_def random_Token_eq split: option.split)

lemma handleEndSession_sys:
  assumes "sys_inv U w"
  shows "sys_inv U (snd (handleEndSession R E r w))"
proof -
  obtain usr w1 where 1: "currentUser R E r w = (usr, w1)" by fastforce
  have "sys_inv U w1" using currentUser_sys [OF assms, of E r] 1 by simp
  then show ?thesis using assms 1
    by (simp add: handleEndSession_def Let_def finishLogout_sys renderEndSessionConfirm_sys split: sum.split)
qed

lemma handleHome_sys: "sys_inv U w \<Longrightarrow> sys_inv U (snd (handleHome R E r w))"
  using currentUser_sys [of U w E r]
  by (auto simp: handleHome_def issueCSRF_def random_Token_eq split: option.split prod.split)

subsection \<open>Authorization\<close>

lemma put_code_sys:
  assumes "sys_inv U w" and "av_users (abs (w_store w)) (acUserID c) \<noteq> None"
    and "av_clients (abs (w_store w)) (acClientID c) \<noteq> None"
    and "bound_ok (acRedirectURI c) (acCodeChallenge c) (acScopes c)"
  shows "sys_inv U (snd (on_store (PutCode (AuthCodes R) c) w))"
proof -
  let ?s = "snd (PutCode (AuthCodes R) c (w_store w))"
  note f = put_code_frame [OF sys_invD(1) [OF assms(1)], of c]
  have eq: "abs ?s = (abs (w_store w))\<lparr>av_codes := av_codes (abs ?s)\<rparr>"
    using f by (cases "abs ?s", cases "abs (w_store w)") simp
  have "astore_ok U (w_ids w) (abs ?s)"
    by (subst eq, rule ok_code [OF sys_invD(2) [OF assms(1)] assms(2-4)]) (use f in blast)
  moreover have "grows (abs (w_store w)) (abs ?s)" by (subst eq) (simp add: grows_def)
  ultimately show ?thesis using f by (auto intro: sys_store [OF assms(1)] simp: on_store_eq)
qed

lemma currentSID_world:
  assumes "inv (w_store w)" and "currentSID R E r w = (sid, w')"
  shows "av_users (abs (w_store w')) = av_users (abs (w_store w))"
    and "av_clients (abs (w_store w')) = av_clients (abs (w_store w))"
proof -
  have "av_users (abs (w_store (snd (LookupSession (Sessions R) E c w)))) = av_users (abs (w_store w)) \<and>
    av_clients (abs (w_store (snd (LookupSession (Sessions R) E c w)))) = av_clients (abs (w_store w))" for c
    using delete_session [OF assms(1), of "HashToken c"]
    by (simp add: LookupSession_eq [OF assms(1)] split: option.split)
  then show "av_users (abs (w_store w')) = av_users (abs (w_store w))"
    and "av_clients (abs (w_store w')) = av_clients (abs (w_store w))"
    using assms(2) by (auto simp: currentSID_def split: option.splits prod.splits sum.splits) (metis snd_conv)+
qed

lemma issueCodeRedirect_sys:
  assumes "sys_inv U w" and "av_users (abs (w_store w)) uid \<noteq> None" and "pending_ok (abs (w_store w)) p"
  shows "sys_inv U (snd (issueCodeRedirect R E r uid p w))"
proof (cases "token_at E (w_draws w)")
  case None
  then show ?thesis using assms(1) by (simp add: issueCodeRedirect_def random_Token_eq)
next
  case (Some t)
  let ?w = "w\<lparr>w_draws := Suc (w_draws w)\<rparr>"
  obtain sid w1 where 1: "currentSID R E r ?w = (sid, w1)" by fastforce
  have w1: "sys_inv U w1" using currentSID_sys [of U ?w E r] 1 assms(1) by simp
  have rows: "av_users (abs (w_store w1)) uid \<noteq> None" "pending_ok (abs (w_store w1)) p"
    using currentSID_world [OF _ 1] assms by (simp_all add: sys_invD(1) pending_ok_def)
  let ?row = "\<lparr>acHash = HashToken t, acClientID = paClientID p, acUserID = uid,
               acRedirectURI = paRedirectURI p, acScopes = paScopes p, acNonce = paNonce p,
               acCodeChallenge = paChallenge p, acSessionSID = sid,
               acExpiresAt = Now E + CodeTTL (Cfg E), acUsed = False\<rparr>"
  have w2: "sys_inv U (w1\<lparr>w_store := snd (PutCode (AuthCodes R) ?row (w_store w1))\<rparr>)"
    using put_code_sys [OF w1, of ?row] rows by (simp add: on_store_eq pending_ok_def)
  have w3: "sys_inv U (w1\<lparr>w_store := snd (AddSessionClient (Sessions R) sid (paClientID p)
      (snd (PutCode (AuthCodes R) ?row (w_store w1))))\<rparr>)"
    using add_client_sys [OF w2] by (simp add: on_store_eq)
  show ?thesis
    using Some 1 w2 w3 by (simp add: issueCodeRedirect_def random_Token_eq Let_def on_store_eq split: sum.split option.split)
qed

lemma checkAuthorize_ok:
  assumes "inv s" and "checkAuthorize R r s = Inr (c, scopes)"
  shows "av_clients (abs s) (cID c) = Some c" and "cID c = values_get (r_query r) ''client_id''"
    and "values_get (r_query r) ''redirect_uri'' \<in> set (cRedirectURIs c)"
    and "NormalizeScopes (values_get (r_query r) ''scope'') True = Inr scopes"
    and "bound_ok (values_get (r_query r) ''redirect_uri'') (values_get (r_query r) ''code_challenge'') scopes"
    and "values_get (r_query r) ''response_type'' = ''code''"
    and "values_get (r_query r) ''code_challenge_method'' = ''S256''"
proof -
  let ?cid = "values_get (r_query r) ''client_id''"
  have g: "av_clients (abs s) ?cid = Some c"
    and n: "NormalizeScopes (values_get (r_query r) ''scope'') True = Inr scopes"
    using assms(2) by (auto simp: checkAuthorize_def Let_def get_client split: sum.splits if_splits)
  show "cID c = ?cid" by (rule client_key [OF assms(1) g])
  with g show "av_clients (abs s) (cID c) = Some c" by simp
  show "NormalizeScopes (values_get (r_query r) ''scope'') True = Inr scopes" by (rule n)
  show "values_get (r_query r) ''redirect_uri'' \<in> set (cRedirectURIs c)"
    and "values_get (r_query r) ''response_type'' = ''code''"
    and "values_get (r_query r) ''code_challenge_method'' = ''S256''"
    using assms(2) by (auto simp: checkAuthorize_def Let_def RedirectURIExact_iff ChallengeS256_def split: sum.splits if_splits)
  show "bound_ok (values_get (r_query r) ''redirect_uri'') (values_get (r_query r) ''code_challenge'') scopes"
    using assms(2) n NormalizeScopes_Inr [of "values_get (r_query r) ''scope''" True scopes]
    by (auto simp: bound_ok_def checkAuthorize_def Let_def split: sum.splits if_splits)
qed

lemma pending_of_ok:
  "inv s \<Longrightarrow> checkAuthorize R r s = Inr (c, scopes) \<Longrightarrow> pending_ok (abs s) (pending_of E r c scopes)"
  using checkAuthorize_ok(1,5) by (fastforce simp: pending_ok_def pending_of_def)

lemma add_pending_sys:
  "sys_inv U w \<Longrightarrow> pending_ok (abs (w_store w)) p \<Longrightarrow> sys_inv U (w\<lparr>w_pending := gput k p (w_pending w)\<rparr>)"
  by (auto simp: sys_inv_def)

lemma handleAuthorize_sys:
  assumes "sys_inv U w"
  shows "sys_inv U (snd (handleAuthorize R E r w))"
proof (cases "checkAuthorize R r (w_store w)")
  case (Inl rs)
  then show ?thesis using assms by (simp add: handleAuthorize_def)
next
  case (Inr cs)
  obtain c scopes where c: "checkAuthorize R r (w_store w) = Inr (c, scopes)" using Inr by (cases cs) auto
  obtain usr w1 where cu: "currentUser R E r w = (usr, w1)" by fastforce
  show ?thesis
  proof (cases usr)
    case None
    then show ?thesis using c cu currentUser_sys [OF assms, of E r] by (simp add: handleAuthorize_def)
  next
    case (Some u)
    note u = currentUser_Some [OF sys_invD(1) [OF assms] cu [unfolded Some]]
    note p = pending_of_ok [OF sys_invD(1) [OF assms] c, of E]
    have pend: "sys_inv U (w\<lparr>w_pending := gput k (pending_of E r c scopes) (w_pending w)\<rparr>)" for k
      by (rule add_pending_sys [OF assms p])
    show ?thesis
      using c cu u p assms pend issueCodeRedirect_sys [OF assms, of "uID u" "pending_of E r c scopes" E r] Some
      by (auto simp: handleAuthorize_def Let_def random_Token_eq issueCSRF_def split: option.split)
  qed
qed

lemma take_pending_sys: "sys_inv U w \<Longrightarrow> sys_inv U (snd (take_pending k w))"
  by (auto simp: take_pending_def sys_inv_def split: option.split)

lemma put_consent_sys:
  assumes "sys_inv U w" and "av_users (abs (w_store w)) (gUserID g) \<noteq> None"
    and "av_clients (abs (w_store w)) (gClientID g) \<noteq> None"
  shows "sys_inv U (snd (on_store (PutConsent (Consents R) g) w))"
proof -
  have "CHR ''|'' \<notin> set (gUserID g)"
    using sys_invD(2) [OF assms(1)] assms(2) by (simp add: ok_defs)
  note pc = put_consent [OF sys_invD(1) [OF assms(1)] this]
  show ?thesis
    using pc ok_consents [OF sys_invD(2) [OF assms(1)] assms(2,3)]
    by (auto intro!: sys_store [OF assms(1)] simp: on_store_eq grows_def)
qed

lemma handleConsent_sys:
  assumes "sys_inv U w"
  shows "sys_inv U (snd (handleConsent R E r w))"
proof -
  obtain usr w1 where cu: "currentUser R E r w = (usr, w1)" by fastforce
  have w1: "sys_inv U w1" using currentUser_sys [OF assms, of E r] cu by simp
  obtain po w2 where tp: "take_pending (FormValue r ''request_id'') w1 = (po, w2)" by fastforce
  have w2: "sys_inv U w2" and st: "w_store w2 = w_store w1"
    using take_pending_sys [OF w1, of "FormValue r ''request_id''"] tp
    by (auto simp: take_pending_def split: option.splits)
  have allow: "sys_inv U (snd (issueCodeRedirect R E r (uID u) p
      (audit R E r AuditConsent (uID u) (paClientID p) n
        (w2\<lparr>w_store := snd (PutConsent (Consents R)
          \<lparr>gUserID = uID u, gClientID = paClientID p, gScopes = paScopes p\<rparr> (w_store w2))\<rparr>))))"
    if us: "usr = Some u" and ps: "po = Some p" for u p n
  proof -
    note u = currentUser_Some [OF sys_invD(1) [OF assms] cu [unfolded us]]
    have p: "pending_ok (abs (w_store w2)) p"
      using tp ps sys_invD(3) [OF w1] st by (auto simp: take_pending_def split: option.splits)
    let ?w3 = "w2\<lparr>w_store := snd (PutConsent (Consents R)
        \<lparr>gUserID = uID u, gClientID = paClientID p, gScopes = paScopes p\<rparr> (w_store w2))\<rparr>"
    have w3: "sys_inv U ?w3"
      using put_consent_sys [OF w2, of "\<lparr>gUserID = uID u, gClientID = paClientID p, gScopes = paScopes p\<rparr>"]
        u st p by (simp add: on_store_eq pending_ok_def)
    have same: "av_users (abs (w_store ?w3)) = av_users (abs (w_store w2))"
      "av_clients (abs (w_store ?w3)) = av_clients (abs (w_store w2))"
      using only_consents [OF put_consent_frame [OF sys_invD(1) [OF w2], THEN conjunct2]] by simp_all
    show ?thesis
      using issueCodeRedirect_sys [OF audit_sys [OF w3]] audit_keeps [OF sys_invD(1) [OF w3]] same u st p
      by (simp add: pending_ok_def)
  qed
  show ?thesis
    using assms cu w1 tp w2 allow
    by (simp add: handleConsent_def Let_def on_store_eq split: option.split)
qed

end

end
