(* ===== verification/TokenInv.thy ===== *)
theory TokenInv
  imports ServeInv
begin

section \<open>The token endpoint keeps the invariant\<close>

text \<open>
  Taking a code or a refresh token, adding an access or refresh row and revoking a family, as
  steps of \<open>sys_inv\<close>, on top of the case analyses of \<open>WebToken\<close>.
\<close>

context repos_contract
begin

lemma authenticateClient_ok:
  assumes "inv s" and "authenticateClient R E r s = Some c"
  shows "av_clients (abs s) (cID c) = Some c"
proof -
  obtain i where "av_clients (abs s) i = Some c"
    using assms(2) by (auto simp: authenticateClient_def Let_def get_client split: prod.splits sum.splits if_splits)
  with client_key [OF assms(1) this] show ?thesis by simp
qed

lemma token_change_sys:
  assumes ch: "token_change E c u sc fam sid w acc ref w'" and w: "sys_inv U w"
    and "av_users (abs (w_store w)) u \<noteq> None" and "av_clients (abs (w_store w)) (cID c) \<noteq> None"
    and fam: "families_ok U (w_ids w') (av_refresh (abs (w_store w')))"
  shows "sys_inv U w'"
proof (rule sys_step [OF w])
  note d = token_changeD [OF ch]
  have eqs: "av_clients (abs (w_store w')) = av_clients (abs (w_store w))"
    "av_sessions (abs (w_store w')) = av_sessions (abs (w_store w))"
    "av_consents (abs (w_store w')) = av_consents (abs (w_store w))"
    "av_orgs (abs (w_store w')) = av_orgs (abs (w_store w))"
    "av_members (abs (w_store w')) = av_members (abs (w_store w))"
    "w_ids w \<le> w_ids w'" "w_pending w' = w_pending w"
    using ch by (simp_all add: token_change_def same_but_audits_iff)
  show "inv (w_store w')" by (rule d(1))
  show "w_pending w' = w_pending w" by (rule eqs(7))
  show "grows (abs (w_store w)) (abs (w_store w'))" by (simp add: grows_def d eqs)
  have acc: "av_users (abs (w_store w)) (atUserID t) \<noteq> None \<and> av_clients (abs (w_store w)) (atClientID t) \<noteq> None"
    if "av_access (abs (w_store w')) h = Some t" for h t
    using that ok_access_rows [OF sys_invD(2) [OF w]] assms(3,4)
    by (cases acc) (auto simp: d(4) access_row_def split: if_splits)
  have rf: "av_users (abs (w_store w)) (rtUserID t) \<noteq> None \<and> av_clients (abs (w_store w)) (rtClientID t) \<noteq> None"
    if "av_refresh (abs (w_store w')) h = Some t" for h t
    using that ok_refresh_rows [OF sys_invD(2) [OF w]] assms(3,4)
    by (cases ref) (auto simp: d(5) refresh_row_def split: if_splits)
  show "astore_ok U (w_ids w') (abs (w_store w'))"
    by (rule ok_tokens [OF sys_invD(2) [OF w] eqs(6) fam acc rf]) (simp_all add: d eqs)
qed

lemma code_taken_sys:
  assumes "code_taken h row w w1" and "sys_inv U w"
  shows "sys_inv U w1"
proof (rule sys_step [OF assms(2)])
  note ok = sys_invD(2) [OF assms(2)]
  have ab: "abs (w_store w1) = (abs (w_store w))\<lparr>av_codes := (av_codes (abs (w_store w)))(h \<mapsto> row\<lparr>acUsed := True\<rparr>)\<rparr>"
    and row: "av_codes (abs (w_store w)) h = Some row" using assms(1) by (simp_all add: code_taken_def)
  show "inv (w_store w1)" by (rule code_takenD(1) [OF assms(1)])
  show "w_pending w1 = w_pending w" using assms(1) by (cases w, cases w1) (simp add: code_taken_def)
  show "grows (abs (w_store w)) (abs (w_store w1))" by (simp add: ab grows_def)
  show "astore_ok U (w_ids w1) (abs (w_store w1))"
    unfolding code_takenD(3) [OF assms(1)] ab
    by (rule ok_tokens [OF ok order_refl])
      (use ok row ok_access_rows [OF ok] ok_refresh_rows [OF ok] in \<open>auto simp: astore_ok_def split: if_splits\<close>)
qed

lemma refresh_taken_sys:
  assumes "refresh_taken h row w w1" and "sys_inv U w"
  shows "sys_inv U w1"
proof (rule sys_step [OF assms(2)])
  note ok = sys_invD(2) [OF assms(2)]
  have ab: "abs (w_store w1) = (abs (w_store w))\<lparr>av_refresh := (av_refresh (abs (w_store w)))(h \<mapsto> row\<lparr>rtRevoked := True\<rparr>)\<rparr>"
    and row: "av_refresh (abs (w_store w)) h = Some row" "\<not> rtRevoked row" using assms(1) by (simp_all add: refresh_taken_def)
  have fam: "families_ok U (w_ids w) ((av_refresh (abs (w_store w)))(h \<mapsto> row\<lparr>rtRevoked := True\<rparr>))"
    using families_taken(1) [of U "w_ids w" "av_refresh (abs (w_store w))" h row] row ok by (simp add: astore_ok_def)
  show "inv (w_store w1)" by (rule refresh_takenD(1) [OF assms(1)])
  show "w_pending w1 = w_pending w" using assms(1) by (cases w, cases w1) (simp add: refresh_taken_def)
  show "grows (abs (w_store w)) (abs (w_store w1))" by (simp add: ab grows_def)
  show "astore_ok U (w_ids w1) (abs (w_store w1))"
    unfolding refresh_takenD(3) [OF assms(1)] ab
    by (rule ok_tokens [OF ok order_refl])
      (use fam row ok_access_rows [OF ok] ok_refresh_rows [OF ok] in \<open>auto split: if_splits\<close>)
qed

lemma revoke_row_sys:
  assumes "sys_inv U w"
  shows "sys_inv U (revoke_row R E r row w)"
proof (rule sys_step [OF assms])
  note ok = sys_invD(2) [OF assms] and inv = sys_invD(1) [OF assms]
  note s = revoke_row_inv(2) [OF inv, of E r row]
  note eqs = same_but_auditsD [OF s]
  show "inv (w_store (revoke_row R E r row w))" by (rule revoke_row_inv(1) [OF inv])
  show "w_pending (revoke_row R E r row w) = w_pending w" by simp
  show "grows (abs (w_store w)) (abs (w_store (revoke_row R E r row w)))" by (simp add: grows_def eqs)
  have fam: "families_ok U (w_ids w) (av_refresh (abs (w_store (revoke_row R E r row w))))"
    using families_revoked ok by (simp add: eqs astore_ok_def)
  have rf: "av_users (abs (w_store w)) (rtUserID t) \<noteq> None \<and> av_clients (abs (w_store w)) (rtClientID t) \<noteq> None"
    if found: "av_refresh (abs (w_store (revoke_row R E r row w))) h = Some t" for h t
  proof -
    obtain t0 where t0: "av_refresh (abs (w_store w)) h = Some t0"
      and t: "(if rtFamilyID t0 = rtFamilyID row then t0\<lparr>rtRevoked := True\<rparr> else t0) = t"
      using found unfolding revoke_row_refresh [OF inv] map_option_eq_Some by blast
    have "rtUserID t = rtUserID t0 \<and> rtClientID t = rtClientID t0"
      using t by (cases "rtFamilyID t0 = rtFamilyID row") auto
    with ok_refresh_rows [OF ok t0] show ?thesis by simp
  qed
  show "astore_ok U (w_ids (revoke_row R E r row w)) (abs (w_store (revoke_row R E r row w)))"
    by (rule ok_tokens [OF ok _ families_mono [OF fam] _ rf]) (use ok_access_rows [OF ok] in \<open>simp_all add: eqs\<close>)
qed

lemma world_families_sys: "sys_inv U w \<Longrightarrow> ids_ok U E \<Longrightarrow> world_families E w"
  using sys_invD(2) by (simp add: astore_ok_def ids_ok_def)

lemma tokenAuthCode_sys:
  assumes w: "sys_inv U w" and E: "ids_ok U E"
  shows "sys_inv U (snd (tokenAuthCode R E r w))"
proof -
  obtain rs w' where res: "tokenAuthCode R E r w = (rs, w')" by fastforce
  have fam: "families_ok U (w_ids w') (av_refresh (abs (w_store w')))"
    using tokenAuthCode_families [OF sys_invD(1) [OF w] world_families_sys [OF w E], of r] E res by (simp add: ids_ok_def)
  have "sys_inv U w'"
    using tokenAuthCode_cases [OF sys_invD(1) [OF w] res]
  proof (elim disjE conjE exE)
    fix c row w1
    assume c: "authenticateClient R E r (w_store w) = Some c" and ok: "code_error E r c row = None"
      and taken: "code_taken (HashToken (FormValue r ''code'')) row w w1"
      and wtr: "writeTokenResponse R E r c (acUserID row) (acScopes row) (acNonce row)
        (''offline_access'' \<in> set (acScopes row)) [] (acSessionSID row) w1 = (rs, w')"
    note w1 = code_taken_sys [OF taken w]
    obtain acc ref where ch: "token_change E c (acUserID row) (acScopes row) [] (acSessionSID row) w1 acc ref w'"
      using writeTokenResponse_change [OF sys_invD(1) [OF w1] wtr] by blast
    have rows: "av_users (abs (w_store w)) (acUserID row) \<noteq> None"
      using ok_code_rows [OF sys_invD(2) [OF w] code_takenD(4) [OF taken]] by simp
    have same: "av_users (abs (w_store w1)) = av_users (abs (w_store w))"
      "av_clients (abs (w_store w1)) = av_clients (abs (w_store w))"
      using taken by (simp_all add: code_taken_def)
    show ?thesis
      by (rule token_change_sys [OF ch w1 _ _ fam])
        (use rows same authenticateClient_ok [OF sys_invD(1) [OF w] c] in simp_all)
  qed (use w code_taken_sys in blast)+
  with res show ?thesis by simp
qed

lemma tokenRefresh_sys:
  assumes w: "sys_inv U w" and E: "ids_ok U E"
  shows "sys_inv U (snd (tokenRefresh R E r w))"
proof -
  obtain rs w' where res: "tokenRefresh R E r w = (rs, w')" by fastforce
  have fam: "families_ok U (w_ids w') (av_refresh (abs (w_store w')))"
    using tokenRefresh_families [OF sys_invD(1) [OF w] world_families_sys [OF w E], of r] E res by (simp add: ids_ok_def)
  have "sys_inv U w'"
    using tokenRefresh_cases [OF sys_invD(1) [OF w] res]
  proof (elim disjE conjE exE)
    fix c row w1
    assume c: "authenticateClient R E r (w_store w) = Some c"
      and taken: "refresh_taken (HashToken (FormValue r ''refresh_token'')) row w w1"
      and wtr: "writeTokenResponse R E r c (rtUserID row) (rtScopes row) [] True (rtFamilyID row)
         (rtSessionSID row) w1 = (rs, w')"
    note w1 = refresh_taken_sys [OF taken w]
    obtain acc ref where ch: "token_change E c (rtUserID row) (rtScopes row) (rtFamilyID row) (rtSessionSID row) w1 acc ref w'"
      using writeTokenResponse_change [OF sys_invD(1) [OF w1] wtr] by blast
    have same: "av_users (abs (w_store w1)) = av_users (abs (w_store w))"
      "av_clients (abs (w_store w1)) = av_clients (abs (w_store w))"
      using taken by (simp_all add: refresh_taken_def)
    show ?thesis
      by (rule token_change_sys [OF ch w1 _ _ fam])
        (use same ok_refresh_rows [OF sys_invD(2) [OF w] refresh_takenD(4) [OF taken]]
          authenticateClient_ok [OF sys_invD(1) [OF w] c] in simp_all)
  qed (use w refresh_taken_sys revoke_row_sys in blast)+
  with res show ?thesis by simp
qed

lemma handleToken_sys: "sys_inv U w \<Longrightarrow> ids_ok U E \<Longrightarrow> sys_inv U (snd (handleToken R E r w))"
  by (simp add: handleToken_def Let_def tokenAuthCode_sys tokenRefresh_sys)

lemma handleUserInfo_world: "snd (handleUserInfo R E r w) = w"
  by (simp add: handleUserInfo_def Let_def split: sum.split)

end

end
