(* ===== verification/TokenProps.thy ===== *)
theory TokenProps
  imports WebToken
begin

section \<open>Properties of the token endpoint\<close>

text \<open>
  What the handlers of \<open>WebToken\<close> guarantee on the memory store: a code is redeemed once and
  only by the party it was issued to, refresh tokens rotate and their reuse revokes the
  family, and an issued access token opens \<open>/userinfo\<close> until it expires.
\<close>

lemma mem_abs_sel [simp]:
  "av_users (mem_abs s) = gget (st_users s)" "av_sessions (mem_abs s) = gget (st_sessions s)"
  "av_clients (mem_abs s) = gget (st_clients s)" "av_codes (mem_abs s) = gget (st_codes s)"
  "av_refresh (mem_abs s) = gget (st_refresh s)" "av_access (mem_abs s) = gget (st_access s)"
  "av_audits (mem_abs s) = st_audits s" "av_orgs (mem_abs s) = gget (st_orgs s)"
  by (simp_all add: mem_abs_def)

subsection \<open>Authorization codes\<close>

lemma code_grant_parts:
  assumes "mem_inv (w_store w)" and "handleToken (mem_repos it) E r w = (rs, w')"
    and "FormValue r ''grant_type'' = ''authorization_code''" and "rs_status rs = 200"
  shows "\<exists>c row t idt. authenticateClient (mem_repos it) E r (w_store w) = Some c
    \<and> gget (st_codes (w_store w)) (HashToken (FormValue r ''code'')) = Some row
    \<and> \<not> acUsed row \<and> Now E < acExpiresAt row \<and> acClientID row = cID c
    \<and> acRedirectURI row = FormValue r ''redirect_uri''
    \<and> 43 \<le> length (FormValue r ''code_verifier'') \<and> length (FormValue r ''code_verifier'') \<le> 128
    \<and> acCodeChallenge row = HashToken (FormValue r ''code_verifier'')
    \<and> gget (st_codes (w_store w')) (HashToken (FormValue r ''code'')) = Some (row\<lparr>acUsed := True\<rparr>)
    \<and> token_at E (w_draws w) = Some t
    \<and> gget (st_access (w_store w')) (HashToken t) =
        Some (access_row E c (acUserID row) (acScopes row) (acSessionSID row) t)
    \<and> rs_body rs = JsonBody (token_json E t idt (acScopes row)
        (if ''offline_access'' \<in> set (acScopes row) then token_at E (Suc (w_draws w)) else None))
    \<and> gget (st_users (w_store w')) (acUserID row) \<noteq> None
    \<and> gget (st_users (w_store w')) = gget (st_users (w_store w))"
proof -
  have res: "tokenAuthCode (mem_repos it) E r w = (rs, w')"
    using assms(2-4) by (auto simp: handleToken_def Let_def split: if_splits)
  obtain c row w1 where auth: "authenticateClient (mem_repos it) E r (w_store w) = Some c"
    and taken: "mem.code_taken (HashToken (FormValue r ''code'')) row w w1"
    and ok: "code_error E r c row = None"
    and wtr: "writeTokenResponse (mem_repos it) E r c (acUserID row) (acScopes row) (acNonce row)
      (''offline_access'' \<in> set (acScopes row)) [] (acSessionSID row) w1 = (rs, w')"
    using mem.tokenAuthCode_cases [OF assms(1) res] assms(4) by auto
  note w1 = mem.code_takenD [OF taken]
  obtain t idt ref where t: "token_at E (w_draws w1) = Some t"
    and bd: "rs_body rs = JsonBody (token_json E t idt (acScopes row)
      (if ''offline_access'' \<in> set (acScopes row) then token_at E (Suc (w_draws w1)) else None))"
    and usr: "gget (st_users (w_store w1)) (acUserID row) \<noteq> None"
    and ch: "mem.token_change E c (acUserID row) (acScopes row) [] (acSessionSID row) w1 (Some t) ref w'"
    using mem.writeTokenResponse_cases [OF w1(1) wtr] assms(4) by (fastforce split: if_splits)
  show ?thesis
    using auth ok t bd w1(2,4-6) w1(8) usr mem.token_changeD(2-4) [OF ch]
    by (intro exI [of _ c] exI [of _ row] exI [of _ t] exI [of _ idt])
      (auto simp: code_error_def VerifyS256_ok split: if_splits)
qed

text \<open>
  C1. When the token endpoint answers an authorization-code request with success, the client
  proved its identity, the presented code was stored under its digest, unused and not expired,
  issued to that client for the same redirect URI, and the code verifier has 43 to 128 bytes
  and digests to the stored challenge. Then the code is marked used, an access token row with
  the user, scopes and session of the code is stored under the digest of the token in the
  response, and a refresh token is handed out exactly when \<open>offline_access\<close> was granted.
\<close>

theorem code_grant_sound:
  assumes "mem_inv (w_store w)" and "handleToken (mem_repos it) E r w = (rs, w')"
    and "FormValue r ''grant_type'' = ''authorization_code''" and "rs_status rs = 200"
  shows "\<exists>c row t idt. authenticateClient (mem_repos it) E r (w_store w) = Some c
    \<and> gget (st_codes (w_store w)) (HashToken (FormValue r ''code'')) = Some row
    \<and> \<not> acUsed row \<and> Now E < acExpiresAt row \<and> acClientID row = cID c
    \<and> acRedirectURI row = FormValue r ''redirect_uri''
    \<and> 43 \<le> length (FormValue r ''code_verifier'') \<and> length (FormValue r ''code_verifier'') \<le> 128
    \<and> acCodeChallenge row = HashToken (FormValue r ''code_verifier'')
    \<and> gget (st_codes (w_store w')) (HashToken (FormValue r ''code'')) = Some (row\<lparr>acUsed := True\<rparr>)
    \<and> token_at E (w_draws w) = Some t
    \<and> gget (st_access (w_store w')) (HashToken t) =
        Some (access_row E c (acUserID row) (acScopes row) (acSessionSID row) t)
    \<and> rs_body rs = JsonBody (token_json E t idt (acScopes row)
        (if ''offline_access'' \<in> set (acScopes row) then token_at E (Suc (w_draws w)) else None))"
  using code_grant_parts [OF assms] by blast

text \<open>
  C2. In any sequence of requests to the token endpoint, at any times, an authorization code is
  redeemed successfully at most once.
\<close>

theorem code_redeemed_once:
  assumes "mem_inv (w_store w)"
  shows "length (filter (\<lambda>((E, r), rs). FormValue r ''grant_type'' = ''authorization_code'' \<and>
      FormValue r ''code'' = code \<and> rs_status rs = 200)
    (run (\<lambda>(E, r). handleToken (mem_repos it) E r) rqs w)) \<le> 1"
  by (rule run_once [where I = "\<lambda>w. mem_inv (w_store w)" and S = "mem.code_spent (HashToken code)"])
    (use assms mem.handleToken_inv mem.handleToken_spent mem.handleToken_code_200 in \<open>auto split: prod.splits\<close>)

subsection \<open>Refresh tokens\<close>

text \<open>
  C10. Rotation keeps each family of refresh tokens to at most one that is not revoked: through any
  sequence of requests to the token endpoint the invariant \<open>families_ok\<close> is preserved (and with
  it the store's own invariant). Documented behaviour used: \<open>ulid.Make\<close> never repeats.
\<close>

theorem rotation_keeps_families:
  fixes w :: "store world"
  assumes "mem_inv (w_store w)" and "families_ok U (w_ids w) (gget (st_refresh (w_store w)))"
    and "inj U" and "\<forall>(E, r) \<in> set rqs. ULID E = U"
  shows "mem_inv (w_store (final (\<lambda>(E, r). handleToken (mem_repos it) E r) rqs w))
    \<and> families_ok U (w_ids (final (\<lambda>(E, r). handleToken (mem_repos it) E r) rqs w))
        (gget (st_refresh (w_store (final (\<lambda>(E, r). handleToken (mem_repos it) E r) rqs w))))"
proof (rule final_invariant [where I = "\<lambda>w. mem_inv (w_store w) \<and> families_ok U (w_ids w) (gget (st_refresh (w_store w)))"])
  fix q and w :: "store world"
  assume q: "q \<in> set rqs" and i: "mem_inv (w_store w) \<and> families_ok U (w_ids w) (gget (st_refresh (w_store w)))"
  obtain E r where "q = (E, r)" "ULID E = U" using q assms(4) by (cases q) auto
  then show "mem_inv (w_store (snd ((case q of (E, r) \<Rightarrow> handleToken (mem_repos it) E r) w))) \<and>
      families_ok U (w_ids (snd ((case q of (E, r) \<Rightarrow> handleToken (mem_repos it) E r) w)))
        (gget (st_refresh (w_store (snd ((case q of (E, r) \<Rightarrow> handleToken (mem_repos it) E r) w)))))"
    using mem.handleToken_inv [of w it E r] mem.handleToken_families [of w E it r] i assms(3) by simp
qed (use assms in simp)

lemma handleToken_refresh:
  "FormValue r ''grant_type'' = ''refresh_token'' \<Longrightarrow> r_form_ok r \<Longrightarrow>
    handleToken R E r w = tokenRefresh R E r w"
  by (simp add: handleToken_def)

lemma mem_audit_eq:
  "audit (mem_repos it) E r t sub c n w = w\<lparr>w_ids := Suc (w_ids w),
    w_store := (w_store w)\<lparr>st_audits := st_audits (w_store w) @
      [\<lparr>aeID = ULID E (w_ids w), aeType = t, aeAt = Now E, aeSubject = sub, aeClientID = c,
        aeIP = requestIP r, aeNote = n\<rparr>]\<rparr>\<rparr>"
  by (simp add: audit_def id_New_def mem_AppendAudit_def)

text \<open>
  C11. Presenting a refresh token that was already exchanged or revoked is refused with
  \<open>invalid_grant\<close>, revokes every token of its family, issues nothing, and leaves an audit event
  that names the user, the client and the family.
\<close>

theorem refresh_reuse_revokes:
  assumes "mem_inv (w_store w)" and "r_form_ok r" and "FormValue r ''grant_type'' = ''refresh_token''"
    and "authenticateClient (mem_repos it) E r (w_store w) \<noteq> None"
    and "gget (st_refresh (w_store w)) (HashToken (FormValue r ''refresh_token'')) = Some row"
    and "rtRevoked row" and "handleToken (mem_repos it) E r w = (rs, w')"
  shows "rs_status rs = 400 \<and> rs_body rs = TextBody (error_json ''invalid_grant'' ''refresh token invalid'')
    \<and> family_dead (rtFamilyID row) (gget (st_refresh (w_store w')))
    \<and> st_access (w_store w') = st_access (w_store w) \<and> gkeys (st_refresh (w_store w')) = gkeys (st_refresh (w_store w))
    \<and> st_audits (w_store w') = st_audits (w_store w) @
        [\<lparr>aeID = ULID E (w_ids w), aeType = AuditRevoke, aeAt = Now E, aeSubject = rtUserID row,
          aeClientID = rtClientID row, aeIP = requestIP r, aeNote = rtFamilyID row\<rparr>]"
proof -
  obtain c where c: "authenticateClient (mem_repos it) E r (w_store w) = Some c" using assms(4) by auto
  have "TakeRefresh (RefreshTokens (mem_repos it)) (HashToken (FormValue r ''refresh_token'')) (w_store w) = (Inl ErrUsed, w_store w)"
    using mem_refresh.take_refresh_used [of "w_store w"] assms(5,6) by simp
  then have "tokenRefresh (mem_repos it) E r w =
      (clientError 400 ''invalid_grant'' ''refresh token invalid'' new_response, revoke_row (mem_repos it) E r row w)"
    using c assms(5) by (simp add: tokenRefresh_def on_store_def mem_GetRefresh_def)
  then have res: "rs = clientError 400 ''invalid_grant'' ''refresh token invalid'' new_response"
    "w' = revoke_row (mem_repos it) E r row w"
    using assms(2,3,7) by (auto simp: handleToken_refresh)
  have "family_dead (rtFamilyID row) (gget (st_refresh (w_store w')))"
    using mem.revoke_row_refresh [OF assms(1), of it E r row] by (simp add: res(2) family_dead_revoked)
  then show ?thesis
    by (simp add: res(1)) (simp add: res(2) revoke_row_def mem_audit_eq mem_RevokeFamily_def split_beta)
qed

text \<open>
  C12. When the token endpoint answers a refresh request with success, the client proved its
  identity and the presented token was stored, not revoked, not expired and issued to that
  client. It is then revoked, and exactly one row is added: a live token of the same family, user,
  scopes and session, stored under the digest of the refresh token in the response.
\<close>

theorem refresh_grant_sound:
  assumes "mem_inv (w_store w)" and "handleToken (mem_repos it) E r w = (rs, w')"
    and "FormValue r ''grant_type'' = ''refresh_token''" and "rs_status rs = 200"
  shows "\<exists>c row t t2 idt. authenticateClient (mem_repos it) E r (w_store w) = Some c
    \<and> gget (st_refresh (w_store w)) (HashToken (FormValue r ''refresh_token'')) = Some row
    \<and> \<not> rtRevoked row \<and> Now E < rtExpiresAt row \<and> rtClientID row = cID c
    \<and> token_at E (w_draws w) = Some t \<and> token_at E (Suc (w_draws w)) = Some t2
    \<and> gget (st_refresh (w_store w')) = (gget (st_refresh (w_store w)))
        (HashToken (FormValue r ''refresh_token'') \<mapsto> row\<lparr>rtRevoked := True\<rparr>,
         HashToken t2 \<mapsto> refresh_row E c (rtUserID row) (rtScopes row)
           (family_at E (rtFamilyID row) w) (rtSessionSID row) t2)
    \<and> rs_body rs = JsonBody (token_json E t idt (rtScopes row) (Some t2))"
proof -
  let ?h = "HashToken (FormValue r ''refresh_token'')"
  have res: "tokenRefresh (mem_repos it) E r w = (rs, w')"
    using assms(2-4) by (auto simp: handleToken_def Let_def split: if_splits)
  obtain c row w1 where auth: "authenticateClient (mem_repos it) E r (w_store w) = Some c"
    and taken: "mem.refresh_taken ?h row w w1" and ok: "Now E < rtExpiresAt row" "rtClientID row = cID c"
    and wtr: "writeTokenResponse (mem_repos it) E r c (rtUserID row) (rtScopes row) [] True (rtFamilyID row)
         (rtSessionSID row) w1 = (rs, w')"
    using mem.tokenRefresh_cases [OF assms(1) res] assms(4) by auto
  note w1 = mem.refresh_takenD [OF taken]
  obtain t idt t2 where t: "token_at E (w_draws w1) = Some t" "token_at E (Suc (w_draws w1)) = Some t2"
    and bd: "rs_body rs = JsonBody (token_json E t idt (rtScopes row) (Some t2))"
    and ch: "mem.token_change E c (rtUserID row) (rtScopes row) (rtFamilyID row) (rtSessionSID row) w1 (Some t) (Some t2) w'"
    using mem.writeTokenResponse_cases [OF w1(1) wtr] assms(4) by auto
  have "family_at E (rtFamilyID row) w1 = family_at E (rtFamilyID row) w"
    by (simp add: family_at_def w1(3))
  then show ?thesis
    using auth ok t bd w1(2,4-6) mem.token_changeD(5) [OF ch]
    by (intro exI [of _ c] exI [of _ row] exI [of _ t] exI [of _ t2] exI [of _ idt]) auto
qed

subsection \<open>Access tokens\<close>

lemma bearer_token:
  assumes "rand_fills E" and "token_at E k = Some t" and "r_authorization r = ''Bearer '' @ t"
  shows "bearer r = t"
proof -
  have len: "length t = 43" using token_length [OF assms(1,2)] .
  obtain b where b: "t = RawURLEncode b" using assms(2) by (auto simp: token_at_def)
  then have vis: "visible c" if "c \<in> set t" for c using RawURLEncode_visible that by blast
  have "t \<noteq> []" using len by auto
  then have "TrimSpace t = t" using vis by (intro TrimSpace_visible) auto
  moreover have "EqualFold ''Bearer '' ''bearer ''" by code_simp
  ultimately show ?thesis using len assms(3) by (simp add: bearer_def Let_def)
qed

text \<open>What the claims of \<open>/userinfo\<close> say, by the scopes of the token.\<close>

lemma userinfo_claims_of:
  "map_of (userinfo_claims R u tok s) ''sub'' = Some (JStr (uID u))"
  "map_of (userinfo_claims R u tok s) ''email'' = (if ''email'' \<in> set (atScopes tok) then Some (JStr (uEmail u)) else None)"
  "map_of (userinfo_claims R u tok s) ''name'' = (if ''profile'' \<in> set (atScopes tok) then Some (JStr (uName u)) else None)"
  by (auto simp: userinfo_claims_def appendOrgClaims_def map_add_def split: sum.split option.split)

text \<open>
  C13. The access token of a successful response to an authorization-code request opens \<open>/userinfo\<close> as
  long as it has not expired: the answer is the claims of the very account that the stored code was
  issued to, its identifier always, its address and its name exactly under the scopes of the code;
  from the expiry on the token is refused. Documented behaviour used: \<open>crypto/rand\<close> fills the slice it is
  given.
\<close>

theorem access_token_opens_userinfo:
  assumes "mem_inv (w_store w)" and "handleToken (mem_repos it) E r w = (rs, w')"
    and "FormValue r ''grant_type'' = ''authorization_code''" and "rs_status rs = 200" and "rand_fills E"
  shows "\<exists>c row u t idt ref claims. authenticateClient (mem_repos it) E r (w_store w) = Some c
    \<and> gget (st_codes (w_store w)) (HashToken (FormValue r ''code'')) = Some row
    \<and> gget (st_users (w_store w)) (acUserID row) = Some u \<and> uID u = acUserID row
    \<and> rs_body rs = JsonBody (token_json E t idt (acScopes row) ref)
    \<and> claims = userinfo_claims (mem_repos it) u (access_row E c (acUserID row) (acScopes row) (acSessionSID row) t) (w_store w')
    \<and> map_of claims ''sub'' = Some (JStr (acUserID row))
    \<and> map_of claims ''email'' = (if ''email'' \<in> set (acScopes row) then Some (JStr (uEmail u)) else None)
    \<and> map_of claims ''name'' = (if ''profile'' \<in> set (acScopes row) then Some (JStr (uName u)) else None)
    \<and> (\<forall>E' r'. r_authorization r' = ''Bearer '' @ t \<longrightarrow>
        handleUserInfo (mem_repos it) E' r' w' =
          (if Now E' < Now E + AccessTTL (Cfg E) then write_json (json_map claims) new_response
           else clientError 401 ''invalid_token'' ''access token invalid'' new_response, w'))"
proof -
  obtain c row t idt where auth: "authenticateClient (mem_repos it) E r (w_store w) = Some c"
    and code: "gget (st_codes (w_store w)) (HashToken (FormValue r ''code'')) = Some row"
    and t: "token_at E (w_draws w) = Some t"
    and acc: "gget (st_access (w_store w')) (HashToken t) =
        Some (access_row E c (acUserID row) (acScopes row) (acSessionSID row) t)"
    and bd: "rs_body rs = JsonBody (token_json E t idt (acScopes row)
        (if ''offline_access'' \<in> set (acScopes row) then token_at E (Suc (w_draws w)) else None))"
    and usr: "gget (st_users (w_store w')) (acUserID row) \<noteq> None"
      "gget (st_users (w_store w')) = gget (st_users (w_store w))"
    using code_grant_parts [OF assms(1-4)] by blast
  obtain u where u: "gget (st_users (w_store w')) (acUserID row) = Some u"
    "gget (st_users (w_store w)) (acUserID row) = Some u" using usr by auto
  have key: "uID u = acUserID row" using mem_users.user_key [OF assms(1)] u(2) by simp
  have ne: "t \<noteq> []" using token_length [OF assms(5) t] by auto
  let ?tok = "access_row E c (acUserID row) (acScopes row) (acSessionSID row) t"
  have opens: "handleUserInfo (mem_repos it) E' r' w' =
      (if Now E' < Now E + AccessTTL (Cfg E)
       then write_json (json_map (userinfo_claims (mem_repos it) u ?tok (w_store w'))) new_response
       else clientError 401 ''invalid_token'' ''access token invalid'' new_response, w')"
    if "r_authorization r' = ''Bearer '' @ t" for E' r'
    using bearer_token [OF assms(5) t that] ne acc u(1)
    by (simp add: handleUserInfo_def mem_GetAccess_def mem_GetByID_def access_row_def)
  have claims: "map_of (userinfo_claims (mem_repos it) u ?tok (w_store w')) ''sub'' = Some (JStr (acUserID row))"
    "map_of (userinfo_claims (mem_repos it) u ?tok (w_store w')) ''email'' =
      (if ''email'' \<in> set (acScopes row) then Some (JStr (uEmail u)) else None)"
    "map_of (userinfo_claims (mem_repos it) u ?tok (w_store w')) ''name'' =
      (if ''profile'' \<in> set (acScopes row) then Some (JStr (uName u)) else None)"
    using key by (simp_all only: userinfo_claims_of access_row_def access_token.simps)
  show ?thesis
    by (intro exI conjI allI impI) (rule auth code u(2) key bd refl claims | erule opens)+
qed

subsection \<open>ID tokens\<close>

lemma oidcIDToken_sel:
  "itIssuer (oidcIDToken R E u aud nonce sid scopes s) = Issuer (Cfg E)"
  "itSubject (oidcIDToken R E u aud nonce sid scopes s) = uID u"
  "itAudience (oidcIDToken R E u aud nonce sid scopes s) = aud"
  by (simp_all add: oidcIDToken_def Let_def split: sum.split)

text \<open>The ID token of a successful response is signed for the account of the code and for the client.\<close>

lemma code_grant_id_token:
  assumes "mem_inv (w_store w)" and "handleToken (mem_repos it) E r w = (rs, w')"
    and "FormValue r ''grant_type'' = ''authorization_code''" and "rs_status rs = 200"
  shows "\<exists>c row t idt ref inp. authenticateClient (mem_repos it) E r (w_store w) = Some c
    \<and> gget (st_codes (w_store w)) (HashToken (FormValue r ''code'')) = Some row
    \<and> rs_body rs = JsonBody (token_json E t idt (acScopes row) ref) \<and> SignIDToken E inp = Inr idt
    \<and> itIssuer inp = Issuer (Cfg E) \<and> itSubject inp = acUserID row \<and> itAudience inp = cID c"
proof -
  have res: "tokenAuthCode (mem_repos it) E r w = (rs, w')"
    using assms(2-4) by (auto simp: handleToken_def Let_def split: if_splits)
  obtain c row w1 where auth: "authenticateClient (mem_repos it) E r (w_store w) = Some c"
    and taken: "mem.code_taken (HashToken (FormValue r ''code'')) row w w1"
    and wtr: "writeTokenResponse (mem_repos it) E r c (acUserID row) (acScopes row) (acNonce row)
      (''offline_access'' \<in> set (acScopes row)) [] (acSessionSID row) w1 = (rs, w')"
    using mem.tokenAuthCode_cases [OF assms(1) res] assms(4) by auto
  note w1 = mem.code_takenD [OF taken]
  from wtr assms(4) obtain u t idt ref s where "gget (st_users (w_store w1)) (acUserID row) = Some u"
    and bd: "rs_body rs = JsonBody (token_json E t idt (acScopes row) ref)"
    and sign: "SignIDToken E (oidcIDToken (mem_repos it) E u (cID c) (acNonce row) (acSessionSID row) (acScopes row) s) = Inr idt"
    unfolding mem.writeTokenResponse_eq [OF w1(1)]
    by (auto simp: server_error_def token_ok_def Let_def split: option.splits sum.splits if_splits)
  then have "uID u = acUserID row" using mem_users.user_key [OF w1(1)] by simp
  then show ?thesis using auth w1(4) bd sign oidcIDToken_sel by (metis mem_abs_sel(4))
qed

subsection \<open>Witnesses\<close>

definition sample_verifier :: string where
  "sample_verifier = replicate 43 CHR ''v''"

definition sample_code :: auth_code where
  "sample_code = \<lparr>acHash = HashToken ''code'', acClientID = ''rp'', acUserID = ''u1'',
     acRedirectURI = ''https://rp/cb'', acScopes = [''offline_access'', ''openid''], acNonce = [],
     acCodeChallenge = HashToken sample_verifier, acSessionSID = [], acExpiresAt = 1060 * second,
     acUsed = False\<rparr>"

definition sample_refresh :: "bool \<Rightarrow> refresh_token" where
  "sample_refresh revoked = \<lparr>rtHash = HashToken ''ref'', rtFamilyID = dec 0, rtClientID = ''rp'', rtUserID = ''u1'',
     rtScopes = [''openid''], rtSessionSID = [], rtExpiresAt = 2000 * second, rtRevoked = revoked\<rparr>"

definition token_world :: "bool \<Rightarrow> store world" where
  "token_world revoked = sample_world\<lparr>w_ids := 1, w_store := sample_store\<lparr>
     st_codes := [(HashToken ''code'', sample_code)],
     st_refresh := [(HashToken ''ref'', sample_refresh revoked)]\<rparr>\<rparr>"

definition code_request :: request where
  "code_request = blank_request\<lparr>r_form := [(''grant_type'', [''authorization_code'']), (''client_id'', [''rp'']),
     (''code'', [''code'']), (''redirect_uri'', [''https://rp/cb'']), (''code_verifier'', [sample_verifier])]\<rparr>"

definition refresh_request :: request where
  "refresh_request = blank_request\<lparr>r_form := [(''grant_type'', [''refresh_token'']), (''client_id'', [''rp'']),
     (''refresh_token'', [''ref''])]\<rparr>"

lemma token_world_inv: "mem_inv (w_store (token_world b))"
  using sample_inv by (simp add: token_world_def mem_inv_def)

lemma code_request_form [simp]:
  "r_basic code_request = None" "r_form_ok code_request"
  "FormValue code_request ''grant_type'' = ''authorization_code''" "FormValue code_request ''client_id'' = ''rp''"
  "FormValue code_request ''client_secret'' = []" "FormValue code_request ''code'' = ''code''"
  "FormValue code_request ''redirect_uri'' = ''https://rp/cb''"
  "FormValue code_request ''code_verifier'' = sample_verifier"
  by (simp_all add: code_request_def blank_request_def FormValue_def values_get_def)

lemma refresh_request_form [simp]:
  "r_basic refresh_request = None" "r_form_ok refresh_request"
  "FormValue refresh_request ''grant_type'' = ''refresh_token''" "FormValue refresh_request ''client_id'' = ''rp''"
  "FormValue refresh_request ''client_secret'' = []" "FormValue refresh_request ''refresh_token'' = ''ref''"
  by (simp_all add: refresh_request_def blank_request_def FormValue_def values_get_def)

lemma sample_sign [simp]: "SignIDToken sample_env inp = Inr ''jwt''"
  by (simp add: SignIDToken_def sample_env_def)

lemma code_request_ok: "rs_status (fst (handleToken (mem_repos it) sample_env code_request (token_world b))) = 200"
proof -
  have "VerifyS256 sample_verifier (HashToken sample_verifier) = Inr ()"
    by (simp add: VerifyS256_ok sample_verifier_def)
  then show ?thesis
    by (simp add: handleToken_def tokenAuthCode_def authenticateClient_def mem_ops token_world_def sample_client_def
        on_store_def sample_code_def code_error_def writeTokenResponse_def issueAccess_def issueRefresh_def
        random_Token_eq token_ok_def Let_def sample_store_def id_New_def)
qed

lemma refresh_request_ok: "rs_status (fst (handleToken (mem_repos it) sample_env refresh_request (token_world False))) = 200"
  by (simp add: handleToken_def tokenRefresh_def authenticateClient_def mem_ops token_world_def sample_client_def
      on_store_def sample_refresh_def writeTokenResponse_def issueAccess_def issueRefresh_def
      random_Token_eq token_ok_def Let_def sample_store_def id_New_def)

theorem code_grant_sound_witness:
  "\<exists>rs w'. handleToken (mem_repos (\<lambda>ks. ks)) sample_env code_request (token_world False) = (rs, w')
    \<and> gget (st_codes (w_store w')) (HashToken ''code'') = Some (sample_code\<lparr>acUsed := True\<rparr>)"
proof -
  obtain rs w' where res: "handleToken (mem_repos (\<lambda>ks. ks)) sample_env code_request (token_world False) = (rs, w')"
    by fastforce
  then have "rs_status rs = 200" using code_request_ok [of "\<lambda>ks. ks" False] by simp
  from code_grant_sound [OF token_world_inv res _ this] res show ?thesis
    by (auto simp: token_world_def)
qed

theorem code_redeemed_once_witness:
  "length (filter (\<lambda>((E, r), rs). FormValue r ''grant_type'' = ''authorization_code'' \<and>
      FormValue r ''code'' = ''code'' \<and> rs_status rs = 200)
    (run (\<lambda>(E, r). handleToken (mem_repos (\<lambda>ks. ks)) E r)
      [(sample_env, code_request), (sample_env, code_request)] (token_world False))) = 1"
  using code_redeemed_once [OF token_world_inv [of False], where code = "''code''" and it = "\<lambda>ks. ks"
      and rqs = "[(sample_env, code_request), (sample_env, code_request)]"]
    code_request_ok [of "\<lambda>ks. ks" False]
  by (simp add: le_Suc_eq)

lemma token_world_families:
  "families_ok dec (w_ids (token_world b)) (gget (st_refresh (w_store (token_world b))))"
  by (simp add: families_ok_def token_world_def sample_refresh_def)

theorem rotation_keeps_families_witness:
  "families_ok dec (w_ids (final (\<lambda>(E, r). handleToken (mem_repos (\<lambda>ks. ks)) E r)
      [(sample_env, refresh_request), (sample_env, code_request)] (token_world False)))
    (gget (st_refresh (w_store (final (\<lambda>(E, r). handleToken (mem_repos (\<lambda>ks. ks)) E r)
      [(sample_env, refresh_request), (sample_env, code_request)] (token_world False)))))"
  using rotation_keeps_families [OF token_world_inv [of False] token_world_families inj_dec,
      where rqs = "[(sample_env, refresh_request), (sample_env, code_request)]" and it = "\<lambda>ks. ks"]
  by (simp del: final.simps)

theorem refresh_reuse_revokes_witness:
  "rs_status (fst (handleToken (mem_repos (\<lambda>ks. ks)) sample_env refresh_request (token_world True))) = 400"
proof -
  obtain rs w' where res: "handleToken (mem_repos (\<lambda>ks. ks)) sample_env refresh_request (token_world True) = (rs, w')"
    by fastforce
  have "authenticateClient (mem_repos (\<lambda>ks. ks)) sample_env refresh_request (w_store (token_world True)) \<noteq> None"
    by (simp add: authenticateClient_def mem_ops token_world_def sample_client_def sample_store_def)
  from refresh_reuse_revokes [OF token_world_inv _ _ this _ _ res, of "sample_refresh True"] res
  show ?thesis by (simp add: token_world_def) (simp add: sample_refresh_def)
qed

theorem refresh_grant_sound_witness:
  "\<exists>rs w' t2. handleToken (mem_repos (\<lambda>ks. ks)) sample_env refresh_request (token_world False) = (rs, w')
    \<and> gget (st_refresh (w_store w')) (HashToken t2) \<noteq> None"
proof -
  obtain rs w' where res: "handleToken (mem_repos (\<lambda>ks. ks)) sample_env refresh_request (token_world False) = (rs, w')"
    by fastforce
  then have "rs_status rs = 200" using refresh_request_ok [of "\<lambda>ks. ks"] by simp
  from refresh_grant_sound [OF token_world_inv res _ this] res show ?thesis by auto
qed

theorem access_token_opens_userinfo_witness:
  "\<exists>rs w' t. handleToken (mem_repos (\<lambda>ks. ks)) sample_env code_request (token_world False) = (rs, w')
    \<and> rs_status (fst (handleUserInfo (mem_repos (\<lambda>ks. ks)) sample_env
        (blank_request\<lparr>r_authorization := ''Bearer '' @ t\<rparr>) w')) = 200"
proof -
  obtain rs w' where res: "handleToken (mem_repos (\<lambda>ks. ks)) sample_env code_request (token_world False) = (rs, w')"
    by fastforce
  then have "rs_status rs = 200" using code_request_ok [of "\<lambda>ks. ks" False] by simp
  from access_token_opens_userinfo [OF token_world_inv res _ this] obtain t and claims :: claims where
    "\<forall>E' r'. r_authorization r' = ''Bearer '' @ t \<longrightarrow>
        handleUserInfo (mem_repos (\<lambda>ks. ks)) E' r' w' =
          (if Now E' < Now sample_env + AccessTTL (Cfg sample_env) then write_json (json_map claims) new_response
           else clientError 401 ''invalid_token'' ''access token invalid'' new_response, w')"
    by auto
  with res show ?thesis by (intro exI [of _ rs] exI [of _ w'] exI [of _ t] conjI)
    (assumption, simp add: sample_config_def)
qed

end
