(* ===== verification/AuthProps.thy ===== *)
theory AuthProps
  imports TokenInv TokenProps
begin

section \<open>Properties of the authorization endpoint\<close>

text \<open>
  Which authorizations the server grants: codes and requests that wait for consent come only from
  requests of registered clients and logged-in accounts, a consent form is answered once, and the
  code flow runs through to the tokens. The frames hold over any store that keeps the contract.
\<close>

subsection \<open>What changes\<close>

definition code_row :: "env \<Rightarrow> pending_auth \<Rightarrow> string \<Rightarrow> string \<Rightarrow> string \<Rightarrow> auth_code" where
  "code_row E p userID sid t =
    \<lparr>acHash = HashToken t, acClientID = paClientID p, acUserID = userID, acRedirectURI = paRedirectURI p,
     acScopes = paScopes p, acNonce = paNonce p, acCodeChallenge = paChallenge p, acSessionSID = sid,
     acExpiresAt = Now E + CodeTTL (Cfg E), acUsed = False\<rparr>"

definition no_new_code :: "astore \<Rightarrow> astore \<Rightarrow> bool" where
  "no_new_code a b \<longleftrightarrow> av_codes b = av_codes a \<and> av_users b = av_users a \<and> av_clients b = av_clients a"

definition granted :: "env \<Rightarrow> pending_auth \<Rightarrow> string \<Rightarrow> 's world \<Rightarrow> (string \<rightharpoonup> auth_code) \<Rightarrow> (string \<rightharpoonup> auth_code) \<Rightarrow> bool" where
  "granted E p uid w cs cs' \<longleftrightarrow>
    cs' = cs \<or> (\<exists>t sid. token_at E (w_draws w) = Some t \<and> cs' = cs(HashToken t \<mapsto> code_row E p uid sid t))"

context repos_contract
begin

lemma LookupSession_frame:
  "inv (w_store w) \<Longrightarrow> no_new_code (abs (w_store w)) (abs (w_store (snd (LookupSession (Sessions R) E c w))))
    \<and> w_pending (snd (LookupSession (Sessions R) E c w)) = w_pending w
    \<and> inv (w_store (snd (LookupSession (Sessions R) E c w)))"
  using delete_session [of "w_store w" "HashToken c"]
  by (simp add: LookupSession_eq no_new_code_def split: option.split)

lemma currentSID_frame:
  "inv (w_store w) \<Longrightarrow> no_new_code (abs (w_store w)) (abs (w_store (snd (currentSID R E r w))))
    \<and> w_pending (snd (currentSID R E r w)) = w_pending w \<and> inv (w_store (snd (currentSID R E r w)))"
  using LookupSession_frame [of w E]
  by (auto simp: currentSID_def no_new_code_def split: option.split prod.split sum.split) (metis snd_conv)+

lemma currentUser_frame:
  "inv (w_store w) \<Longrightarrow> no_new_code (abs (w_store w)) (abs (w_store (snd (currentUser R E r w))))
    \<and> w_pending (snd (currentUser R E r w)) = w_pending w \<and> inv (w_store (snd (currentUser R E r w)))"
  using LookupSession_frame [of w E]
  by (auto simp: currentUser_def no_new_code_def Lookup_snd [symmetric] split: option.split prod.split sum.split) (metis snd_conv Lookup_snd)+

text \<open>Issuing a code for \<open>p\<close>: at most one row changes, to a code bound to \<open>p\<close> and the user.\<close>

lemma issueCodeRedirect_frame:
  assumes "inv (w_store w)" and "issueCodeRedirect R E r uid p w = (rs, w')"
  shows "granted E p uid w (av_codes (abs (w_store w))) (av_codes (abs (w_store w')))"
    and "w_pending w' = w_pending w"
proof -
  have "granted E p uid w (av_codes (abs (w_store w))) (av_codes (abs (w_store w'))) \<and> w_pending w' = w_pending w"
  proof (cases "token_at E (w_draws w)")
    case None
    then show ?thesis using assms(2) by (auto simp: issueCodeRedirect_def random_Token_eq granted_def)
  next
    case (Some t)
    let ?w = "w\<lparr>w_draws := Suc (w_draws w)\<rparr>"
    obtain sid w1 where 1: "currentSID R E r ?w = (sid, w1)" by fastforce
    have w1: "av_codes (abs (w_store w1)) = av_codes (abs (w_store w))" "w_pending w1 = w_pending w" "inv (w_store w1)"
      using currentSID_frame [of ?w E r] assms(1) 1 by (simp_all add: no_new_code_def)
    let ?row = "code_row E p uid sid t"
    note pc = put_code_frame [OF w1(3), of ?row]
    have row: "av_codes (abs (snd (PutCode (AuthCodes R) ?row (w_store w1)))) = av_codes (abs (w_store w)) \<or>
        av_codes (abs (snd (PutCode (AuthCodes R) ?row (w_store w1)))) = (av_codes (abs (w_store w)))(HashToken t \<mapsto> ?row)"
    proof (cases "av_codes (abs (snd (PutCode (AuthCodes R) ?row (w_store w1)))) (HashToken t) = Some ?row")
      case True
      then show ?thesis using pc w1(1) by (intro disjI2 ext) (auto simp: code_row_def)
    next
      case False
      then show ?thesis using pc w1(1) by (intro disjI1 ext) (auto simp: code_row_def)
    qed
    have add: "av_codes (abs (snd (AddSessionClient (Sessions R) sid c s))) = av_codes (abs s)" if "inv s" for c s
      using add_client [OF that, of sid c] by (simp split: if_splits)
    have "w_pending w' = w_pending w \<and> av_codes (abs (w_store w')) = av_codes (abs (snd (PutCode (AuthCodes R) ?row (w_store w1))))"
      using assms(2) Some 1 w1(2) add pc
      by (auto simp: issueCodeRedirect_def random_Token_eq Let_def on_store_eq code_row_def split: sum.splits option.splits)
    then show ?thesis using row Some by (auto simp: granted_def)
  qed
  then show "granted E p uid w (av_codes (abs (w_store w))) (av_codes (abs (w_store w')))" and "w_pending w' = w_pending w" by auto
qed

lemma handleAuthorize_change:
  assumes "inv (w_store w)" and "handleAuthorize R E r w = (rs, w')"
    and "av_codes (abs (w_store w')) \<noteq> av_codes (abs (w_store w)) \<or> w_pending w' \<noteq> w_pending w"
  shows "\<exists>c scopes u. checkAuthorize R r (w_store w) = Inr (c, scopes) \<and> currentUser R E r w = (Some u, w) \<and>
    (if hasConsent R (uID u) (cID c) scopes (w_store w)
     then w_pending w' = w_pending w \<and>
       granted E (pending_of E r c scopes) (uID u) w (av_codes (abs (w_store w))) (av_codes (abs (w_store w')))
     else abs (w_store w') = abs (w_store w) \<and>
       (\<exists>t. token_at E (w_draws w) = Some t \<and> w_pending w' = gput t (pending_of E r c scopes) (w_pending w)))"
proof (cases "checkAuthorize R r (w_store w)")
  case (Inl rs)
  then show ?thesis using assms(2,3) by (auto simp: handleAuthorize_def)
next
  case (Inr cs)
  obtain c scopes where c: "checkAuthorize R r (w_store w) = Inr (c, scopes)" using Inr by (cases cs) auto
  obtain usr w1 where cu: "currentUser R E r w = (usr, w1)" by fastforce
  show ?thesis
  proof (cases usr)
    case None
    then show ?thesis using assms(2,3) c cu currentUser_frame [OF assms(1), of E r]
      by (auto simp: handleAuthorize_def no_new_code_def)
  next
    case (Some u)
    then have w1: "w1 = w" using currentUser_Some(1) [OF assms(1)] cu by blast
    show ?thesis
    proof (cases "hasConsent R (uID u) (cID c) scopes (w_store w)")
      case True
      then show ?thesis
        using assms(2) c cu Some w1 issueCodeRedirect_frame [OF assms(1), of E r "uID u" "pending_of E r c scopes" rs w']
        by (simp add: handleAuthorize_def)
    next
      case False
      then show ?thesis
        using assms(2,3) c cu Some w1
        by (auto simp: handleAuthorize_def Let_def random_Token_eq issueCSRF_def split: option.splits)
    qed
  qed
qed

lemma handleConsent_change:
  assumes "inv (w_store w)" and "handleConsent R E r w = (rs, w')"
    and "av_codes (abs (w_store w')) \<noteq> av_codes (abs (w_store w))"
  shows "r_form_ok r \<and> checkCSRF r \<and> FormValue r ''decision'' = ''allow'' \<and>
    (\<exists>u p. currentUser R E r w = (Some u, w) \<and> gget (w_pending w) (FormValue r ''request_id'') = Some p \<and>
      Now E < paExpiresAt p \<and> w_pending w' = gdel (FormValue r ''request_id'') (w_pending w) \<and>
      granted E p (uID u) w (av_codes (abs (w_store w))) (av_codes (abs (w_store w'))))"
proof -
  obtain usr w1 where cu: "currentUser R E r w = (usr, w1)" by fastforce
  have same: "av_codes (abs (w_store w1)) = av_codes (abs (w_store w))"
    using currentUser_frame [OF assms(1), of E r] cu by (simp add: no_new_code_def)
  have form: "r_form_ok r" "checkCSRF r" using assms(2,3) by (auto simp: handleConsent_def split: if_splits)
  obtain u where u: "usr = Some u" using assms(2,3) cu same form by (cases usr) (auto simp: handleConsent_def)
  then have w1: "w1 = w" using currentUser_Some(1) [OF assms(1)] cu by blast
  let ?id = "FormValue r ''request_id''"
  obtain p where p: "gget (w_pending w) ?id = Some p"
    using assms(2,3) cu u w1 form by (cases "gget (w_pending w) ?id") (auto simp: handleConsent_def take_pending_def)
  let ?g = "\<lparr>gUserID = uID u, gClientID = paClientID p, gScopes = paScopes p\<rparr>"
  let ?w2 = "w\<lparr>w_pending := gdel ?id (w_pending w), w_store := snd (PutConsent (Consents R) ?g (w_store w))\<rparr>"
  let ?w3 = "audit R E r AuditConsent (uID u) (paClientID p) (join '' '' (paScopes p)) ?w2"
  note pc = put_consent_frame [OF assms(1), of ?g]
  have i2: "inv (w_store ?w2)" and c2: "av_codes (abs (w_store ?w2)) = av_codes (abs (w_store w))"
    using pc by simp (cases "abs (w_store w)", cases "abs (snd (PutConsent (Consents R) ?g (w_store w)))", use pc in simp)
  have dec: "Now E < paExpiresAt p" "FormValue r ''decision'' = ''allow''" and res: "issueCodeRedirect R E r (uID u) p ?w3 = (rs, w')"
    using assms(2,3) cu u w1 p form
    by (auto simp: handleConsent_def take_pending_def Let_def on_store_eq split: if_splits)
  have "granted E p (uID u) w (av_codes (abs (w_store w))) (av_codes (abs (w_store w')))"
    and "w_pending w' = gdel ?id (w_pending w)"
    using issueCodeRedirect_frame [OF audit_inv [OF i2] res] audit_keeps [OF i2] c2 by (simp_all add: granted_def)
  with form dec cu u w1 p show ?thesis by blast
qed

text \<open>A request that waits for consent is gone once it was answered, whatever the answer.\<close>

lemma handleConsent_pending:
  assumes "inv (w_store w)" and "handleConsent R E r w = (rs, w')"
  shows "w_pending w' = w_pending w \<or> w_pending w' = gdel (FormValue r ''request_id'') (w_pending w)"
proof -
  obtain usr w1 where cu: "currentUser R E r w = (usr, w1)" by fastforce
  have w1: "w_pending w1 = w_pending w" "inv (w_store w1)" using currentUser_frame [OF assms(1), of E r] cu by simp_all
  let ?id = "FormValue r ''request_id''"
  have "w_pending (snd (issueCodeRedirect R E r uid p w2)) = w_pending w2" if "inv (w_store w2)" for uid p w2
    using issueCodeRedirect_frame(2) [OF that] by (metis prod.collapse)
  then have "w_pending (snd (issueCodeRedirect R E r uid p (audit R E r t a b n (w1\<lparr>w_pending := ps,
      w_store := snd (PutConsent (Consents R) g (w_store w1))\<rparr>)))) = ps" for uid p t a b n g ps
    using put_consent_frame [OF w1(2), of g] audit_inv by simp
  then show ?thesis using assms(2) cu w1
    by (auto simp: handleConsent_def take_pending_def Let_def on_store_eq split: if_splits option.splits) (metis snd_conv)
qed

end

subsection \<open>Properties\<close>

lemma hasConsent_mem:
  "hasConsent (mem_repos it) u c scopes st \<Longrightarrow> \<exists>g. mem_GetConsent u c st = Inr g \<and> set scopes \<subseteq> set (gScopes g)"
  by (auto simp: hasConsent_def list_all_iff split: sum.splits)

text \<open>
  C5. Whenever the authorization endpoint stores a request for consent or issues a code, the client is
  registered and the redirect URI is literally one of its own, the request is for a code with an
  S256 challenge, the scopes are the normalized ones that were asked for, and a live session cookie
  names an account that exists and is not disabled. A code is issued at once only under a stored
  consent that covers the scopes, and it is bound to exactly this request and account.
\<close>

theorem authorize_sound:
  fixes w :: "store world"
  assumes "mem_inv (w_store w)" and "handleAuthorize (mem_repos it) E r w = (rs, w')"
    and "gget (st_codes (w_store w')) \<noteq> gget (st_codes (w_store w)) \<or> w_pending w' \<noteq> w_pending w"
  shows "\<exists>c scopes u ck x t.
    gget (st_clients (w_store w)) (values_get (r_query r) ''client_id'') = Some c
    \<and> values_get (r_query r) ''redirect_uri'' \<in> set (cRedirectURIs c)
    \<and> values_get (r_query r) ''response_type'' = ''code''
    \<and> values_get (r_query r) ''code_challenge_method'' = ''S256'' \<and> values_get (r_query r) ''code_challenge'' \<noteq> []
    \<and> NormalizeScopes (values_get (r_query r) ''scope'') True = Inr scopes
    \<and> Cookie r CookieName = Some ck \<and> gget (st_sessions (w_store w)) (HashToken ck) = Some x \<and> Now E < sExpiresAt x
    \<and> gget (st_users (w_store w)) (sUserID x) = Some u \<and> \<not> uDisabled u
    \<and> token_at E (w_draws w) = Some t
    \<and> ((\<exists>sid g. mem_GetConsent (sUserID x) (cID c) (w_store w) = Inr g \<and> set scopes \<subseteq> set (gScopes g)
          \<and> gget (st_codes (w_store w')) = (gget (st_codes (w_store w)))
              (HashToken t \<mapsto> code_row E (pending_of E r c scopes) (sUserID x) sid t)
          \<and> w_pending w' = w_pending w)
      \<or> (w_pending w' = gput t (pending_of E r c scopes) (w_pending w)
          \<and> gget (st_codes (w_store w')) = gget (st_codes (w_store w))))"
proof -
  have "av_codes (mem_abs (w_store w')) \<noteq> av_codes (mem_abs (w_store w)) \<or> w_pending w' \<noteq> w_pending w"
    using assms(3) by (simp add: mem_abs_def)
  from mem.handleAuthorize_change [OF assms(1,2) this] obtain c scopes u where
    chk: "checkAuthorize (mem_repos it) r (w_store w) = Inr (c, scopes)"
    and cu: "currentUser (mem_repos it) E r w = (Some u, w)"
    and res: "if hasConsent (mem_repos it) (uID u) (cID c) scopes (w_store w)
     then w_pending w' = w_pending w \<and> granted E (pending_of E r c scopes) (uID u) w
        (av_codes (mem_abs (w_store w))) (av_codes (mem_abs (w_store w')))
     else mem_abs (w_store w') = mem_abs (w_store w) \<and>
       (\<exists>t. token_at E (w_draws w) = Some t \<and> w_pending w' = gput t (pending_of E r c scopes) (w_pending w))" by blast
  note c = mem.checkAuthorize_ok [OF assms(1) chk]
  note u = mem.currentUser_Some [OF assms(1) cu]
  obtain ck x where x: "Cookie r CookieName = Some ck" "Now E < sExpiresAt x"
    "gget (st_sessions (w_store w)) (HashToken ck) = Some x" "sUserID x = uID u" using u(4) by (auto simp: mem_abs_def)
  have out: "\<exists>t. token_at E (w_draws w) = Some t \<and>
      ((\<exists>sid g. mem_GetConsent (sUserID x) (cID c) (w_store w) = Inr g \<and> set scopes \<subseteq> set (gScopes g)
          \<and> gget (st_codes (w_store w')) = (gget (st_codes (w_store w)))
              (HashToken t \<mapsto> code_row E (pending_of E r c scopes) (sUserID x) sid t)
          \<and> w_pending w' = w_pending w)
      \<or> (w_pending w' = gput t (pending_of E r c scopes) (w_pending w)
          \<and> gget (st_codes (w_store w')) = gget (st_codes (w_store w))))"
  proof (cases "hasConsent (mem_repos it) (uID u) (cID c) scopes (w_store w)")
    case True
    then show ?thesis using res hasConsent_mem [OF True] assms(3) x(4) by (auto simp: granted_def mem_abs_def)
  next
    case False
    have "av_codes (mem_abs (w_store w')) = av_codes (mem_abs (w_store w))" using res False by simp
    then show ?thesis using res False by (auto simp: mem_abs_def)
  qed
  have "gget (st_clients (w_store w)) (values_get (r_query r) ''client_id'') = Some c"
    "gget (st_users (w_store w)) (sUserID x) = Some u"
    using c(1,2) u(2) x(4) by (simp_all add: mem_abs_def)
  then show ?thesis using c(3,4,5,6,7) u(3) x(1-3) out by (auto simp: bound_ok_def)
qed

text \<open>
  C6. A consent form issues a code only if it passes the CSRF check, its decision is to allow, the
  session cookie stands for an enabled account, and the form names a request that still waits and has
  not expired. The code is bound to that request and that account, and the request is gone
  afterwards, so that it cannot be answered twice.
\<close>

theorem consent_sound:
  fixes w :: "store world"
  assumes "mem_inv (w_store w)" and "handleConsent (mem_repos it) E r w = (rs, w')"
    and "gget (st_codes (w_store w')) \<noteq> gget (st_codes (w_store w))"
  shows "checkCSRF r \<and> FormValue r ''decision'' = ''allow'' \<and> gget (w_pending w') (FormValue r ''request_id'') = None \<and>
    (\<exists>p ck x u t sid. gget (w_pending w) (FormValue r ''request_id'') = Some p \<and> Now E < paExpiresAt p
      \<and> Cookie r CookieName = Some ck \<and> gget (st_sessions (w_store w)) (HashToken ck) = Some x \<and> Now E < sExpiresAt x
      \<and> gget (st_users (w_store w)) (sUserID x) = Some u \<and> \<not> uDisabled u
      \<and> token_at E (w_draws w) = Some t
      \<and> gget (st_codes (w_store w')) = (gget (st_codes (w_store w)))(HashToken t \<mapsto> code_row E p (sUserID x) sid t))"
proof -
  have "av_codes (mem_abs (w_store w')) \<noteq> av_codes (mem_abs (w_store w))" using assms(3) by (simp add: mem_abs_def)
  from mem.handleConsent_change [OF assms(1,2) this] obtain u p where
    form: "checkCSRF r" "FormValue r ''decision'' = ''allow''"
    and cu: "currentUser (mem_repos it) E r w = (Some u, w)"
    and p: "gget (w_pending w) (FormValue r ''request_id'') = Some p" "Now E < paExpiresAt p"
      "w_pending w' = gdel (FormValue r ''request_id'') (w_pending w)"
    and g: "granted E p (uID u) w (av_codes (mem_abs (w_store w))) (av_codes (mem_abs (w_store w')))" by blast
  note u = mem.currentUser_Some [OF assms(1) cu]
  obtain ck x where x: "Cookie r CookieName = Some ck" "Now E < sExpiresAt x"
    "gget (st_sessions (w_store w)) (HashToken ck) = Some x" "sUserID x = uID u" using u(4) by (auto simp: mem_abs_def)
  have "gget (w_pending w') (FormValue r ''request_id'') = None" using p(3) by simp
  moreover have "gget (st_users (w_store w)) (sUserID x) = Some u" using u(2) x(4) by (simp add: mem_abs_def)
  ultimately show ?thesis using form p(1,2) x u(3) g assms(3) by (auto simp: granted_def mem_abs_def)
qed

text \<open>
  A token request that should redeem the code \<open>t\<close> of the authorization \<open>p\<close>: well formed, from the client of
  \<open>p\<close>, with the redirect URI and a verifier for the challenge of \<open>p\<close>, in time, where signing and
  drawing random bytes work.
\<close>

definition redeems :: "env \<Rightarrow> pending_auth \<Rightarrow> string \<Rightarrow> store \<Rightarrow> iter_order \<Rightarrow> env \<Rightarrow> request \<Rightarrow> bool" where
  "redeems E p t st it E' r' \<longleftrightarrow>
    r_form_ok r' \<and> FormValue r' ''grant_type'' = ''authorization_code'' \<and> FormValue r' ''code'' = t \<and>
    map_option cID (authenticateClient (mem_repos it) E' r' st) = Some (paClientID p) \<and>
    FormValue r' ''redirect_uri'' = paRedirectURI p \<and>
    VerifyS256 (FormValue r' ''code_verifier'') (paChallenge p) = Inr () \<and>
    Now E' < Now E + CodeTTL (Cfg E) \<and> (\<forall>k. token_at E' k \<noteq> None) \<and> (\<forall>cl. SignJWT E' cl \<noteq> None)"

definition code_location :: "url \<Rightarrow> pending_auth \<Rightarrow> string \<Rightarrow> string" where
  "code_location v p t =
    (let q = values_set ''code'' t (url_Query v)
     in url_String (v\<lparr>url_RawQuery := values_Encode (if paState p \<noteq> [] then values_set ''state'' (paState p) q else q)\<rparr>))"

lemma mem_issueCode:
  assumes "mem_inv (w_store w)" and "token_at E (w_draws w) = Some t" and "url_Parse (paRedirectURI p) = Some v"
    and "issueCodeRedirect (mem_repos it) E r uid p w = (rs, w')"
  shows "mem_inv (w_store w')" and "\<exists>sid. gget (st_codes (w_store w')) (HashToken t) = Some (code_row E p uid sid t)"
    and "rs = http_Redirect r (code_location v p t) 302 new_response"
    and "gget (st_users (w_store w')) = gget (st_users (w_store w))"
proof -
  let ?w = "w\<lparr>w_draws := Suc (w_draws w)\<rparr>"
  obtain sid w1 where 1: "currentSID (mem_repos it) E r ?w = (sid, w1)" by fastforce
  have w1: "mem_inv (w_store w1)" "gget (st_users (w_store w1)) = gget (st_users (w_store w))"
    using mem.currentSID_frame [of ?w it E r] assms(1) 1 by (simp_all add: no_new_code_def mem_abs_def)
  let ?s = "snd (mem_PutCode (code_row E p uid sid t) (w_store w1))"
  have s: "mem_inv ?s" using mem_codes.put_code_frame [OF w1(1), of it "code_row E p uid sid t"] by simp
  have rows: "gget (st_codes ?s) (HashToken t) = Some (code_row E p uid sid t)" "st_users ?s = st_users (w_store w1)"
    by (simp_all add: mem_PutCode_def code_row_def)
  note add = mem_sessions.add_client [OF s, of it sid "paClientID p"]
  have keep: "st_codes (snd (mem_AddSessionClient sid (paClientID p) ?s)) = st_codes ?s"
    "st_users (snd (mem_AddSessionClient sid (paClientID p) ?s)) = st_users ?s"
    by (simp_all add: mem_AddSessionClient_def Let_def)
  have res: "rs = http_Redirect r (code_location v p t) 302 new_response"
    "w_store w' = snd (mem_AddSessionClient sid (paClientID p) ?s)"
    using assms(2-4) 1
    by (auto simp: issueCodeRedirect_def random_Token_eq Let_def on_store_eq code_location_def code_row_def mem_PutCode_def)
  show "mem_inv (w_store w')" using add res(2) by simp
  show "\<exists>sid. gget (st_codes (w_store w')) (HashToken t) = Some (code_row E p uid sid t)" using res(2) keep rows by auto
  show "gget (st_users (w_store w')) = gget (st_users (w_store w))" using res(2) keep rows w1(2) by simp
  show "rs = http_Redirect r (code_location v p t) 302 new_response" by (rule res(1))
qed

lemma redeem_ok:
  assumes "mem_inv st" and "gget (st_codes st) (HashToken t) = Some (code_row E p uid sid t)"
    and "gget (st_users st) uid \<noteq> None" and "redeems E p t st it E' r'" and "t \<noteq> []" and "w_store w = st"
  shows "rs_status (fst (handleToken (mem_repos it) E' r' w)) = 200"
proof -
  obtain c where c: "authenticateClient (mem_repos it) E' r' (w_store w) = Some c" "cID c = paClientID p"
    using assms(4,6) by (auto simp: redeems_def)
  let ?row = "(code_row E p uid sid t)\<lparr>acUsed := True\<rparr>"
  let ?w = "w\<lparr>w_store := st\<lparr>st_codes := gput (HashToken t) ?row (st_codes st)\<rparr>\<rparr>"
  have taken: "on_store (mem_TakeCode (HashToken t)) w = (Inr ?row, ?w)"
    using assms(2,6) by (simp add: on_store_eq mem_TakeCode_def code_row_def Let_def)
  have inv: "mem_inv (w_store ?w)"
    using mem_codes.take_code [OF assms(1), of "HashToken t" "code_row E p uid sid t" it] assms(2)
    by (simp add: mem_abs_def mem_TakeCode_def code_row_def Let_def)
  have err: "code_error E' r' c ?row = None"
    using assms(4) c by (simp add: code_error_def redeems_def code_row_def)
  obtain a b where tok: "token_at E' (w_draws w) = Some a" "token_at E' (Suc (w_draws w)) = Some b"
    using assms(4) by (fastforce simp: redeems_def)
  have sign: "SignIDToken E' x \<noteq> Inl e" for x e
  proof -
    have "SignJWT E' (id_token_claims x) \<noteq> None" using assms(4) unfolding redeems_def by blast
    then show ?thesis by (auto simp: SignIDToken_def)
  qed
  obtain u where u: "gget (st_users st) uid = Some u" using assms(3) by blast
  have "rs_status (fst (writeTokenResponse (mem_repos it) E' r' c uid (paScopes p) (paNonce p)
      (Contains (paScopes p) ''offline_access'') [] sid ?w)) = 200"
    unfolding mem.writeTokenResponse_eq [OF inv] using u tok sign
    by (auto simp: mem_abs_def token_ok_def Let_def split: sum.split)
  then show ?thesis
    using assms(4,5) c(1) taken err by (simp add: handleToken_def tokenAuthCode_def Let_def redeems_def code_row_def)
qed

text \<open>
  C7. The authorization code flow completes: when a consent form is allowed for a waiting request, the
  answer redirects to the redirect URI of that request with the code and its state, and a
  request of the same client for that code, with a verifier for the challenge and before the code
  expires, is answered with tokens.
\<close>

theorem code_flow_completes:
  fixes w :: "store world"
  assumes "mem_inv (w_store w)" and "rand_fills E" and "token_at E (w_draws w) = Some t"
    and "r_form_ok r" and "checkCSRF r" and "FormValue r ''decision'' = ''allow''"
    and "currentUser (mem_repos it) E r w = (Some u, w)"
    and "gget (w_pending w) (FormValue r ''request_id'') = Some p" and "Now E < paExpiresAt p"
    and "is_ok (ParseRedirectURI (paRedirectURI p))"
    and "handleConsent (mem_repos it) E r w = (rs, w')"
  shows "(\<exists>v. url_Parse (paRedirectURI p) = Some v \<and> rs = http_Redirect r (code_location v p t) 302 new_response)
    \<and> (\<forall>E' r'. redeems E p t (w_store w') it E' r' \<longrightarrow> rs_status (fst (handleToken (mem_repos it) E' r' w')) = 200)"
proof -
  obtain v where v: "url_Parse (paRedirectURI p) = Some v"
    using assms(10) by (auto simp: ParseRedirectURI_def split: option.splits)
  let ?g = "\<lparr>gUserID = uID u, gClientID = paClientID p, gScopes = paScopes p\<rparr>"
  let ?w2 = "w\<lparr>w_pending := gdel (FormValue r ''request_id'') (w_pending w), w_store := snd (mem_PutConsent ?g (w_store w))\<rparr>"
  let ?w3 = "audit (mem_repos it) E r AuditConsent (uID u) (paClientID p) (join '' '' (paScopes p)) ?w2"
  have "mem_inv (w_store ?w2)" "st_users (w_store ?w2) = st_users (w_store w)"
    using mem_consents.put_consent_frame [OF assms(1), of it ?g] by (simp_all add: mem_PutConsent_def)
  then have w3: "mem_inv (w_store ?w3)" "gget (st_users (w_store ?w3)) = gget (st_users (w_store w))"
    using mem.audit_inv [of ?w2 it E r] mem.audit_keeps(1) [of ?w2 it E r] by (simp_all add: mem_abs_def)
  have res: "issueCodeRedirect (mem_repos it) E r (uID u) p ?w3 = (rs, w')"
    using assms(4-9,11) by (simp add: handleConsent_def take_pending_def Let_def on_store_eq)
  have draw: "token_at E (w_draws ?w3) = Some t" using assms(3) by simp
  note i = mem_issueCode [OF w3(1) draw v res]
  have "gget (st_users (w_store w)) (uID u) = Some u"
    using mem.currentUser_Some(2) [OF assms(1,7)] by (simp add: mem_abs_def)
  then have usr: "gget (st_users (w_store w')) (uID u) \<noteq> None" using i(4) w3(2) by simp
  have ne: "t \<noteq> []" using token_length [OF assms(2,3)] by auto
  obtain sid where row: "gget (st_codes (w_store w')) (HashToken t) = Some (code_row E p (uID u) sid t)" using i(2) by blast
  show ?thesis using v i(3) redeem_ok [OF i(1) row usr _ ne refl] by blast
qed

subsection \<open>Witnesses\<close>

definition auth_pending :: pending_auth where
  "auth_pending = \<lparr>paClientID = ''rp'', paRedirectURI = ''https://rp/cb'', paState = ''st'', paNonce = [],
     paScopes = [''openid''], paChallenge = HashToken sample_verifier, paExpiresAt = 1600 * second\<rparr>"

definition auth_session :: session where
  "auth_session = \<lparr>sTokenHash = HashToken ''ck'', sUserID = ''u1'', sSID = ''s1'', sActiveOrgID = [], sExpiresAt = 2000 * second\<rparr>"

definition auth_world :: "store world" where
  "auth_world = sample_world\<lparr>w_pending := [(''req'', auth_pending)],
     w_store := sample_store\<lparr>st_sessions := [(HashToken ''ck'', auth_session)]\<rparr>\<rparr>"

definition consent_request :: request where
  "consent_request = blank_request\<lparr>r_cookies := [(CookieName, ''ck''), (csrfCookie, ''tok'')],
     r_form := [(''csrf'', [''tok'']), (''request_id'', [''req'']), (''decision'', [''allow''])]\<rparr>"

lemma auth_world_inv: "mem_inv (w_store auth_world)"
  using sample_inv by (simp add: auth_world_def mem_inv_def auth_session_def gball_def)

lemma consent_request_form [simp]:
  "r_form_ok consent_request" "checkCSRF consent_request" "FormValue consent_request ''request_id'' = ''req''"
  "FormValue consent_request ''decision'' = ''allow''" "Cookie consent_request CookieName = Some ''ck''"
  "FormValue consent_request ''csrf'' = ''tok''"
  by (simp_all add: consent_request_def blank_request_def FormValue_def values_get_def checkCSRF_def Cookie_def
      CookieName_def csrfCookie_def)

lemma consent_user: "currentUser (mem_repos it) sample_env consent_request auth_world = (Some sample_user, auth_world)"
  by (simp add: currentUser_def Lookup_def LookupSession_def mem_ops auth_world_def auth_session_def sample_user_def)

lemma auth_uri: "is_ok (ParseRedirectURI ''https://rp/cb'')" "url_Parse ''https://rp/cb'' \<noteq> None"
  by code_simp+

lemma auth_scope: "NormalizeScopes ''openid'' True = Inr [''openid'']"
  by code_simp

definition authorize_request :: request where
  "authorize_request = blank_request\<lparr>r_cookies := [(CookieName, ''ck'')],
     r_query := [(''response_type'', [''code'']), (''client_id'', [''rp'']), (''redirect_uri'', [''https://rp/cb'']),
       (''scope'', [''openid'']), (''code_challenge_method'', [''S256'']), (''code_challenge'', [''ch''])]\<rparr>"

lemma authorize_query:
  "values_get (r_query authorize_request) ''response_type'' = ''code''"
  "values_get (r_query authorize_request) ''client_id'' = ''rp''"
  "values_get (r_query authorize_request) ''redirect_uri'' = ''https://rp/cb''"
  "values_get (r_query authorize_request) ''scope'' = ''openid''"
  "values_get (r_query authorize_request) ''code_challenge_method'' = ''S256''"
  "values_get (r_query authorize_request) ''code_challenge'' = ''ch''"
  "Cookie authorize_request CookieName = Some ''ck''"
  by (simp_all add: authorize_request_def values_get_def Cookie_def)

lemma authorize_user: "currentUser (mem_repos it) sample_env authorize_request auth_world = (Some sample_user, auth_world)"
  by (simp add: currentUser_def Lookup_def LookupSession_def mem_ops auth_world_def auth_session_def sample_user_def authorize_query)

lemma authorize_pending: "w_pending (snd (handleAuthorize (mem_repos it) sample_env authorize_request auth_world)) \<noteq> w_pending auth_world"
proof -
  have "checkAuthorize (mem_repos it) authorize_request (w_store auth_world) = Inr (sample_client, [''openid''])"
    by (simp add: checkAuthorize_def Let_def authorize_query ChallengeS256_def mem_ops auth_world_def auth_uri auth_scope
        RedirectURIExact_def sample_client_def)
  moreover have "\<not> hasConsent (mem_repos it) (uID sample_user) (cID sample_client) [''openid''] (w_store auth_world)"
    by (simp add: hasConsent_def mem_ops auth_world_def sample_store_def NewStore_def)
  moreover have "token_at sample_env 0 \<noteq> Some ''req''"
    using token_length [OF sample_fills, of 0 "''req''"] by (auto simp del: sample_sel)
  ultimately show ?thesis
    by (simp add: handleAuthorize_def authorize_user Let_def random_Token_eq issueCSRF_def)
      (simp add: auth_world_def)
qed

theorem authorize_sound_witness:
  "\<exists>c. gget (st_clients (w_store auth_world)) (values_get (r_query authorize_request) ''client_id'') = Some c \<and>
    values_get (r_query authorize_request) ''redirect_uri'' \<in> set (cRedirectURIs c)"
proof -
  from authorize_sound [of auth_world id, OF auth_world_inv prod.collapse [symmetric] disjI2 [OF authorize_pending]]
  show ?thesis by (elim exE conjE) (intro exI conjI)
qed

lemma auth_world_sel:
  "w_pending auth_world = [(''req'', auth_pending)]" "w_draws auth_world = 0" "w_ids auth_world = 0"
  "w_store auth_world = sample_store\<lparr>st_sessions := [(HashToken ''ck'', auth_session)]\<rparr>"
  by (simp_all add: auth_world_def)

lemma consent_store:
  "st_codes (w_store (snd (handleConsent (mem_repos it) sample_env consent_request auth_world))) \<noteq> [] \<and>
   st_clients (w_store (snd (handleConsent (mem_repos it) sample_env consent_request auth_world))) = [(''rp'', sample_client)]"
  using auth_uri
  by (simp add: handleConsent_def consent_user take_pending_def Let_def on_store_eq issueCodeRedirect_def random_Token_eq
      currentSID_def LookupSession_def mem_ops audit_def id_New_def auth_pending_def auth_session_def auth_world_sel
      mem_AddSessionClient_def sample_store_def NewStore_def split: option.split)

theorem consent_sound_witness:
  "gget (w_pending auth_world) ''req'' \<noteq> None \<and>
    gget (w_pending (snd (handleConsent (mem_repos id) sample_env consent_request auth_world))) ''req'' = None"
proof -
  have "gget (st_codes (w_store (snd (handleConsent (mem_repos id) sample_env consent_request auth_world)))) \<noteq>
      gget (st_codes (w_store auth_world))"
    using consent_store [of id] by (auto simp: auth_world_sel fun_eq_iff neq_Nil_conv)
  from consent_sound [OF auth_world_inv prod.collapse [symmetric] this] show ?thesis
    by (auto simp: auth_world_sel)
qed

theorem code_flow_completes_witness:
  "\<exists>w' t. redeems sample_env auth_pending t (w_store w') id sample_env
      (code_request\<lparr>r_form := gput ''code'' [t] (r_form code_request)\<rparr>)
    \<and> rs_status (fst (handleToken (mem_repos id) sample_env
        (code_request\<lparr>r_form := gput ''code'' [t] (r_form code_request)\<rparr>) w')) = 200"
proof -
  obtain t where t: "token_at sample_env (w_draws auth_world) = Some t" by simp
  let ?r = "code_request\<lparr>r_form := gput ''code'' [t] (r_form code_request)\<rparr>"
  let ?w = "snd (handleConsent (mem_repos id) sample_env consent_request auth_world)"
  have "VerifyS256 sample_verifier (HashToken sample_verifier) = Inr ()"
    by (simp add: VerifyS256_ok sample_verifier_def)
  then have r: "redeems sample_env auth_pending t (w_store ?w) id sample_env ?r"
    using consent_store [of id]
    by (simp add: redeems_def code_request_def blank_request_def FormValue_def values_get_def authenticateClient_def
        mem_GetClient_def sample_client_def auth_pending_def sample_config_def, simp add: sample_env_def)
  have user: "currentUser (mem_repos id) sample_env consent_request auth_world = (Some sample_user, auth_world)"
    by (rule consent_user)
  have p: "gget (w_pending auth_world) (FormValue consent_request ''request_id'') = Some auth_pending"
    "Now sample_env < paExpiresAt auth_pending" "is_ok (ParseRedirectURI (paRedirectURI auth_pending))"
    using auth_uri(1) by (simp_all add: auth_world_sel auth_pending_def)
  from code_flow_completes [OF auth_world_inv sample_fills t consent_request_form(1,2,4) user p prod.collapse [symmetric]]
  have "rs_status (fst (handleToken (mem_repos id) sample_env ?r ?w)) = 200" using r by blast
  with r show ?thesis by blast
qed

end
