(* ===== verification/WebProps.thy ===== *)
theory WebProps
  imports AuthProps
begin

section \<open>Properties of the browser pages\<close>

text \<open>
  The forms and their CSRF token, what a login gives the browser, what a logout ends and
  tells the clients, and what an ID token does at the end-session endpoint.
\<close>

subsection \<open>Forms\<close>

lemma failForm_only_draws:
  "snd (failForm E r v t m st w) = w\<lparr>w_draws := w_draws (snd (failForm E r v t m st w))\<rparr> \<and>
    rs_status (fst (failForm E r v t m st w)) \<in> {st, 500}"
  by (simp add: failForm_def issueCSRF_def random_Token_eq split: option.split)

lemma failForm_status: "failForm E r v t m st w = (rs, w') \<Longrightarrow> rs_status rs = st \<or> rs_status rs = 500"
  using failForm_only_draws [of E r v t m st w] by simp

text \<open>
  C34. The four forms of the browser pages act only when the CSRF token of the form matches the one of
  the cookie: otherwise registering, logging in, logging out and consenting change nothing (random
  bytes for the next form aside) and are refused.
\<close>

theorem csrf_guards:
  assumes "rt \<in> {RRegister, RLogin, RLogout, RConsent}" and "\<not> checkCSRF r"
    and "handle_route R E keys rt r w = (rs, w')"
  shows "w' = w\<lparr>w_draws := w_draws w'\<rparr> \<and> rs_status rs \<in> {400, 500}"
  using assms failForm_only_draws [of E r _ _ _ 400 w]
  by (auto simp: handleRegister_def handleLogin_def handleLogout_def handleConsent_def dest: arg_cong [of _ _ fst])
    (metis fst_conv snd_conv insertE singletonD)+

lemma handleLogin_redirects:
  assumes "handleLogin (mem_repos it) E r w = (rs, w')" and "rs_status rs = 303"
  shows "checkCSRF r \<and> (\<exists>u hits. Authenticate (Users (mem_repos it)) E (FormValue r ''email'') (FormValue r ''password'') (w_store w) = Inr u
    \<and> startSessionAndRedirect (mem_repos it) E r (uID u) (safeContinue (FormValue r ''continue'')) (w\<lparr>w_hits := hits\<rparr>) = (rs, w'))"
proof -
  have form: "r_form_ok r" "checkCSRF r"
    using assms by (auto simp: handleLogin_def dest: failForm_status split: if_splits)
  let ?key = "loginKey r (FormValue r ''email'')"
  obtain limited hits where lim: "Limited Logins (Now E) ?key (w_hits w) = (limited, hits)" by fastforce
  have nl: "\<not> limited"
  proof
    assume "limited"
    then have "failForm E r ''login'' msg_login msg_too_many 429 (w\<lparr>w_hits := hits\<rparr>) = (rs, w')"
      using assms(1) form lim by (simp add: handleLogin_def)
    from failForm_status [OF this] assms(2) show False by simp
  qed
  show ?thesis
  proof (cases "Authenticate (Users (mem_repos it)) E (FormValue r ''email'') (FormValue r ''password'') (w_store w)")
    case (Inl e)
    then show ?thesis
      using assms form lim nl by (auto simp: handleLogin_def Let_def dest: failForm_status)
  next
    case (Inr u)
    then have "startSessionAndRedirect (mem_repos it) E r (uID u) (safeContinue (FormValue r ''continue''))
        (w\<lparr>w_hits := Success ?key hits\<rparr>) = (rs, w')"
      using assms(1) form lim nl by (simp add: handleLogin_def Let_def)
    with Inr form(2) show ?thesis by blast
  qed
qed

text \<open>Served one at a time, the logins make a run of guesses: asked, then counted before the answer.\<close>

lemma failForm_hits: "w_hits (snd (failForm E r v t m st w)) = w_hits w"
  by (simp add: failForm_def issueCSRF_def random_Token_eq split: option.split)

lemma startSession_hits: "w_hits (snd (startSessionAndRedirect R E r uid cont w)) = w_hits w"
  by (auto simp: startSessionAndRedirect_def Start_session_def random_Token_eq on_store_def Let_def
      split: option.split sum.split prod.split)

lemma handleLogin_guesses:
  assumes run: "guess_run Logins tr (w_hits w) []" and now: "\<forall>e \<in> set tr. fst e \<le> Now E"
    and form: "r_form_ok r" "checkCSRF r"
  shows "\<exists>evs. evs \<in> {[Refused], [Passed, Failed], [Passed, Succeeded]} \<and>
    guess_run Logins (tr @ map (\<lambda>ev. (Now E, loginKey r (FormValue r ''email''), ev)) evs) (w_hits (snd (handleLogin R E r w))) []"
proof -
  let ?key = "loginKey r (FormValue r ''email'')"
  obtain limited hits where lim: "Limited Logins (Now E) ?key (w_hits w) = (limited, hits)" by fastforce
  note asked = guess_run.asks [OF run now lim]
  show ?thesis
  proof (cases limited)
    case True
    then have "w_hits (snd (handleLogin R E r w)) = hits"
      using form lim by (simp add: handleLogin_def failForm_hits)
    then show ?thesis using asked True by (intro exI [of _ "[Refused]"]) simp
  next
    case False
    then have passed: "guess_run Logins (tr @ [(Now E, ?key, Passed)]) hits [?key]" using asked by simp
    have late: "\<forall>e \<in> set (tr @ [(Now E, ?key, Passed)]). fst e \<le> Now E" using now by auto
    show ?thesis
    proof (cases "Authenticate (Users R) E (FormValue r ''email'') (FormValue r ''password'') (w_store w)")
      case (Inl e)
      then have "w_hits (snd (handleLogin R E r w)) = Failure Logins (Now E) ?key hits"
        using form lim False by (simp add: handleLogin_def Let_def failForm_hits)
      then show ?thesis
        using guess_run.fails [OF passed late, of ?key] by (intro exI [of _ "[Passed, Failed]"]) simp
    next
      case (Inr u)
      then have "w_hits (snd (handleLogin R E r w)) = Success ?key hits"
        using form lim False by (simp add: handleLogin_def Let_def startSession_hits)
      then show ?thesis
        using guess_run.succeeds [OF passed late, of ?key] by (intro exI [of _ "[Passed, Succeeded]"]) simp
    qed
  qed
qed

text \<open>
  C33. A login that succeeds opens a session: the answer sets the session cookie to a value that from then
  on, until the session expires, stands for exactly the account whose address and password were given.
\<close>

theorem login_opens_session:
  fixes w :: "store world"
  assumes "mem_inv (w_store w)" and "rand_fills E" and "handleLogin (mem_repos it) E r w = (rs, w')" and "rs_status rs = 303"
  shows "checkCSRF r \<and> (\<exists>u t. Authenticate (Users (mem_repos it)) E (FormValue r ''email'') (FormValue r ''password'') (w_store w) = Inr u
    \<and> ckName (last (rs_cookies rs)) = CookieName \<and> ckValue (last (rs_cookies rs)) = t
    \<and> (\<forall>E' r'. Cookie r' CookieName = Some t \<longrightarrow> Now E' < Now E + SessionTTL (Cfg E) \<longrightarrow>
        currentUser (mem_repos it) E' r' w' = (Some u, w')))"
proof -
  obtain u hits where u: "Authenticate (Users (mem_repos it)) E (FormValue r ''email'') (FormValue r ''password'') (w_store w) = Inr u"
    and go: "startSessionAndRedirect (mem_repos it) E r (uID u) (safeContinue (FormValue r ''continue'')) (w\<lparr>w_hits := hits\<rparr>) = (rs, w')"
    and csrf: "checkCSRF r"
    using handleLogin_redirects [OF assms(3,4)] by blast
  let ?w2 = "w\<lparr>w_hits := hits\<rparr>"
  have usr: "gget (st_users (w_store w)) (uID u) = Some u" "\<not> uDisabled u"
    using mem_users.Authenticate_iff [OF assms(1)] u by (simp_all add: mem_abs_def)
  obtain t exp where st: "Start_session (Sessions (mem_repos it)) E (SessionTTL (Cfg E)) (uID u) ?w2 = (Inr (t, exp), w')"
    and rs: "rs = http_Redirect r (if safeContinue (FormValue r ''continue'') = [] then ''/'' else safeContinue (FormValue r ''continue'')) 303
      (setSessionCookie t exp (CookieSecure (Cfg E)) new_response)"
    using go assms(4) by (auto simp: startSessionAndRedirect_def split: sum.splits prod.splits)
  have u2: "av_users (mem_abs (w_store ?w2)) (uID u) \<noteq> None" and i2: "mem_inv (w_store ?w2)"
    using usr assms(1) by (simp_all add: mem_abs_def)
  note start = mem_sessions.Start_session_ok [OF i2 u2 st]
  have ne: "t \<noteq> []" using start(1) token_length [OF assms(2)] by fastforce
  have "currentUser (mem_repos it) E' r' w' = (Some u, w')"
    if "Cookie r' CookieName = Some t" "Now E' < Now E + SessionTTL (Cfg E)" for E' r'
  proof -
    have "Lookup (Sessions (mem_repos it)) E' t w' = (Inr (uID u), w')"
      using mem_sessions.started_session [OF i2 u2 st ne] that(2) by blast
    moreover have "gget (st_users (w_store w')) (uID u) = Some u"
      using start(4) usr(1) by (auto simp: mem_abs_def)
    ultimately show ?thesis using that(1) usr(2) by (simp add: currentUser_def mem_GetByID_def)
  qed
  then show ?thesis using csrf u rs
    by (auto simp: http_defs setSessionCookie_def CookieName_def)
qed

subsection \<open>Logout\<close>

lemma checkEndSession_hint: "checkEndSession R E req s = Inr hint \<Longrightarrow> hint = parseHint E (esIDTokenHint req)"
  by (simp add: checkEndSession_def Let_def split: if_splits sum.splits)

lemma renderEndSessionConfirm_keeps:
  "w_store (snd (renderEndSessionConfirm E req w)) = w_store w \<and> w_sent (snd (renderEndSessionConfirm E req w)) = w_sent w"
  by (simp add: renderEndSessionConfirm_def issueCSRF_def random_Token_eq split: option.split)

text \<open>
  C35. The end-session endpoint does not end the session of a logged-in browser, nor tell any client,
  unless the request carries an ID token of this issuer for that very account, or the confirmation
  form was posted with its CSRF token.
\<close>

theorem logout_guarded:
  fixes w :: "store world"
  assumes "mem_inv (w_store w)" and "currentUser (mem_repos it) E r w = (Some u, w)"
    and "handleEndSession (mem_repos it) E r w = (rs, w')" and "w_store w' \<noteq> w_store w \<or> w_sent w' \<noteq> w_sent w"
  shows "(\<exists>h. ParseIDTokenHint E (esIDTokenHint (parseEndSession r)) = Inr h \<and> ihIssuer h = Issuer (Cfg E) \<and> ihSubject h = uID u)
    \<or> r_method r = ''POST'' \<and> FormValue r ''confirm'' = ''yes'' \<and> checkCSRF r"
proof (rule ccontr)
  let ?req = "parseEndSession r"
  assume no: "\<not> ?thesis"
  have "\<not> (esConfirm ?req \<and> r_method r = ''POST'' \<and> checkCSRF r)"
    using no by (cases "r_method r = ''POST''") (simp_all add: parseEndSession_def Let_def)
  moreover have "\<not> (case parseHint E (esIDTokenHint ?req) of None \<Rightarrow> False
      | Some h \<Rightarrow> ihIssuer h = Issuer (Cfg E) \<and> ihSubject h = uID u)"
    using no by (auto simp: parseHint_def split: if_splits sum.splits)
  ultimately have "w_store w' = w_store w \<and> w_sent w' = w_sent w"
    using assms(2,3) renderEndSessionConfirm_keeps [of E ?req w]
    by (cases "checkEndSession (mem_repos it) E ?req (w_store w)")
      (auto simp: handleEndSession_def Let_def dest: checkEndSession_hint split: if_splits option.splits)
  with assms(4) show False by blast
qed

definition notice_uri :: "store \<Rightarrow> string \<Rightarrow> string option" where
  "notice_uri st i = (case gget (st_clients st) i of
     None \<Rightarrow> None
   | Some c \<Rightarrow> if is_ok (ParseRedirectURI (cBackChannelLogoutURI c)) then Some (cBackChannelLogoutURI c) else None)"

lemma ParseRedirectURI_nonempty: "is_ok (ParseRedirectURI u) \<Longrightarrow> u \<noteq> []"
  by (rule ccontr) (simp, code_simp)

lemma notify_client_mem:
  assumes "\<forall>k. token_at E k \<noteq> None" and "\<forall>cl. SignJWT E cl \<noteq> None" and "sid \<noteq> []"
  shows "w_store (notify_client (mem_repos it) E sid sub i w) = w_store w"
    and "map fst (w_sent (notify_client (mem_repos it) E sid sub i w)) =
      map fst (w_sent w) @ (case notice_uri (w_store w) i of None \<Rightarrow> [] | Some u \<Rightarrow> [u])"
proof -
  obtain t where t: "token_at E (w_draws w) = Some t" using assms(1) by blast
  have sign: "SignLogoutToken E inp \<noteq> Inl e" if "ltSID inp = sid" for inp e
  proof -
    obtain tok where "SignJWT E (logout_token_claims inp) = Some tok" using assms(2) by blast
    then show ?thesis using that assms(3) by (simp add: SignLogoutToken_def)
  qed
  show "w_store (notify_client (mem_repos it) E sid sub i w) = w_store w"
    using t by (simp add: notify_client_def mem_GetClient_def random_Token_eq split: sum.split)
  show "map fst (w_sent (notify_client (mem_repos it) E sid sub i w)) =
      map fst (w_sent w) @ (case notice_uri (w_store w) i of None \<Rightarrow> [] | Some u \<Rightarrow> [u])"
    using t ParseRedirectURI_nonempty
    by (auto simp: sign notify_client_def mem_GetClient_def random_Token_eq notice_uri_def found_def split: sum.split option.split)
qed

lemma fold_notify_mem:
  assumes "\<forall>k. token_at E k \<noteq> None" and "\<forall>cl. SignJWT E cl \<noteq> None" and "sid \<noteq> []"
  shows "w_store (fold (notify_client (mem_repos it) E sid sub) ids w) = w_store w \<and>
    map fst (w_sent (fold (notify_client (mem_repos it) E sid sub) ids w)) =
      map fst (w_sent w) @ List.map_filter (notice_uri (w_store w)) ids"
proof (induction ids arbitrary: w)
  case (Cons i ids)
  show ?case
    using Cons.IH [of "notify_client (mem_repos it) E sid sub i w"] notify_client_mem [OF assms, of it sub i w]
    by (simp add: List.map_filter_simps split: option.split)
qed (simp add: List.map_filter_simps)

lemma notify_client_store: "w_store (notify_client (mem_repos it) E sid sub i w) = w_store w"
  by (simp add: notify_client_def mem_GetClient_def random_Token_eq split: sum.split option.split)

lemma notifyBackChannel_store: "w_store (notifyBackChannel (mem_repos it) E sid sub w) = w_store w"
proof -
  have "w_store (fold (notify_client (mem_repos it) E sid sub) ids w) = w_store w" for ids
    by (induction ids arbitrary: w) (simp_all add: notify_client_store)
  then show ?thesis by (simp add: notifyBackChannel_def split: sum.split)
qed

text \<open>The world after a logout: the notices are out, and the session of the cookie is deleted.\<close>

lemma finishLogout_world:
  fixes w :: "store world"
  assumes "mem_inv (w_store w)" and "Cookie r CookieName = Some ck"
    and "mem_sessions.cookie_row ck (w_store w) = Some x" and "Now E < sExpiresAt x"
    and "finishLogout (mem_repos it) E r req d w = (rs, w')"
  shows "\<exists>sub. w' = snd (on_store (mem_DeleteSession (HashToken ck)) (notifyBackChannel (mem_repos it) E (sSID x) sub w))"
proof -
  have look: "LookupSession (Sessions (mem_repos it)) E ck v = (Inr x, v)" if "w_store v = w_store w" for v :: "store world"
    using assms(1,3,4) that mem_sessions.LookupSession_eq [of v it E ck] by simp
  have sid: "currentSID (mem_repos it) E r w = (sSID x, w)" using look [OF refl] assms(2) by (simp add: currentSID_def)
  have "snd (currentUser (mem_repos it) E r w) = w"
    using look [OF refl] assms(2) by (simp add: currentUser_def Lookup_def split: sum.split)
  then obtain usr where usr: "currentUser (mem_repos it) E r w = (usr, w)" by (metis prod.collapse)
  let ?sub = "case usr of None \<Rightarrow> [] | Some u \<Rightarrow> uID u"
  let ?w2 = "notifyBackChannel (mem_repos it) E (sSID x) ?sub w"
  have st: "w_store ?w2 = w_store w" by (rule notifyBackChannel_store)
  have ne: "ck \<noteq> []" using assms(3) by (auto simp: mem_sessions.cookie_row_def)
  have "w' = snd (on_store (mem_DeleteSession (HashToken ck)) ?w2)"
    using assms(1,2,5) ne sid usr look [OF st] st mem_sessions.End_session_eq [of ?w2 it ck]
    by (simp add: finishLogout_def endBrowserSession_def Let_def)
  then show ?thesis by blast
qed

lemma finishLogout_ends:
  fixes w :: "store world"
  assumes "mem_inv (w_store w)" and "Cookie r CookieName = Some ck"
    and "mem_sessions.cookie_row ck (w_store w) = Some x" and "Now E < sExpiresAt x"
    and "finishLogout (mem_repos it) E r req d w = (rs, w')"
  shows "gget (st_sessions (w_store w')) = (gget (st_sessions (w_store w)))(HashToken ck := None)"
proof -
  have "gget (st_sessions (snd (mem_DeleteSession (HashToken ck) (w_store w)))) = (gget (st_sessions (w_store w)))(HashToken ck := None)"
    using mem_sessions.delete_session [OF assms(1), of it "HashToken ck", THEN conjunct2, THEN conjunct2,
      THEN arg_cong [where f = av_sessions]] by (auto simp: mem_abs_def fun_eq_iff)
  then show ?thesis
    using finishLogout_world [OF assms] notifyBackChannel_store by (auto simp: on_store_eq fun_eq_iff)
qed

text \<open>
  C36. Logging out ends exactly the session of the cookie, and for every client that took part in it and has
  a usable back-channel address a notice is handed to the HTTP client, in the order of the client
  identifiers, one each and for no other client. Documented behaviour used: \<open>crypto/rand\<close> and signing succeed.
\<close>

theorem logout_complete:
  fixes w :: "store world"
  assumes "mem_inv (w_store w)" and "Cookie r CookieName = Some ck" and "ck \<noteq> []"
    and "gget (st_sessions (w_store w)) (HashToken ck) = Some x" and "Now E < sExpiresAt x" and "sSID x \<noteq> []"
    and "\<forall>k. token_at E k \<noteq> None" and "\<forall>cl. SignJWT E cl \<noteq> None"
    and "finishLogout (mem_repos it) E r req d w = (rs, w')"
  shows "gget (st_sessions (w_store w')) = (gget (st_sessions (w_store w)))(HashToken ck := None)
    \<and> (\<exists>ids. mem_ListSessionClients it (sSID x) (w_store w) = Inr ids \<and> sorted ids \<and> distinct ids
      \<and> set ids = av_sidRP (mem_abs (w_store w)) (sSID x)
      \<and> map fst (w_sent w') = map fst (w_sent w) @ List.map_filter (notice_uri (w_store w)) ids)"
proof -
  have row: "mem_sessions.cookie_row ck (w_store w) = Some x"
    using assms(3,4) by (simp add: mem_sessions.cookie_row_def mem_abs_def)
  obtain sub where w': "w' = snd (on_store (mem_DeleteSession (HashToken ck)) (notifyBackChannel (mem_repos it) E (sSID x) sub w))"
    using finishLogout_world [OF assms(1,2) row assms(5,9)] by blast
  obtain ids where ids: "mem_ListSessionClients it (sSID x) (w_store w) = Inr ids" "sorted ids" "distinct ids"
    "set ids = av_sidRP (mem_abs (w_store w)) (sSID x)"
    using mem_sessions.list_clients [OF assms(1,6), of it] by auto
  have "w_sent w' = w_sent (fold (notify_client (mem_repos it) E (sSID x) sub) ids w)"
    using assms(6) ids(1) by (simp add: w' notifyBackChannel_def on_store_eq)
  then show ?thesis
    using fold_notify_mem [OF assms(7,8,6), of it sub ids w] finishLogout_ends [OF assms(1,2) row assms(5,9)] ids by auto
qed

subsection \<open>The ID token as a logout hint\<close>

text \<open>
  A logout link of the client \<open>c\<close> with the ID token \<open>idt\<close>, followed at any later time by a browser in
  which \<open>u\<close> is logged in. The key and the issuer are those of the token; the link names no
  client or this one, and no address to go to or one of its own.
\<close>

definition logout_link :: "iter_order \<Rightarrow> env \<Rightarrow> client \<Rightarrow> string \<Rightarrow> env \<Rightarrow> request \<Rightarrow> store world \<Rightarrow> user \<Rightarrow> bool" where
  "logout_link it E c idt E' r v u \<longleftrightarrow>
    ParseJWT E' = ParseJWT E \<and> Issuer (Cfg E') = Issuer (Cfg E) \<and> mem_inv (w_store v)
    \<and> currentUser (mem_repos it) E' r v = (Some u, v) \<and> r_method r = ''GET''
    \<and> values_get (r_query r) ''id_token_hint'' = idt \<and> values_get (r_query r) ''client_id'' \<in> {[], cID c} \<and> cID c \<noteq> []
    \<and> (\<exists>c'. gget (st_clients (w_store v)) (cID c) = Some c' \<and>
        (let uri = values_get (r_query r) ''post_logout_redirect_uri''
         in uri = [] \<or> is_ok (ParseRedirectURI uri) \<and> uri \<in> set (cPostLogoutRedirectURIs c')))"

lemma checkEndSession_link:
  assumes "logout_link it E c idt E' r v u" and "parseHint E' idt = Some h" and "ihAudience h = [cID c]"
  shows "checkEndSession (mem_repos it) E' (parseEndSession r) (w_store v) = Inr (Some h)"
proof -
  obtain c' where c': "gget (st_clients (w_store v)) (cID c) = Some c'" using assms(1) by (auto simp: logout_link_def)
  moreover have "mem_inv (w_store v)" using assms(1) by (simp add: logout_link_def)
  ultimately have "cID c' = cID c" using mem_clients.client_key by (simp add: mem_abs_def)
  with c' show ?thesis using assms
    by (auto simp: checkEndSession_def parseEndSession_def logoutClient_def mem_GetClient_def logout_link_def Let_def RedirectURIExact_iff)
qed

text \<open>
  C29. The ID token of a successful response to an authorization-code request is a logout hint for exactly
  the account of the code. A browser that follows a logout link with it, however much later, is
  logged out without confirmation when that account is logged in: the session of its cookie is ended
  and no other. A browser in which somebody else is logged in only gets the confirmation page, and
  nothing changes. Documented behaviour used: a token that \<open>jwx\<close> signed parses with its claims
  under the same keys. Identifiers are not empty.
\<close>

theorem id_token_logs_out:
  fixes w :: "store world"
  assumes "mem_inv (w_store w)" and "handleToken (mem_repos it) E r w = (rs, w')"
    and "FormValue r ''grant_type'' = ''authorization_code''" and "rs_status rs = 200" and "jwt_faithful E"
  shows "\<exists>c row t idt ref. authenticateClient (mem_repos it) E r (w_store w) = Some c
    \<and> gget (st_codes (w_store w)) (HashToken (FormValue r ''code'')) = Some row
    \<and> rs_body rs = JsonBody (token_json E t idt (acScopes row) ref)
    \<and> (\<forall>E' r' v u. logout_link it E c idt E' r' v u \<longrightarrow> acUserID row \<noteq> [] \<longrightarrow>
        (if uID u = acUserID row then \<exists>ck rs' v'. Cookie r' CookieName = Some ck
            \<and> handleEndSession (mem_repos it) E' r' v = (rs', v')
            \<and> gget (st_sessions (w_store v)) (HashToken ck) \<noteq> None
            \<and> gget (st_sessions (w_store v')) = (gget (st_sessions (w_store v)))(HashToken ck := None)
         else handleEndSession (mem_repos it) E' r' v = renderEndSessionConfirm E' (parseEndSession r') v
            \<and> w_store (snd (handleEndSession (mem_repos it) E' r' v)) = w_store v
            \<and> w_sent (snd (handleEndSession (mem_repos it) E' r' v)) = w_sent v))"
proof -
  obtain c row t idt ref inp where parts: "authenticateClient (mem_repos it) E r (w_store w) = Some c"
    "gget (st_codes (w_store w)) (HashToken (FormValue r ''code'')) = Some row"
    "rs_body rs = JsonBody (token_json E t idt (acScopes row) ref)"
    and sign: "SignIDToken E inp = Inr idt"
    and inp: "itIssuer inp = Issuer (Cfg E)" "itSubject inp = acUserID row" "itAudience inp = cID c"
    using code_grant_id_token [OF assms(1-4)] by blast
  have ended: "if uID u = acUserID row then \<exists>ck rs' v'. Cookie r' CookieName = Some ck
        \<and> handleEndSession (mem_repos it) E' r' v = (rs', v')
        \<and> gget (st_sessions (w_store v)) (HashToken ck) \<noteq> None
        \<and> gget (st_sessions (w_store v')) = (gget (st_sessions (w_store v)))(HashToken ck := None)
      else handleEndSession (mem_repos it) E' r' v = renderEndSessionConfirm E' (parseEndSession r') v
        \<and> w_store (snd (handleEndSession (mem_repos it) E' r' v)) = w_store v
        \<and> w_sent (snd (handleEndSession (mem_repos it) E' r' v)) = w_sent v"
    if link: "logout_link it E c idt E' r' v u" and ne: "acUserID row \<noteq> []" for E' r' v u
  proof -
    let ?h = "\<lparr>ihIssuer = itIssuer inp, ihSubject = itSubject inp, ihAudience = [itAudience inp]\<rparr>"
    have eqs: "ParseJWT E' = ParseJWT E" "Issuer (Cfg E') = Issuer (Cfg E)" using link by (simp_all add: logout_link_def)
    have hint: "parseHint E' idt = Some ?h"
      using id_token_hint [OF assms(5) sign eqs(1)] ne eqs(2) inp by (simp add: parseHint_def)
    have cu: "currentUser (mem_repos it) E' r' v = (Some u, v)" and get: "r_method r' = ''GET''"
      and aud: "values_get (r_query r') ''client_id'' \<in> {[], cID c}" and inv: "mem_inv (w_store v)"
      using link by (simp_all add: logout_link_def)
    have go: "handleEndSession (mem_repos it) E' r' v =
        (if uID u = acUserID row then finishLogout (mem_repos it) E' r' (parseEndSession r') [] v
         else renderEndSessionConfirm E' (parseEndSession r') v)"
      using checkEndSession_link [OF link hint] inp eqs(2) cu get aud
      by (auto simp: handleEndSession_def Let_def) (auto simp: parseEndSession_def Let_def)
    obtain ck x where ck: "Cookie r' CookieName = Some ck" "ck \<noteq> []" "Now E' < sExpiresAt x"
      "gget (st_sessions (w_store v)) (HashToken ck) = Some x"
      using mem.currentUser_Some(4) [OF inv cu] by (auto simp: mem_abs_def)
    then have row: "mem_sessions.cookie_row ck (w_store v) = Some x"
      by (simp add: mem_sessions.cookie_row_def mem_abs_def)
    obtain rs' v' where out: "finishLogout (mem_repos it) E' r' (parseEndSession r') [] v = (rs', v')" by fastforce
    then have "gget (st_sessions (w_store v')) = (gget (st_sessions (w_store v)))(HashToken ck := None)"
      by (rule finishLogout_ends [OF inv ck(1) row ck(3)])
    then show ?thesis
      using renderEndSessionConfirm_keeps [of E' "parseEndSession r'" v] ck(1,4) out by (simp only: go) auto
  qed
  show ?thesis by (intro exI conjI allI impI) (rule parts | erule (1) ended)+
qed

subsection \<open>Witnesses\<close>

theorem csrf_guards_witness:
  "rs_status (fst (handle_route (mem_repos id) sample_env JNull RConsent blank_request sample_world)) \<in> {400, 500}"
proof -
  have "\<not> checkCSRF blank_request" by code_simp
  from csrf_guards [of RConsent blank_request "mem_repos id" sample_env JNull sample_world, OF _ this prod.collapse [symmetric]]
  show ?thesis by simp
qed

definition login_request :: request where
  "login_request = blank_request\<lparr>r_cookies := [(csrfCookie, ''tok'')],
     r_form := [(''csrf'', [''tok'']), (''email'', [''a@x'']), (''password'', [''secret''])]\<rparr>"

lemma login_request_form:
  "r_form_ok login_request" "checkCSRF login_request" "FormValue login_request ''email'' = ''a@x''"
  "FormValue login_request ''password'' = ''secret''" "FormValue login_request ''continue'' = []"
  by (simp_all add: login_request_def blank_request_def FormValue_def values_get_def checkCSRF_def Cookie_def csrfCookie_def)

lemma login_authenticated: "Authenticate (Users (mem_repos it)) sample_env ''a@x'' ''secret'' sample_store = Inr sample_user"
  unfolding mem_users.Authenticate_iff [OF sample_inv]
  by (simp add: sample_email mem_abs_def) (simp add: sample_user_def Verify_phc_string sample_key_len keyLen_def)

lemma login_redirects: "rs_status (fst (handleLogin (mem_repos it) sample_env login_request sample_world)) = 303"
  by (simp add: handleLogin_def login_request_form login_authenticated Limited_def prune_def Logins_def New_limiter_def Let_def
      safeContinue_def startSessionAndRedirect_def Start_session_def random_Token_eq on_store_eq mem_PutSession_def)

theorem login_opens_session_witness:
  "\<exists>w' t. currentUser (mem_repos id) sample_env (blank_request\<lparr>r_cookies := [(CookieName, t)]\<rparr>) w' = (Some sample_user, w')"
proof -
  let ?out = "handleLogin (mem_repos id) sample_env login_request sample_world"
  have user: "\<forall>u. Authenticate (Users (mem_repos id)) sample_env (FormValue login_request ''email'')
      (FormValue login_request ''password'') (w_store sample_world) = Inr u \<longrightarrow> u = sample_user"
    using login_authenticated [of id] by (simp add: login_request_form)
  from login_opens_session [OF _ sample_fills prod.collapse [symmetric] login_redirects [of id]] user
  obtain t where "\<forall>E' r'. Cookie r' CookieName = Some t \<longrightarrow> Now E' < Now sample_env + SessionTTL (Cfg sample_env) \<longrightarrow>
      currentUser (mem_repos id) E' r' (snd ?out) = (Some sample_user, snd ?out)" by auto
  then have "currentUser (mem_repos id) sample_env (blank_request\<lparr>r_cookies := [(CookieName, t)]\<rparr>) (snd ?out) = (Some sample_user, snd ?out)"
    by (simp add: Cookie_def sample_config_def)
  then show ?thesis by blast
qed

definition logout_request :: request where
  "logout_request = blank_request\<lparr>r_method := ''POST'', r_cookies := [(CookieName, ''ck''), (csrfCookie, ''tok'')],
     r_form := [(''csrf'', [''tok'']), (''confirm'', [''yes''])]\<rparr>"

lemma logout_cookie: "Cookie logout_request CookieName = Some ''ck''" "checkCSRF logout_request" "r_form_ok logout_request"
  "r_method logout_request = ''POST''" "FormValue logout_request ''confirm'' = ''yes''"
  "FormValue logout_request ''post_logout_redirect_uri'' = []" "FormValue logout_request ''client_id'' = []"
  "FormValue logout_request ''id_token_hint'' = []" "FormValue logout_request ''state'' = []"
  by (simp_all add: logout_request_def blank_request_def Cookie_def checkCSRF_def FormValue_def values_get_def csrfCookie_def CookieName_def)

lemma logout_row: "gget (st_sessions (w_store auth_world)) (HashToken ''ck'') = Some auth_session"
  "Now sample_env < sExpiresAt auth_session" "sSID auth_session \<noteq> []"
  by (simp_all add: auth_world_sel auth_session_def)

lemma sample_total: "\<forall>k. token_at sample_env k \<noteq> None" "\<forall>cl. SignJWT sample_env cl \<noteq> None"
  by (simp, simp add: sample_env_def)

theorem logout_complete_witness:
  "gget (st_sessions (w_store (snd (finishLogout (mem_repos id) sample_env logout_request empty_end_session [] auth_world)))) (HashToken ''ck'') = None"
  using logout_complete [OF auth_world_inv logout_cookie(1) _ logout_row sample_total prod.collapse [symmetric]] by simp

theorem logout_guarded_witness:
  "w_store (snd (handleEndSession (mem_repos id) sample_env logout_request auth_world)) \<noteq> w_store auth_world \<and>
    ((\<exists>h. ParseIDTokenHint sample_env (esIDTokenHint (parseEndSession logout_request)) = Inr h \<and>
        ihIssuer h = Issuer (Cfg sample_env) \<and> ihSubject h = uID sample_user)
      \<or> r_method logout_request = ''POST'' \<and> FormValue logout_request ''confirm'' = ''yes'' \<and> checkCSRF logout_request)"
proof -
  have user: "currentUser (mem_repos id) sample_env logout_request auth_world = (Some sample_user, auth_world)"
    by (simp add: currentUser_def Lookup_def LookupSession_def mem_ops auth_world_sel auth_session_def sample_user_def logout_cookie)
  have "currentSID (mem_repos id) sample_env logout_request auth_world = (''s1'', auth_world)"
    by (simp add: currentSID_def LookupSession_def mem_ops auth_world_sel auth_session_def logout_cookie)
  then have "w_store (snd (handleEndSession (mem_repos id) sample_env logout_request auth_world)) \<noteq> w_store auth_world"
    by (simp add: handleEndSession_def parseEndSession_def logout_cookie checkEndSession_def parseHint_def logoutClient_def user
        finishLogout_def Let_def notifyBackChannel_def mem_ListSessionClients_def endBrowserSession_def End_session_def LookupSession_def
        mem_ops on_store_eq auth_world_sel auth_session_def sample_store_def NewStore_def range_map_def visit_def)
  with logout_guarded [OF auth_world_inv user prod.collapse [symmetric]] show ?thesis by blast
qed

text \<open>An environment whose key has signed the ID token of the sample code, and nothing else.\<close>

definition hint_claims :: claims where
  "hint_claims = id_token_claims (oidcIDToken (mem_repos id) sample_env sample_user ''rp'' [] []
     [''offline_access'', ''openid''] sample_store)"

definition hint_env :: env where
  "hint_env = sample_env\<lparr>SignJWT := (\<lambda>c. if c = hint_claims then Some ''jwt'' else None),
     ParseJWT := (\<lambda>raw. if raw = ''jwt'' then Some hint_claims else None)\<rparr>"

lemma hint_faithful: "jwt_faithful hint_env"
  by (simp add: jwt_faithful_def hint_env_def)

lemma hint_sel:
  "Now hint_env = Now sample_env" "Cfg hint_env = sample_config" "token_at hint_env k = token_at sample_env k" "ULID hint_env = dec"
  by (simp_all add: hint_env_def token_at_def)

lemma hint_signed: "SignIDToken hint_env (oidcIDToken (mem_repos id) hint_env sample_user ''rp'' [] []
    [''offline_access'', ''openid''] st) = Inr ''jwt''"
  by (simp add: SignIDToken_def oidcIDToken_def hint_sel) (simp add: hint_env_def hint_claims_def oidcIDToken_def)

lemma hint_code_ok: "rs_status (fst (handleToken (mem_repos id) hint_env code_request (token_world False))) = 200"
proof -
  have "VerifyS256 sample_verifier (HashToken sample_verifier) = Inr ()"
    by (simp add: VerifyS256_ok sample_verifier_def)
  then show ?thesis
    by (simp add: handleToken_def tokenAuthCode_def authenticateClient_def mem_ops token_world_def sample_client_def
        on_store_def sample_code_def code_error_def writeTokenResponse_def issueAccess_def issueRefresh_def
        random_Token_eq token_ok_def Let_def sample_store_def id_New_def hint_sel hint_signed)
qed

definition hint_link :: "string \<Rightarrow> request" where
  "hint_link idt = blank_request\<lparr>r_cookies := [(CookieName, ''ck'')], r_query := [(''id_token_hint'', [idt])]\<rparr>"

lemma hint_link_ok: "logout_link id hint_env sample_client idt hint_env (hint_link idt) auth_world sample_user"
proof -
  have "currentUser (mem_repos id) hint_env (hint_link idt) auth_world = (Some sample_user, auth_world)"
    by (simp add: currentUser_def Lookup_def LookupSession_def mem_ops auth_world_def auth_session_def sample_user_def
        hint_sel hint_link_def Cookie_def)
  then show ?thesis using auth_world_inv
    by (simp add: logout_link_def hint_link_def blank_request_def values_get_def sample_client_def auth_world_sel Let_def)
qed

theorem id_token_logs_out_witness:
  "\<exists>idt rs v. handleEndSession (mem_repos id) hint_env (hint_link idt) auth_world = (rs, v)
    \<and> gget (st_sessions (w_store v)) (HashToken ''ck'') = None"
proof -
  obtain rs w' where res: "handleToken (mem_repos id) hint_env code_request (token_world False) = (rs, w')" by fastforce
  then have "rs_status rs = 200" using hint_code_ok by simp
  from id_token_logs_out [OF token_world_inv res code_request_form(3) this hint_faithful] show ?thesis
    apply (elim exE conjE)
    subgoal premises prems for c row t idt ref
    proof -
      have c: "c = sample_client"
        using prems(1) by (simp add: authenticateClient_def mem_ops token_world_def sample_client_def sample_store_def)
      have row: "row = sample_code" using prems(2) by (simp add: token_world_def)
      have ids: "acUserID sample_code \<noteq> []" "uID sample_user = acUserID sample_code"
        "Cookie (hint_link idt) CookieName = Some ''ck''"
        by (simp_all add: sample_code_def sample_user_def hint_link_def Cookie_def)
      from prems(4) [unfolded c row, rule_format, OF hint_link_ok ids(1)] ids(2,3) obtain rs' v' where
        "handleEndSession (mem_repos id) hint_env (hint_link idt) auth_world = (rs', v')"
        "gget (st_sessions (w_store v')) = (gget (st_sessions (w_store auth_world)))(HashToken ''ck'' := None)"
        by auto
      then show ?thesis by (metis fun_upd_same)
    qed
    done
qed

end
