(* ===== verification/AdminInv.thy ===== *)
theory AdminInv
  imports TokenInv
begin

section \<open>Organizations, the admin API and the whole server keep the invariant\<close>

text \<open>
  The handlers of \<open>WebOrgs\<close>, \<open>WebAdmin\<close> and \<open>WebAdminOrgs\<close>, and the composition over the route
  table. The owner check (\<open>two_owners\<close>) is what keeps every organization owned.
\<close>

lemma ok_member_rows:
  assumes "astore_ok U n a" and "av_members a i u = Some m"
  shows "av_orgs a i \<noteq> None \<and> av_users a u \<noteq> None"
proof -
  have "av_members a i u \<noteq> None" using assms(2) by simp
  with assms(1) show ?thesis unfolding astore_ok_def refs_def by blast
qed

lemma ok_no_members:
  assumes "astore_ok U n a" and "av_orgs a i = None"
  shows "av_members a i = Map.empty"
proof
  fix u show "av_members a i u = None"
    using ok_member_rows [OF assms(1), of i u] assms(2) by (cases "av_members a i u") auto
qed

context repos_contract
begin

subsection \<open>Organizations\<close>

text \<open>A new organization with its owner, as both creating handlers write it.\<close>

lemma new_org_sys:
  assumes w: "sys_inv U w" and E: "ids_ok U E" and u: "av_users (abs (w_store w)) uid \<noteq> None"
    and org: "oID org = U (w_ids w)"
    and m: "m = \<lparr>mOrgID = U (w_ids w), mUserID = uid, mRole = OrgRoleOwner, mJoinedAt = t\<rparr>"
  defines "s1 \<equiv> snd (CreateOrganization (Organizations R) org (w_store w))"
  shows "fst (CreateOrganization (Organizations R) org (w_store w)) = Inr ()"
    and "fst (AddOrganizationMember (Organizations R) m s1) = Inr ()"
    and "sys_inv U (w\<lparr>w_ids := Suc (w_ids w), w_store := snd (AddOrganizationMember (Organizations R) m s1)\<rparr>)"
proof -
  note ok = sys_invD(2) [OF w]
  have free: "av_orgs (abs (w_store w)) (U (w_ids w)) = None" using ok by (simp add: ok_defs)
  have none: "av_members (abs (w_store w)) (U (w_ids w)) = Map.empty"
    by (rule ok_no_members [OF ok free])
  have c: "fst (CreateOrganization (Organizations R) org (w_store w)) = Inr ()" "inv s1"
    "abs s1 = (abs (w_store w))\<lparr>av_orgs := (av_orgs (abs (w_store w)))(U (w_ids w) \<mapsto> org)\<rparr>"
    using create_org [OF sys_invD(1) [OF w], of org] free org by (simp_all add: s1_def)
  have a: "fst (AddOrganizationMember (Organizations R) m s1) = Inr ()"
    "inv (snd (AddOrganizationMember (Organizations R) m s1))"
    "abs (snd (AddOrganizationMember (Organizations R) m s1)) =
      (abs (w_store w))\<lparr>av_orgs := (av_orgs (abs (w_store w)))(U (w_ids w) \<mapsto> org),
        av_members := (av_members (abs (w_store w)))(U (w_ids w) := [mUserID m \<mapsto> m])\<rparr>"
    using add_member [OF c(2), of m] u by (simp_all add: c(3) m none)
  show "fst (CreateOrganization (Organizations R) org (w_store w)) = Inr ()" by (rule c(1))
  show "fst (AddOrganizationMember (Organizations R) m s1) = Inr ()" by (rule a(1))
  show "sys_inv U (w\<lparr>w_ids := Suc (w_ids w), w_store := snd (AddOrganizationMember (Organizations R) m s1)\<rparr>)"
  proof (rule sys_step [OF w])
    show "astore_ok U (w_ids (w\<lparr>w_ids := Suc (w_ids w), w_store := snd (AddOrganizationMember (Organizations R) m s1)\<rparr>))
        (abs (w_store (w\<lparr>w_ids := Suc (w_ids w), w_store := snd (AddOrganizationMember (Organizations R) m s1)\<rparr>)))"
      using ok_new_org [OF ok, of m org] E u a(3) by (simp add: ids_ok_def m)
  qed (use a(2,3) in \<open>auto simp: grows_def\<close>)
qed

lemma Create_org_sys:
  assumes "sys_inv U w" and "ids_ok U E" and "av_users (abs (w_store w)) uid \<noteq> None"
  shows "sys_inv U (snd (Create_org R E uid name w))"
proof -
  have U: "ULID E = U" using assms(2) by (simp add: ids_ok_def)
  let ?org = "\<lparr>oID = U (w_ids w), oName = TrimSpace name, oCreatedAt = Now E\<rparr>"
  note n = new_org_sys [OF assms, of ?org, OF _ refl]
  show ?thesis
    using assms(1) n by (simp add: Create_org_def Let_def id_New_def on_store_eq U)
qed

lemma bearerUser_ok:
  assumes "inv s" and "bearerUser R E r s = Some b"
  shows "av_users (abs s) (uID (buUser b)) = Some (buUser b)" and "\<not> uDisabled (buUser b)"
    and "\<exists>t. av_access (abs s) (HashToken (bearer r)) = Some t \<and> Now E < atExpiresAt t \<and> atUserID t = uID (buUser b)"
proof -
  obtain t u where t: "av_access (abs s) (HashToken (bearer r)) = Some t" "Now E < atExpiresAt t"
    and u: "av_users (abs s) (atUserID t) = Some u" "\<not> uDisabled u" "b = \<lparr>buUser = u, buScopes = atScopes t\<rparr>"
    using assms(2) by (auto simp: bearerUser_def Let_def get_access get_by_id split: sum.splits if_splits)
  have "uID u = atUserID t" by (rule user_key [OF assms(1) u(1)])
  with t u show "av_users (abs s) (uID (buUser b)) = Some (buUser b)" and "\<not> uDisabled (buUser b)"
    and "\<exists>t. av_access (abs s) (HashToken (bearer r)) = Some t \<and> Now E < atExpiresAt t \<and> atUserID t = uID (buUser b)"
    by auto
qed

lemma handleCreateOrganization_sys:
  assumes "sys_inv U w" and "ids_ok U E"
  shows "sys_inv U (snd (handleCreateOrganization R E r w))"
proof -
  have "sys_inv U (snd (Create_org R E (uID (buUser b)) name w))" if "bearerUser R E r (w_store w) = Some b" for b name
    using Create_org_sys [OF assms] bearerUser_ok(1) [OF sys_invD(1) [OF assms(1)] that] by simp
  then show ?thesis using assms(1)
    by (auto simp: handleCreateOrganization_def split: option.split prod.split sum.split) (metis snd_conv)+
qed

lemma handleSetActiveOrg_sys:
  assumes "sys_inv U w"
  shows "sys_inv U (snd (handleSetActiveOrg R E r w))"
proof -
  obtain usr w1 where cu: "currentUser R E r w = (usr, w1)" by fastforce
  have w1: "sys_inv U w1" using currentUser_sys [OF assms, of E r] cu by simp
  have "sys_inv U (snd (SetActiveOrg R u h i w1))" for u h i by (rule set_active_sys [OF w1])
  then show ?thesis using cu w1
    by (auto simp: handleSetActiveOrg_def split: option.split prod.split sum.split) (metis snd_conv)+
qed

lemma handleSetActiveOrgAPI_sys:
  assumes "sys_inv U w"
  shows "sys_inv U (snd (handleSetActiveOrgAPI R E r w))"
proof -
  have "sys_inv U (snd (SetActiveOrgBySID R u h i w))" for u h i by (rule set_active_by_sid_sys [OF assms])
  then show ?thesis using assms
    by (auto simp: handleSetActiveOrgAPI_def Let_def split: option.split prod.split sum.split) (metis snd_conv)+
qed

lemma org_reads: "snd (handleListOrganizations R E r w) = w" "snd (handleListOrganizationMembers R E r w) = w"
  by (simp_all add: handleListOrganizations_def handleListOrganizationMembers_def split: option.split sum.split)

subsection \<open>The admin API\<close>

lemma asAdmin_sys: "sys_inv U w \<Longrightarrow> (sys_inv U w \<Longrightarrow> sys_inv U (snd (h w))) \<Longrightarrow> sys_inv U (snd (asAdmin E r h w))"
  by (simp add: asAdmin_def split: option.split)

lemma asAdmin_world: "snd (h w) = w \<Longrightarrow> snd (asAdmin E r h w) = w"
  by (simp add: asAdmin_def split: option.split)

lemma snd_fail [simp]: "snd (fail m c w) = w"
  by (simp add: fail_def)

lemma admin_reads:
  "snd (handleAdminListClients R E r w) = w" "snd (handleAdminGetClient R E r w) = w"
  "snd (handleAdminListUsers R E r w) = w" "snd (handleAdminListAudits R E r w) = w"
  "snd (handleAdminListOrganizations R E r w) = w" "snd (handleAdminGetOrganization R E r w) = w"
  "snd (handleAdminListOrganizationMembers R E r w) = w"
  by (simp_all add: asAdmin_world handleAdminListClients_def handleAdminGetClient_def handleAdminListUsers_def
      handleAdminListAudits_def handleAdminListOrganizations_def handleAdminGetOrganization_def
      handleAdminListOrganizationMembers_def notFoundOr500_def split: sum.split option.split)

lemma write_client_sys:
  assumes "sys_inv U w"
  shows "sys_inv U (snd (on_store (CreateClient (Clients R) c) w))"
    and "sys_inv U (snd (on_store (UpdateClient (Clients R) i p) w))"
    and "sys_inv U (snd (on_store (SetClientSecret (Clients R) i x) w))"
proof -
  note ok = sys_invD(2) [OF assms] and inv = sys_invD(1) [OF assms]
  have upd: "sys_inv U (w\<lparr>w_store := s\<rparr>)"
    if "inv s" "abs s = (abs (w_store w))\<lparr>av_clients := (av_clients (abs (w_store w)))(k \<mapsto> d)\<rparr>" for s k d
    using that ok_client [OF ok] by (auto intro!: sys_store [OF assms] simp: grows_def)
  show "sys_inv U (snd (on_store (CreateClient (Clients R) c) w))"
    using create_client_conflict [of "w_store w" c] create_client [OF inv, of c] assms upd
    by (cases "av_clients (abs (w_store w)) (cID c)") (auto simp: on_store_eq)
  show "sys_inv U (snd (on_store (UpdateClient (Clients R) i p) w))"
    using update_client_missing [of "w_store w" i p] update_client [OF inv] assms upd
    by (cases "av_clients (abs (w_store w)) i") (auto simp: on_store_eq)
  show "sys_inv U (snd (on_store (SetClientSecret (Clients R) i x) w))"
    using set_secret_missing [of "w_store w" i x] set_secret [OF inv] assms upd
    by (cases "av_clients (abs (w_store w)) i") (auto simp: on_store_eq)
qed

lemma storeNewClient_sys: "sys_inv U w \<Longrightarrow> sys_inv U (snd (storeNewClient R c p w))"
  using write_client_sys(1) [of U w c] by (auto simp: storeNewClient_def on_store_eq split: sum.split)

lemma client_id_sys: "sys_inv U w \<Longrightarrow> sys_inv U (snd (client_id_for E inp w))"
  using sys_ids [of U w "Suc (w_ids w)"] by (simp add: client_id_for_def Let_def id_New_def)

lemma clientSecret_sys: "sys_inv U w \<Longrightarrow> sys_inv U (snd (clientSecret E t w))"
  by (simp add: clientSecret_def random_Token_eq Hash_password_def Let_def split: option.split)

lemma handleAdminCreateClient_sys:
  assumes "sys_inv U w"
  shows "sys_inv U (snd (handleAdminCreateClient R E r w))"
proof -
  have step: "sys_inv U w2" if "client_id_for E inp w = (cid, w1)" "clientSecret E t w1 = (x, w2)" for inp cid w1 t x w2
    using client_id_sys [OF assms, of E inp] clientSecret_sys [of U w1 E t] that by simp
  have ids: "sys_inv U w1" if "client_id_for E inp w = (cid, w1)" for inp cid w1
    using client_id_sys [OF assms, of E inp] that by simp
  show ?thesis
    unfolding handleAdminCreateClient_def
    by (rule asAdmin_sys [OF assms])
      (auto simp: Let_def assms split: option.split prod.split sum.split intro: step ids storeNewClient_sys)
qed

lemma handleAdminUpdateClient_sys:
  "sys_inv U w \<Longrightarrow> sys_inv U (snd (handleAdminUpdateClient R E r w))"
  unfolding handleAdminUpdateClient_def using write_client_sys(2) [of U w "r_path_id r"]
  by (intro asAdmin_sys) (auto simp: Let_def on_store_eq split: option.split prod.split sum.split)

lemma handleAdminRotateSecret_sys:
  assumes "sys_inv U w"
  shows "sys_inv U (snd (handleAdminRotateSecret R E r w))"
proof -
  have "sys_inv U (w\<lparr>w_store := snd (SetClientSecret (Clients R) i x (w_store w))\<rparr>)" for i x
    using write_client_sys(3) [OF assms] by (simp add: on_store_eq)
  then have "sys_inv U (w\<lparr>w_draws := n, w_store := snd (SetClientSecret (Clients R) i x (w_store w))\<rparr>)" for i x n
    by (simp add: sys_inv_def)
  with assms show ?thesis
    unfolding handleAdminRotateSecret_def
    by (intro asAdmin_sys)
      (simp_all add: on_store_eq random_Token_eq Hash_password_def Let_def split: option.split sum.split)
qed

lemma handleAdminSetDisabled_sys:
  assumes "sys_inv U w"
  shows "sys_inv U (snd (handleAdminSetDisabled R E r w))"
proof -
  have "sys_inv U (w\<lparr>w_store := snd (SetUserDisabled (Users R) i b (w_store w))\<rparr>)" for i b
  proof (cases "av_users (abs (w_store w)) i")
    case None
    then show ?thesis using set_disabled_missing assms by simp
  next
    case (Some u)
    then show ?thesis
      using set_disabled [OF sys_invD(1) [OF assms] Some, of b] ok_user_row [OF sys_invD(2) [OF assms], of i]
      by (auto intro!: sys_store [OF assms] simp: grows_def)
  qed
  with assms show ?thesis
    unfolding handleAdminSetDisabled_def
    by (intro asAdmin_sys) (simp_all add: on_store_eq split: option.split sum.split)
qed

lemma resolveUser_ok:
  assumes "inv s" and "resolveUser R a b n m s = Inr uid"
  shows "av_users (abs s) uid \<noteq> None"
  using assms get_by_email [OF assms(1)]
  by (auto simp: resolveUser_def Let_def get_by_id split: if_splits sum.splits)

lemma handleAdminCreateOrganization_sys:
  assumes "sys_inv U w" and "ids_ok U E"
  shows "sys_inv U (snd (handleAdminCreateOrganization R E r w))"
proof -
  have U: "ULID E = U" using assms(2) by (simp add: ids_ok_def)
  have n: "fst (CreateOrganization (Organizations R) org (w_store w)) = Inr () \<and>
      fst (AddOrganizationMember (Organizations R) \<lparr>mOrgID = U (w_ids w), mUserID = uid, mRole = OrgRoleOwner, mJoinedAt = t\<rparr>
        (snd (CreateOrganization (Organizations R) org (w_store w)))) = Inr () \<and>
      sys_inv U (w\<lparr>w_ids := Suc (w_ids w), w_store := snd (AddOrganizationMember (Organizations R)
        \<lparr>mOrgID = U (w_ids w), mUserID = uid, mRole = OrgRoleOwner, mJoinedAt = t\<rparr>
        (snd (CreateOrganization (Organizations R) org (w_store w))))\<rparr>)"
    if "resolveUser R a b x y (w_store w) = Inr uid" "oID org = U (w_ids w)" for a b x y uid org t
    by (intro conjI) (rule new_org_sys [OF assms resolveUser_ok [OF sys_invD(1) [OF assms(1)] that(1)] that(2) refl])+
  show ?thesis
    unfolding handleAdminCreateOrganization_def
    by (rule asAdmin_sys [OF assms(1)])
      (auto simp: Let_def id_New_def on_store_eq U assms(1) n split: option.split sum.split)
qed

subsubsection \<open>Members\<close>

text \<open>The owners that \<open>countOrgOwners\<close> counts, and what its answer says of the store.\<close>

lemma two_owners:
  assumes "inv s" and "lastOwnerGuard R i msg s = None"
  shows "\<exists>v k. v \<noteq> u \<and> av_members (abs s) i v = Some k \<and> mRole k = OrgRoleOwner"
proof -
  obtain ms where ms: "ListOrganizationMembers (Organizations R) i s = Inr ms"
    "set ms = ran (av_members (abs s) i)" "distinct (map mUserID ms)"
    using list_members [OF assms(1), of i] by blast
  let ?os = "filter (\<lambda>m. mRole m = OrgRoleOwner) ms"
  have two: "2 \<le> length ?os"
    using assms(2) ms(1) by (auto simp: lastOwnerGuard_def countOrgOwners_def split: if_splits)
  then obtain a b os where ab: "?os = a # b # os" by (cases ?os; cases "tl ?os") auto
  have ne: "mUserID a \<noteq> mUserID b"
    using distinct_map_filter [OF ms(3), of "\<lambda>m. mRole m = OrgRoleOwner"] unfolding ab by simp
  have in_os: "m \<in> set ms \<and> mRole m = OrgRoleOwner" if "m \<in> {a, b}" for m
    using arg_cong [OF ab, of set] that by auto
  have row: "av_members (abs s) i (mUserID m) = Some m" if "m \<in> {a, b}" for m
    using in_os [OF that] member_key [OF assms(1)] unfolding ms(2) by (auto simp: ran_def)
  show ?thesis
  proof (cases "mUserID a = u")
    case True
    with ne row [of b] in_os [of b] show ?thesis by (intro exI [of _ "mUserID b"] exI [of _ b]) auto
  next
    case False
    with row [of a] in_os [of a] show ?thesis by (intro exI [of _ "mUserID a"] exI [of _ a]) auto
  qed
qed

text \<open>Who besides \<open>u\<close> owns an organization in which \<open>u\<close> is no owner: somebody.\<close>

lemma other_owner:
  assumes "sys_inv U w" and "av_members (abs (w_store w)) i u = Some m" and "mRole m \<noteq> OrgRoleOwner"
  shows "\<exists>v k. v \<noteq> u \<and> av_members (abs (w_store w)) i v = Some k \<and> mRole k = OrgRoleOwner"
proof -
  have "av_orgs (abs (w_store w)) i \<noteq> None" using ok_member_rows [OF sys_invD(2) [OF assms(1)] assms(2)] by simp
  then obtain v k where "av_members (abs (w_store w)) i v = Some k" "mRole k = OrgRoleOwner"
    using sys_invD(2) [OF assms(1)] unfolding astore_ok_def owned_def by blast
  with assms(2,3) show ?thesis by (metis option.inject)
qed

lemma handleAdminAddOrganizationMember_sys:
  assumes "sys_inv U w"
  shows "sys_inv U (snd (handleAdminAddOrganizationMember R E r w))"
proof -
  let ?i = "r_path_id r"
  have add: "sys_inv U (w\<lparr>w_store := snd (AddOrganizationMember (Organizations R) m (w_store w))\<rparr>)"
    if "av_orgs (abs (w_store w)) ?i = Some org" "resolveUser R a b x y (w_store w) = Inr (mUserID m)" "mOrgID m = ?i"
    for org a b x y m
  proof (cases "av_members (abs (w_store w)) ?i (mUserID m)")
    case None
    note u = resolveUser_ok [OF sys_invD(1) [OF assms] that(2)]
    show ?thesis
      using add_member [OF sys_invD(1) [OF assms], of m] ok_member [OF sys_invD(2) [OF assms], of ?i "mUserID m" m] None that u
      by (auto intro!: sys_store [OF assms] simp: grows_def)
  next
    case (Some m')
    then show ?thesis
      using add_member_conflict [OF sys_invD(1) [OF assms], of m m'] that sys_invD(2) [OF assms]
      by (auto intro!: sys_store [OF assms])
  qed
  show ?thesis
    unfolding handleAdminAddOrganizationMember_def
    by (rule asAdmin_sys [OF assms])
      (auto simp: on_store_eq assms get_org notFoundOr500_def add split: option.split sum.split)
qed

lemma handleAdminUpdateOrganizationMember_sys:
  assumes "sys_inv U w"
  shows "sys_inv U (snd (handleAdminUpdateOrganizationMember R E r w))"
proof -
  let ?i = "r_path_id r" and ?u = "r_path_user r"
  have upd: "sys_inv U (w\<lparr>w_store := snd (UpdateOrganizationMemberRole (Organizations R) ?i ?u role (w_store w))\<rparr>)"
    if m: "av_members (abs (w_store w)) ?i ?u = Some m"
      and g: "mRole m \<noteq> OrgRoleOwner \<or> role = OrgRoleOwner \<or>
        lastOwnerGuard R ?i ''cannot demote the last owner'' (w_store w) = None"
    for m role
  proof -
    have "role = OrgRoleOwner \<or> (\<exists>v k. v \<noteq> ?u \<and> av_members (abs (w_store w)) ?i v = Some k \<and> mRole k = OrgRoleOwner)"
      using g two_owners [OF sys_invD(1) [OF assms]] other_owner [OF assms m] by (cases "mRole m = OrgRoleOwner") auto
    moreover have "av_orgs (abs (w_store w)) ?i \<noteq> None" "av_users (abs (w_store w)) ?u \<noteq> None"
      using ok_member_rows [OF sys_invD(2) [OF assms] m] by simp_all
    ultimately show ?thesis
      using update_role [OF sys_invD(1) [OF assms] m, of role]
        ok_member [OF sys_invD(2) [OF assms], of ?i ?u "m\<lparr>mRole := role\<rparr>"]
      by (auto intro!: sys_store [OF assms] simp: grows_def)
  qed
  show ?thesis
    unfolding handleAdminUpdateOrganizationMember_def
    by (rule asAdmin_sys [OF assms])
      (auto simp: on_store_eq assms get_membership notFoundOr500_def upd split: option.split sum.split)
qed

lemma handleAdminRemoveOrganizationMember_sys:
  assumes "sys_inv U w"
  shows "sys_inv U (snd (handleAdminRemoveOrganizationMember R E r w))"
proof -
  let ?i = "r_path_id r" and ?u = "r_path_user r"
  have rem: "sys_inv U (w\<lparr>w_store := snd (RemoveOrganizationMember (Organizations R) ?i ?u (w_store w))\<rparr>)"
    if m: "av_members (abs (w_store w)) ?i ?u = Some m"
      and g: "mRole m \<noteq> OrgRoleOwner \<or> lastOwnerGuard R ?i ''cannot remove the last owner'' (w_store w) = None" for m
  proof -
    have "\<exists>v k. v \<noteq> ?u \<and> av_members (abs (w_store w)) ?i v = Some k \<and> mRole k = OrgRoleOwner"
      using g two_owners [OF sys_invD(1) [OF assms]] other_owner [OF assms m] by (cases "mRole m = OrgRoleOwner") auto
    then show ?thesis
      using remove_member [OF sys_invD(1) [OF assms] m] ok_remove_member [OF sys_invD(2) [OF assms], of ?u ?i]
      by (auto intro!: sys_store [OF assms] simp: grows_def)
  qed
  show ?thesis
    unfolding handleAdminRemoveOrganizationMember_def
    by (rule asAdmin_sys [OF assms])
      (auto simp: on_store_eq assms get_membership notFoundOr500_def rem split: option.split sum.split)
qed

subsection \<open>The server\<close>

lemma handle_route_sys:
  assumes "sys_inv U w" and "ids_ok U E"
  shows "sys_inv U (snd (handle_route R E keys rt r w))"
  using assms
  by (cases rt) (simp_all add: failForm_sys formPage_sys handleRegisterForm_def handleLoginForm_def
      handleRegister_sys handleLogin_sys handleLogout_sys handleEndSession_sys handleHome_sys
      handleAuthorize_sys handleConsent_sys handleToken_sys handleUserInfo_world org_reads admin_reads
      handleAdminCreateClient_sys handleAdminUpdateClient_sys handleAdminRotateSecret_sys
      handleAdminSetDisabled_sys handleAdminCreateOrganization_sys handleAdminAddOrganizationMember_sys
      handleAdminUpdateOrganizationMember_sys handleAdminRemoveOrganizationMember_sys
      handleCreateOrganization_sys handleSetActiveOrg_sys handleSetActiveOrgAPI_sys)

lemma serve_sys:
  assumes "sys_inv U w" and "ids_ok U E"
  shows "sys_inv U (snd (serve R E keys r w))"
proof -
  obtain rs w' where res: "serve R E keys r w = (rs, w')" by fastforce
  from serve_cases [OF res] show ?thesis
  proof (elim disjE exE conjE)
    fix rt vals assume "handle_route R E keys rt (with_path_values vals r) w = (rs, w')"
    with handle_route_sys [OF assms, of keys rt "with_path_values vals r"] res show ?thesis by simp
  qed (use res assms(1) in simp)
qed

end

end
