(* ===== verification/Seed.thy ===== *)
theory Seed
  imports WebJson
begin

section \<open>Seeding\<close>

text \<open>
  \<open>internal/seed\<close>, run by \<open>main.go\<close> at every start: the configured public clients are created or
  brought up to date, the demo account and its organization are created if they are missing. A client
  that exists keeps the addresses it has. \<open>unmarshal\<close> stands for reading the text of
  \<open>IDENTITY_SEED_EXTRA_CLIENTS\<close> as JSON; its decoding into entries is modelled.
\<close>

subsection \<open>Addresses\<close>

definition set_path :: "string \<Rightarrow> url \<Rightarrow> string" where
  "set_path p u = url_String (u\<lparr>url_Path := p\<rparr>)"

definition replaceCallbackPath :: "string \<Rightarrow> string \<Rightarrow> string res" where
  "replaceCallbackPath redirect path =
    (case ParseRedirectURI redirect of
       Inl e \<Rightarrow> Inl e
     | Inr u \<Rightarrow>
         let u = u\<lparr>url_RawQuery := [], url_Fragment := []\<rparr>;
             path = TrimPrefix path ''/'';
             callback = suffix ''/callback'' (url_Path u);
             sibling = TrimSuffix (url_Path u) ''/callback'' @ ''/'' @ path
         in if url_Scheme u = ''http'' \<or> url_Scheme u = ''https'' then
              Inr (set_path (if callback then sibling else ''/'' @ path) u)
            else if url_Host u \<noteq> [] \<and> url_Path u = [] then Inr (url_String (u\<lparr>url_Host := path\<rparr>))
            else if callback then Inr (set_path sibling u)
            else if url_Path u \<noteq> [] then Inr (set_path (url_Path u @ ''/'' @ path) u)
            else Inr (set_path (''/'' @ path) u))"

definition defaultPostLogoutURI :: "string \<Rightarrow> string res" where
  "defaultPostLogoutURI redirect = replaceCallbackPath redirect ''/logged-out''"

text \<open>The set \<open>seen\<close> of the loop always holds the items of \<open>out\<close>.\<close>

fun union_loop :: "string list \<Rightarrow> string list \<Rightarrow> string list" where
  "union_loop out [] = out"
| "union_loop out (item # rest) = (if item \<in> set out then union_loop out rest else union_loop (out @ [item]) rest)"

definition unionExact :: "string list \<Rightarrow> string list \<Rightarrow> string list" where
  "unionExact have_items add = union_loop have_items add"

definition sameStrings :: "string list \<Rightarrow> string list \<Rightarrow> bool" where
  "sameStrings a b \<longleftrightarrow> length a = length b \<and> list_all (\<lambda>(x, y). x = y) (zip a b)"

lemma sameStrings_iff [simp]: "sameStrings a b \<longleftrightarrow> a = b"
proof -
  have "length a = length b \<Longrightarrow> list_all (\<lambda>(x, y). x = y) (zip a b) \<longleftrightarrow> a = b"
    by (induction a b rule: list_induct2) auto
  then show ?thesis by (auto simp: sameStrings_def)
qed

subsection \<open>Clients\<close>

text \<open>The client that a seed asks for.\<close>

definition wantedClient :: "string \<Rightarrow> string \<Rightarrow> string \<Rightarrow> string \<Rightarrow> client res" where
  "wantedClient i name redirect postLogout =
    (case (if postLogout = [] then defaultPostLogoutURI redirect else Inr postLogout) of
       Inl e \<Rightarrow> Inl e
     | Inr post \<Rightarrow>
    case replaceCallbackPath redirect ''/frontchannel-logout'' of
       Inl e \<Rightarrow> Inl e
     | Inr front \<Rightarrow>
    case replaceCallbackPath redirect ''/backchannel-logout'' of
       Inl e \<Rightarrow> Inl e
     | Inr back \<Rightarrow>
         Inr \<lparr>cID = i, cName = name, cType = ClientPublic, cSecretHash = [], cRedirectURIs = [redirect],
              cPostLogoutRedirectURIs = [post], cFrontChannelLogoutURI = front, cBackChannelLogoutURI = back,
              cTokenEndpointAuth = []\<rparr>)"

definition seed_patch :: "client \<Rightarrow> client \<Rightarrow> client_patch" where
  "seed_patch existing want =
    \<lparr>pName = cName want, pRedirectURIs = unionExact (cRedirectURIs existing) (cRedirectURIs want),
     pPostLogoutRedirectURIs = unionExact (cPostLogoutRedirectURIs existing) (cPostLogoutRedirectURIs want),
     pFrontChannelLogoutURI = cFrontChannelLogoutURI want, pBackChannelLogoutURI = cBackChannelLogoutURI want\<rparr>"

definition up_to_date :: "client \<Rightarrow> client \<Rightarrow> bool" where
  "up_to_date existing want \<longleftrightarrow>
    cName existing = cName want \<and>
    sameStrings (cRedirectURIs existing) (pRedirectURIs (seed_patch existing want)) \<and>
    sameStrings (cPostLogoutRedirectURIs existing) (pPostLogoutRedirectURIs (seed_patch existing want)) \<and>
    cFrontChannelLogoutURI existing = cFrontChannelLogoutURI want \<and>
    cBackChannelLogoutURI existing = cBackChannelLogoutURI want"

definition upsertPublicClient ::
  "'s clients_if \<Rightarrow> string \<Rightarrow> string \<Rightarrow> string \<Rightarrow> string \<Rightarrow> 's \<Rightarrow> unit res \<times> 's" where
  "upsertPublicClient C i name redirect postLogout s =
    (case wantedClient i name redirect postLogout of
       Inl e \<Rightarrow> (Inl e, s)
     | Inr want \<Rightarrow>
    case GetClient C i s of
       Inr existing \<Rightarrow>
         if up_to_date existing want then (Inr (), s)
         else UpdateClient C (cID existing) (seed_patch existing want) s
     | Inl e \<Rightarrow> if e \<noteq> ErrNotFound then (Inl e, s) else CreateClient C want s)"

definition PublicClient :: "'s clients_if \<Rightarrow> config \<Rightarrow> 's \<Rightarrow> unit res \<times> 's" where
  "PublicClient C cfg s =
    (if SeedPublicClientID cfg = [] then (Inr (), s)
     else if SeedPublicRedirect cfg = [] then
       (Inl (ErrOther ''IDENTITY_SEED_PUBLIC_REDIRECT_URI is required when seeding a public client''), s)
     else upsertPublicClient C (SeedPublicClientID cfg) (SeedPublicClientName cfg) (SeedPublicRedirect cfg)
       (SeedPublicPostLogout cfg) s)"

definition DemoRPB :: "'s clients_if \<Rightarrow> config \<Rightarrow> 's \<Rightarrow> unit res \<times> 's" where
  "DemoRPB C cfg s =
    (if SeedDemoRPBRedirect cfg = [] then (Inr (), s)
     else
       upsertPublicClient C
         (if SeedDemoRPBClientID cfg = [] then ''sample-rp-b'' else SeedDemoRPBClientID cfg)
         (if SeedDemoRPBClientName cfg = [] then ''Sample RP B'' else SeedDemoRPBClientName cfg)
         (SeedDemoRPBRedirect cfg) (SeedDemoRPBPostLogout cfg) s)"

record extra_client =
  xcID :: string
  xcName :: string
  xcRedirectURI :: string
  xcPostLogout :: string

definition extra_fields :: "extra_client fields" where
  "extra_fields =
    [field ''id'' decode_string xcID xcID_update, field ''name'' decode_string xcName xcName_update,
     field ''redirectUri'' decode_string xcRedirectURI xcRedirectURI_update,
     field ''postLogoutRedirectUri'' decode_string xcPostLogout xcPostLogout_update]"

fun decode_extras :: "json list \<Rightarrow> extra_client list option" where
  "decode_extras [] = Some []"
| "decode_extras (j # js) =
    (case decode_struct False extra_fields j \<lparr>xcID = [], xcName = [], xcRedirectURI = [], xcPostLogout = []\<rparr> of
       None \<Rightarrow> None
     | Some x \<Rightarrow> map_option (Cons x) (decode_extras js))"

definition extra_list :: "json \<Rightarrow> extra_client list option" where
  "extra_list j = (case j of JNull \<Rightarrow> Some [] | JArr js \<Rightarrow> decode_extras js | _ \<Rightarrow> None)"

fun seed_extras :: "'s clients_if \<Rightarrow> extra_client list \<Rightarrow> 's \<Rightarrow> unit res \<times> 's" where
  "seed_extras C [] s = (Inr (), s)"
| "seed_extras C (item # rest) s =
    (let i = TrimSpace (xcID item); redirect = TrimSpace (xcRedirectURI item); name = TrimSpace (xcName item) in
     if i = [] \<or> redirect = [] then
       (Inl (ErrOther ''IDENTITY_SEED_EXTRA_CLIENTS entries need id and redirectUri''), s)
     else case upsertPublicClient C i (if name = [] then i else name) redirect (TrimSpace (xcPostLogout item)) s of
       (Inl e, s) \<Rightarrow> (Inl e, s)
     | (Inr _, s) \<Rightarrow> seed_extras C rest s)"

definition ExtraClients :: "(string \<Rightarrow> json option) \<Rightarrow> 's clients_if \<Rightarrow> config \<Rightarrow> 's \<Rightarrow> unit res \<times> 's" where
  "ExtraClients unmarshal C cfg s =
    (let raw = TrimSpace (SeedExtraClientsJSON cfg) in
     if raw = [] then (Inr (), s)
     else case (case unmarshal raw of None \<Rightarrow> None | Some j \<Rightarrow> extra_list j) of
       None \<Rightarrow> (Inl (ErrOther ''json''), s)
     | Some xs \<Rightarrow> seed_extras C xs s)"

subsection \<open>The demo account and its organization\<close>

definition DemoUser :: "'s users_if \<Rightarrow> env \<Rightarrow> 's world \<Rightarrow> unit res \<times> 's world" where
  "DemoUser U E w =
    (let cfg = Cfg E in
     if SeedDemoEmail cfg = [] then (Inr (), w)
     else if TrimSpace (SeedDemoPassword cfg) = [] then
       (Inl (ErrOther ''IDENTITY_SEED_DEMO_PASSWORD is required when seeding a demo user''), w)
     else case Register U E \<lparr>rEmail = SeedDemoEmail cfg, rPassword = SeedDemoPassword cfg, rName = SeedDemoName cfg\<rparr> w of
       (Inr _, w) \<Rightarrow> (Inr (), w)
     | (Inl e, w) \<Rightarrow> if e = ErrConflict then (Inr (), w) else (Inl e, w))"

definition seed_org :: "'s repos \<Rightarrow> env \<Rightarrow> string \<Rightarrow> string \<Rightarrow> 's world \<Rightarrow> unit res \<times> 's world" where
  "seed_org R E actorID name w =
    (let (oid, w) = id_New E w;
         org = \<lparr>oID = oid, oName = name, oCreatedAt = Now E\<rparr>
     in case on_store (CreateOrganization (Organizations R) org) w of
          (Inl e, w) \<Rightarrow> (Inl e, w)
        | (Inr _, w) \<Rightarrow>
            on_store (AddOrganizationMember (Organizations R)
              \<lparr>mOrgID = oid, mUserID = actorID, mRole = OrgRoleOwner, mJoinedAt = Now E\<rparr>) w)"

definition DemoOrganization :: "'s repos \<Rightarrow> env \<Rightarrow> 's world \<Rightarrow> unit res \<times> 's world" where
  "DemoOrganization R E w =
    (if SeedDemoEmail (Cfg E) = [] then (Inr (), w)
     else case GetByEmail (Users R) (SeedDemoEmail (Cfg E)) (w_store w) of
       Inl e \<Rightarrow> (Inr (), w)
     | Inr u \<Rightarrow>
    case ListOrganizationsForUser (Organizations R) (uID u) (w_store w) of
       Inl e \<Rightarrow> (Inl e, w)
     | Inr orgs \<Rightarrow>
         if orgs \<noteq> [] then (Inr (), w)
         else seed_org R E (uID u) ''Demo Organization'' w)"

subsection \<open>The start of the process\<close>

definition and_then :: "('w \<Rightarrow> unit res \<times> 'w) \<Rightarrow> ('w \<Rightarrow> unit res \<times> 'w) \<Rightarrow> 'w \<Rightarrow> unit res \<times> 'w" where
  "and_then f g w = (case f w of (Inl e, w) \<Rightarrow> (Inl e, w) | (Inr _, w) \<Rightarrow> g w)"

text \<open>The five seeds of \<open>main\<close>, the process ends at the first error.\<close>

definition seed_all :: "(string \<Rightarrow> json option) \<Rightarrow> 's repos \<Rightarrow> env \<Rightarrow> 's world \<Rightarrow> unit res \<times> 's world" where
  "seed_all unmarshal R E =
    and_then (on_store (PublicClient (Clients R) (Cfg E)))
   (and_then (on_store (DemoRPB (Clients R) (Cfg E)))
   (and_then (on_store (ExtraClients unmarshal (Clients R) (Cfg E)))
   (and_then (DemoUser (Users R) E)
             (DemoOrganization R E))))"

end
