(* ===== verification/SeedInv.thy ===== *)
theory SeedInv
  imports AdminInv Seed
begin

section \<open>What seeding does\<close>

text \<open>
  Over any store: a seeded client ends up with the wanted name and logout addresses, keeps the
  redirect addresses it had and gains the wanted ones, and seeding it again changes nothing; the
  whole start-up sequence keeps the invariant of the server.
\<close>

lemma union_loop_set [simp]: "set (union_loop out add) = set out \<union> set add"
  by (induction out add rule: union_loop.induct) auto

lemma union_loop_prefix: "prefix out (union_loop out add)"
  by (induction out add rule: union_loop.induct) (auto intro: append_prefixD)

lemma union_loop_id: "set add \<subseteq> set out \<Longrightarrow> union_loop out add = out"
  by (induction out add rule: union_loop.induct) auto

lemma unionExact_again: "unionExact (unionExact xs add) add = unionExact xs add"
  by (simp add: unionExact_def union_loop_id)

text \<open>The row of a client after it was seeded.\<close>

definition seeded_row :: "client option \<Rightarrow> client \<Rightarrow> client" where
  "seeded_row old want =
    (case old of
       None \<Rightarrow> want
     | Some c \<Rightarrow> c\<lparr>cName := cName want, cRedirectURIs := unionExact (cRedirectURIs c) (cRedirectURIs want),
         cPostLogoutRedirectURIs := unionExact (cPostLogoutRedirectURIs c) (cPostLogoutRedirectURIs want),
         cFrontChannelLogoutURI := cFrontChannelLogoutURI want,
         cBackChannelLogoutURI := cBackChannelLogoutURI want\<rparr>)"

lemma up_to_date_row: "up_to_date c want \<longleftrightarrow> seeded_row (Some c) want = c"
  by (cases c) (auto simp: up_to_date_def seeded_row_def seed_patch_def)

lemma seeded_twice: "seeded_row (Some (seeded_row old want)) want = seeded_row old want"
  by (cases old) (auto simp: seeded_row_def unionExact_again unionExact_def union_loop_id)

lemma wantedClient_id: "wantedClient i name redirect post = Inr want \<Longrightarrow> cID want = i \<and> cRedirectURIs want = [redirect]"
  by (auto simp: wantedClient_def split: sum.splits)

context clients_repo
begin

lemma upsert_ok:
  assumes inv: "inv s" and want: "wantedClient i name redirect post = Inr want"
  shows "fst (upsertPublicClient C i name redirect post s) = Inr ()"
    and "inv (snd (upsertPublicClient C i name redirect post s))"
    and "abs (snd (upsertPublicClient C i name redirect post s)) =
      (abs s)\<lparr>av_clients := (av_clients (abs s))(i \<mapsto> seeded_row (av_clients (abs s) i) want)\<rparr>"
proof -
  have id: "cID want = i" using wantedClient_id [OF want] by simp
  have "fst (upsertPublicClient C i name redirect post s) = Inr () \<and>
    inv (snd (upsertPublicClient C i name redirect post s)) \<and>
    abs (snd (upsertPublicClient C i name redirect post s)) =
      (abs s)\<lparr>av_clients := (av_clients (abs s))(i \<mapsto> seeded_row (av_clients (abs s) i) want)\<rparr>"
  proof (cases "av_clients (abs s) i")
    case None
    with create_client [OF inv, of want] want id show ?thesis
      by (simp add: upsertPublicClient_def get_client seeded_row_def)
  next
    case (Some c)
    have c: "cID c = i" by (rule client_key [OF inv Some])
    show ?thesis
    proof (cases "up_to_date c want")
      case True
      then have "seeded_row (Some c) want = c" by (simp add: up_to_date_row)
      moreover have "(abs s)\<lparr>av_clients := (av_clients (abs s))(i \<mapsto> c)\<rparr> = abs s"
        using Some by (cases "abs s") (simp add: fun_upd_idem)
      ultimately show ?thesis using Some want inv True by (simp add: upsertPublicClient_def get_client)
    next
      case False
      with update_client [OF inv Some, of "seed_patch c want"] want Some c show ?thesis
        by (simp add: upsertPublicClient_def get_client seeded_row_def seed_patch_def)
    qed
  qed
  then show "fst (upsertPublicClient C i name redirect post s) = Inr ()"
    and "inv (snd (upsertPublicClient C i name redirect post s))"
    and "abs (snd (upsertPublicClient C i name redirect post s)) =
      (abs s)\<lparr>av_clients := (av_clients (abs s))(i \<mapsto> seeded_row (av_clients (abs s) i) want)\<rparr>"
    by blast+
qed

lemma upsert_bad: "wantedClient i name redirect post = Inl e \<Longrightarrow> upsertPublicClient C i name redirect post s = (Inl e, s)"
  by (simp add: upsertPublicClient_def)

lemma upsert_again:
  assumes inv: "inv s" and ok: "upsertPublicClient C i name redirect post s = (Inr (), s')"
  shows "upsertPublicClient C i name redirect post s' = (Inr (), s')"
proof (cases "wantedClient i name redirect post")
  case (Inl e)
  then show ?thesis using ok upsert_bad by simp
next
  case (Inr want)
  note u = upsert_ok [OF inv Inr, unfolded ok]
  have row: "av_clients (abs s') i = Some (seeded_row (av_clients (abs s) i) want)" using u(3) by simp
  have "up_to_date (seeded_row (av_clients (abs s) i) want) want" by (simp add: up_to_date_row seeded_twice)
  with row Inr show ?thesis by (simp add: upsertPublicClient_def get_client)
qed

end

context repos_contract
begin

lemma upsert_sys:
  assumes "sys_inv U w"
  shows "sys_inv U (snd (on_store (upsertPublicClient (Clients R) i name redirect post) w))"
proof (cases "wantedClient i name redirect post")
  case (Inl e)
  then show ?thesis using assms upsert_bad by (simp add: on_store_eq)
next
  case (Inr want)
  show ?thesis
    using upsert_ok [OF sys_invD(1) [OF assms] Inr] ok_client [OF sys_invD(2) [OF assms]]
    by (auto intro!: sys_store [OF assms] simp: grows_def)
qed

lemma seed_extras_sys: "sys_inv U w \<Longrightarrow> sys_inv U (snd (on_store (seed_extras (Clients R) xs) w))"
proof (induction xs arbitrary: w)
  case (Cons x xs)
  let ?i = "TrimSpace (xcID x)"
  let ?f = "upsertPublicClient (Clients R) ?i (if TrimSpace (xcName x) = [] then ?i else TrimSpace (xcName x))
      (TrimSpace (xcRedirectURI x)) (TrimSpace (xcPostLogout x))"
  obtain res s1 where f: "?f (w_store w) = (res, s1)" by fastforce
  have s1: "sys_inv U (w\<lparr>w_store := s1\<rparr>)"
    using upsert_sys [OF Cons.prems, of ?i "if TrimSpace (xcName x) = [] then ?i else TrimSpace (xcName x)"
      "TrimSpace (xcRedirectURI x)" "TrimSpace (xcPostLogout x)"] by (simp only: on_store_eq f snd_conv)
  from Cons.IH [OF s1] s1 Cons.prems show ?case
    by (cases res) (simp_all only: on_store_eq seed_extras.simps Let_def f prod.case sum.case snd_conv fst_conv
      split: if_split, simp_all)
qed (simp add: on_store_eq)

lemma and_then_sys:
  "sys_inv U w \<Longrightarrow> (\<And>w. sys_inv U w \<Longrightarrow> sys_inv U (snd (f w))) \<Longrightarrow> (\<And>w. sys_inv U w \<Longrightarrow> sys_inv U (snd (g w))) \<Longrightarrow>
    sys_inv U (snd (and_then f g w))"
  by (auto simp: and_then_def split: prod.split sum.split) (metis snd_conv)+

lemma DemoUser_sys: "sys_inv U w \<Longrightarrow> ids_ok U E \<Longrightarrow> sys_inv U (snd (DemoUser (Users R) E w))"
  using Register_sys [of U w E "\<lparr>rEmail = SeedDemoEmail (Cfg E), rPassword = SeedDemoPassword (Cfg E), rName = SeedDemoName (Cfg E)\<rparr>"]
  by (auto simp: DemoUser_def Let_def split: prod.split sum.split)

lemma DemoOrganization_sys:
  assumes "sys_inv U w" and "ids_ok U E"
  shows "sys_inv U (snd (DemoOrganization R E w))"
proof -
  have U: "ULID E = U" using assms(2) by (simp add: ids_ok_def)
  have "sys_inv U (snd (seed_org R E (uID u) name w))" if "GetByEmail (Users R) e (w_store w) = Inr u" for u e name
  proof -
    have "av_users (abs (w_store w)) (uID u) \<noteq> None" using that get_by_email [OF sys_invD(1) [OF assms(1)]] by simp
    note n = new_org_sys [OF assms this, of "\<lparr>oID = U (w_ids w), oName = name, oCreatedAt = Now E\<rparr>", OF _ refl]
    show ?thesis using n by (simp add: seed_org_def Let_def id_New_def on_store_eq U)
  qed
  then show ?thesis using assms(1) by (simp add: DemoOrganization_def split: sum.split)
qed

lemma seed_all_sys:
  assumes "sys_inv U w" and "ids_ok U E"
  shows "sys_inv U (snd (seed_all unmarshal R E w))"
proof -
  have clients: "sys_inv U (snd (on_store (PublicClient (Clients R) (Cfg E)) w))"
    "sys_inv U (snd (on_store (DemoRPB (Clients R) (Cfg E)) w))"
    "sys_inv U (snd (on_store (ExtraClients unmarshal (Clients R) (Cfg E)) w))" if "sys_inv U w" for w
    using that upsert_sys [OF that] seed_extras_sys [OF that]
    by (simp_all add: PublicClient_def DemoRPB_def ExtraClients_def Let_def on_store_eq split: option.split)
  show ?thesis
    unfolding seed_all_def
    by (intro and_then_sys assms clients DemoUser_sys DemoOrganization_sys)
qed

end

end
