(* ===== verification/Divergences.thy ===== *)
theory Divergences
  imports WebProps SeedInv UrlProps
begin

section \<open>Behaviour that differs from what the code seems to intend\<close>

text \<open>
  Facts about the code as it is that the rest of it, or its comments, lead one not to expect: errors of
  the authorization endpoint go to addresses nobody registered, two removals can take the last two
  owners of an organization, the token that replaces a reused one can outlive the revocation of its
  family, and the token endpoint serves accounts that were disabled.
\<close>

subsection \<open>Redirects before the client is known\<close>

text \<open>The query \<open>q\<close> of an error answer: the error, its description and the state, and the rest as in \<open>q0\<close>.\<close>

definition error_query :: "url_values \<Rightarrow> string \<Rightarrow> string \<Rightarrow> string \<Rightarrow> url_values \<Rightarrow> bool" where
  "error_query q0 code desc state q \<longleftrightarrow>
    values_get q ''error'' = code \<and> values_get q ''error_description'' = desc
    \<and> (state \<noteq> [] \<longrightarrow> values_get q ''state'' = state)
    \<and> (\<forall>k. k \<notin> {''error'', ''error_description''} \<longrightarrow> (k = ''state'' \<longrightarrow> state = []) \<longrightarrow> values_get q k = values_get q0 k)"

lemma oauthFail_redirects:
  assumes "uri \<noteq> []" and "url_Parse uri = Some u"
  shows "\<exists>q. oauthFail r uri st code desc rs = http_Redirect r (url_String (u\<lparr>url_RawQuery := q\<rparr>)) 302 rs
    \<and> error_query (url_Query u) code desc st (ParseQuery q)"
proof -
  define p where "p = (if st \<noteq> [] then values_set ''state'' st else (\<lambda>q. q))
    (values_set ''error_description'' desc (values_set ''error'' code (url_Query u)))"
  have ok: "gmap_ok p" using gmap_ok_ParseQuery by (simp add: p_def gmap_ok_values url_Query_def)
  have "oauthFail r uri st code desc rs = http_Redirect r (url_String (u\<lparr>url_RawQuery := values_Encode p\<rparr>)) 302 rs"
    using assms by (simp add: oauthFail_def Let_def p_def)
  moreover have "error_query (url_Query u) code desc st p"
    by (auto simp: error_query_def values_get_of p_def)
  then have "error_query (url_Query u) code desc st (ParseQuery (values_Encode p))"
    unfolding error_query_def values_get_Encode [OF ok] .
  ultimately show ?thesis by blast
qed

text \<open>The errors that the endpoint finds before it looks up the client.\<close>

definition early_error :: "request \<Rightarrow> bool" where
  "early_error r \<longleftrightarrow> values_get (r_query r) ''response_type'' \<noteq> ''code''
    \<or> values_get (r_query r) ''code_challenge_method'' \<noteq> ChallengeS256 \<or> values_get (r_query r) ''code_challenge'' = []"

text \<open>
  C40. A request with a wrong response type or without an S256 challenge is answered before the client is
  looked up, with a redirect to whatever \<open>redirect_uri\<close> it names, as long as that parses: the client
  and its registered addresses play no part. The query of the redirect carries the error, its
  description and the state, and otherwise what the address had. From there on the address counts:
  with no client, or one that did not register it, the answer is a plain 400. Nothing changes either way.
\<close>

theorem authorize_redirects_unregistered:
  assumes "values_get (r_query r) ''redirect_uri'' \<noteq> []"
    and "url_Parse (values_get (r_query r) ''redirect_uri'') = Some u"
  shows "(early_error r \<longrightarrow> (\<exists>q code desc.
      handleAuthorize R E r w = (http_Redirect r (url_String (u\<lparr>url_RawQuery := q\<rparr>)) 302 new_response, w)
    \<and> error_query (url_Query u) code desc (values_get (r_query r) ''state'') (ParseQuery q)
    \<and> (code, desc) = (if values_get (r_query r) ''response_type'' \<noteq> ''code''
        then (''unsupported_response_type'', ''only response_type=code is supported'')
        else (''invalid_request'', ''PKCE S256 is required''))))
    \<and> (\<not> early_error r \<longrightarrow>
      (\<forall>c. GetClient (Clients R) (values_get (r_query r) ''client_id'') (w_store w) = Inr c \<longrightarrow>
        values_get (r_query r) ''redirect_uri'' \<notin> set (cRedirectURIs c)) \<longrightarrow>
      (\<exists>msg. handleAuthorize R E r w = (http_Error msg 400 new_response, w)))"
proof (intro conjI impI)
  obtain code desc where cd: "(code, desc) = (if values_get (r_query r) ''response_type'' \<noteq> ''code''
        then (''unsupported_response_type'', ''only response_type=code is supported'')
        else (''invalid_request'', ''PKCE S256 is required''))" by (metis surj_pair)
  assume "early_error r"
  then have "handleAuthorize R E r w =
      (oauthFail r (values_get (r_query r) ''redirect_uri'') (values_get (r_query r) ''state'') code desc new_response, w)"
    using cd by (auto simp: handleAuthorize_def checkAuthorize_def Let_def early_error_def split: if_splits)
  with oauthFail_redirects [OF assms, of r "values_get (r_query r) ''state''" code desc new_response] cd
  show "\<exists>q code desc. handleAuthorize R E r w = (http_Redirect r (url_String (u\<lparr>url_RawQuery := q\<rparr>)) 302 new_response, w)
    \<and> error_query (url_Query u) code desc (values_get (r_query r) ''state'') (ParseQuery q)
    \<and> (code, desc) = (if values_get (r_query r) ''response_type'' \<noteq> ''code''
        then (''unsupported_response_type'', ''only response_type=code is supported'')
        else (''invalid_request'', ''PKCE S256 is required''))"
    by metis
next
  assume "\<not> early_error r" and "\<forall>c. GetClient (Clients R) (values_get (r_query r) ''client_id'') (w_store w) = Inr c \<longrightarrow>
    values_get (r_query r) ''redirect_uri'' \<notin> set (cRedirectURIs c)"
  then show "\<exists>msg. handleAuthorize R E r w = (http_Error msg 400 new_response, w)"
    by (auto simp: handleAuthorize_def checkAuthorize_def Let_def early_error_def RedirectURIExact_iff split: sum.split)
qed

text \<open>The login page accepts such a request as the place to continue at.\<close>

lemma continue_to_unregistered:
  "safeContinue ''/authorize?response_type=x&redirect_uri=https://evil/'' \<noteq> []"
  by code_simp

definition evil_request :: request where
  "evil_request = blank_request\<lparr>r_query := [(''response_type'', [''x'']), (''redirect_uri'', [''https://evil/''])]\<rparr>"

theorem authorize_redirects_unregistered_witness:
  "\<exists>u q. url_Host u = ''evil'' \<and> handleAuthorize (mem_repos id) sample_env evil_request sample_world =
    (http_Redirect evil_request (url_String (u\<lparr>url_RawQuery := q\<rparr>)) 302 new_response, sample_world)"
proof -
  have "case url_Parse ''https://evil/'' of None \<Rightarrow> False | Some u \<Rightarrow> url_Host u = ''evil''" by code_simp
  then obtain u where u: "url_Parse ''https://evil/'' = Some u" "url_Host u = ''evil''" by (auto split: option.splits)
  have q: "values_get (r_query evil_request) ''redirect_uri'' = ''https://evil/''" "early_error evil_request"
    by (simp_all add: evil_request_def values_get_def early_error_def)
  show ?thesis
    using authorize_redirects_unregistered [of evil_request u "mem_repos id" sample_env sample_world] q u by auto
qed

subsection \<open>The last two owners\<close>

text \<open>The two owners of an organization, whose removals are both checked before either is written.\<close>

definition two_owner_store :: store where
  "two_owner_store = sample_store\<lparr>st_orgs := [(''o'', \<lparr>oID = ''o'', oName = ''Org'', oCreatedAt = 0\<rparr>)],
     st_orgMembers := [(''o'', map (\<lambda>u. (u, \<lparr>mOrgID = ''o'', mUserID = u, mRole = OrgRoleOwner, mJoinedAt = 0\<rparr>)) [''u1'', ''u2''])]\<rparr>"

lemma owner_checks_race:
  shows "lastOwnerGuard (mem_repos id) ''o'' msg two_owner_store = None"
    and "gget (st_orgMembers (snd (mem_RemoveOrganizationMember ''o'' ''u2'' (snd (mem_RemoveOrganizationMember ''o'' ''u1'' two_owner_store))))) ''o'' = Some []"
  by (simp_all add: lastOwnerGuard_def countOrgOwners_def mem_ListOrganizationMembers_def two_owner_store_def range_vals_def range_map_def visit_def mem_RemoveOrganizationMember_def)

subsection \<open>Reuse that is noticed too early\<close>

text \<open>
  A refresh takes the presented token in one store call and stores its successor in a later one. A second
  request with the same token that comes in between is refused and revokes the family, but the
  successor is not there yet: it is stored afterwards, is not revoked, and can be taken.
\<close>

lemma reuse_revocation_race:
  assumes "gget (st_refresh st) h = Some row" and "\<not> rtRevoked row"
    and "rtFamilyID next_row = rtFamilyID row" and "\<not> rtRevoked next_row"
  defines "taken \<equiv> snd (mem_TakeRefresh h st)"
  defines "revoked \<equiv> snd (mem_RevokeFamily (rtFamilyID row) (snd (mem_TakeRefresh h taken)))"
  shows "fst (mem_TakeRefresh h st) = Inr (row\<lparr>rtRevoked := True\<rparr>)"
    and "fst (mem_TakeRefresh h taken) = Inl ErrUsed"
    and "fst (mem_TakeRefresh (rtHash next_row) (snd (mem_PutRefresh next_row revoked))) =
      Inr (next_row\<lparr>rtRevoked := True\<rparr>)"
  using assms(1,2,4)
  by (simp_all add: taken_def revoked_def mem_TakeRefresh_def mem_RevokeFamily_def mem_PutRefresh_def Let_def)

subsection \<open>Disabled accounts\<close>

text \<open>
  A disabled account cannot log in, its sessions and its bearer tokens at the organization API are
  refused, but its refresh tokens still yield new tokens and its access tokens still open \<open>/userinfo\<close>.
\<close>

definition disabled_world :: "store world" where
  "disabled_world = (token_world False)\<lparr>w_store := (w_store (token_world False))\<lparr>
     st_users := [(''u1'', sample_user\<lparr>uDisabled := True\<rparr>)]\<rparr>\<rparr>"

lemma disabled_user_refreshes:
  "rs_status (fst (handleToken (mem_repos it) sample_env refresh_request disabled_world)) = 200"
  by (simp add: disabled_world_def handleToken_def tokenRefresh_def authenticateClient_def mem_ops token_world_def
      sample_client_def on_store_def sample_refresh_def writeTokenResponse_def issueAccess_def issueRefresh_def
      random_Token_eq token_ok_def Let_def sample_store_def id_New_def)

definition disabled_access :: access_token where
  "disabled_access = \<lparr>atHash = HashToken ''acc'', atClientID = ''rp'', atUserID = ''u1'', atScopes = [''openid''],
     atSessionSID = [], atExpiresAt = 2000 * second\<rparr>"

definition disabled_access_world :: "store world" where
  "disabled_access_world = disabled_world\<lparr>w_store := (w_store disabled_world)\<lparr>st_access := [(HashToken ''acc'', disabled_access)]\<rparr>\<rparr>"

lemma disabled_user_userinfo:
  "rs_status (fst (handleUserInfo (mem_repos it) sample_env (blank_request\<lparr>r_authorization := ''Bearer acc''\<rparr>) disabled_access_world)) = 200"
proof -
  have "bearer (blank_request\<lparr>r_authorization := ''Bearer acc''\<rparr>) = ''acc''" by code_simp
  then show ?thesis
    by (simp add: handleUserInfo_def Let_def mem_ops disabled_access_world_def disabled_world_def disabled_access_def write_json_def)
qed

end
