(* ===== verification/Resume.thy ===== *)
theory Resume
  imports WebProps UrlProps
begin

section \<open>A login resumes the authorization it interrupted\<close>

text \<open>
  An authorization request of a browser without a session is sent to the login page with the request
  in \<open>continue\<close>; the page puts it into its form, and the login redirects to it. The lemmas follow
  the request through escaping, parsing and printing of URLs.
\<close>

subsection \<open>Plain requests\<close>

text \<open>
  The query of a request as it comes in a request line: printable ASCII, without the fragment sign
  and without a backslash, which \<open>safeContinue\<close> refuses.
\<close>

definition wire_char :: "char \<Rightarrow> bool" where
  "wire_char c \<longleftrightarrow> 32 < (of_char c :: nat) \<and> (of_char c :: nat) < 127 \<and> c \<noteq> CHR ''#'' \<and> c \<noteq> CHR 0x5C"

lemma wire_ascii: "list_all wire_char s \<Longrightarrow> hexEscapeNonASCII s = s"
  by (induction s) (auto simp: hexEscapeNonASCII_def wire_char_def)

lemma plain_wire: "plain_char c \<Longrightarrow> wire_char c"
  by (auto simp: plain_char_def wire_char_def is_alpha_def is_digit_def Let_def)

lemma QueryEscape_wire: "list_all wire_char (QueryEscape s)"
  using escape_plain [of s] plain_wire by (simp add: QueryEscape_def list_all_iff)

lemma redirect_plain:
  assumes "path_Clean p = p" and "prefix ''/'' p" and "\<not> suffix ''/'' p" and "CHR ''?'' \<notin> set p"
  shows "redirect_target rp (p @ ''?'' @ q) = p @ ''?'' @ q"
proof -
  have "cut_at CHR ''?'' (p @ ''?'' @ q) = Some (p, q)" using cut_at_append [OF assms(4), of q] by simp
  then have "clean_relative (p @ ''?'' @ q) = p @ ''?'' @ q" using assms(1,3) by (simp add: clean_relative_def Let_def)
  moreover have "prefix ''/'' (p @ ''?'' @ q)" using assms(2) by (auto simp: prefix_def)
  ultimately show ?thesis by (simp add: redirect_target_def split: option.split)
qed

lemma login_target: "redirect_target rp (''/login?continue='' @ q) = ''/login?continue='' @ q"
proof -
  have "path_Clean ''/login'' = ''/login''" by code_simp
  then show ?thesis using redirect_plain [of "''/login''" rp "''continue='' @ q"] by (simp add: suffix_def)
qed

lemma authorize_target: "redirect_target rp (''/authorize?'' @ q) = ''/authorize?'' @ q"
proof -
  have "path_Clean ''/authorize'' = ''/authorize''" by code_simp
  then show ?thesis using redirect_plain [of "''/authorize''" rp q] by (simp add: suffix_def)
qed

lemma two_marks: "qs \<noteq> [] \<Longrightarrow> suffix [c] (p @ qs) \<Longrightarrow> c \<in> set p \<Longrightarrow> count_list (p @ qs) c \<noteq> 1"
proof -
  assume a: "qs \<noteq> []" "suffix [c] (p @ qs)" "c \<in> set p"
  then have "last qs = c" by (metis last_appendR last_snoc suffixE)
  then have "c \<in> set qs" using a(1) last_in_set by blast
  then have "0 < count_list p c" "0 < count_list qs c" using a(3) by (metis count_list_0_iff gr0I)+
  then show "count_list (p @ qs) c \<noteq> 1" by simp
qed

lemma parse_authorize:
  assumes "list_all wire_char qs"
  shows "url_Parse (''/authorize?'' @ qs) =
    Some (empty_url\<lparr>url_Path := ''/authorize'', url_ForceQuery := (qs = []), url_RawQuery := qs\<rparr>)"
proof -
  let ?s = "''/authorize?'' @ qs"
  have nofrag: "cut_at CHR ''#'' ?s = None"
    using assms by (intro cut_at_notin) (auto simp: list_all_iff wire_char_def)
  have ctl: "\<not> list_ex is_ctl ?s"
  proof -
    have "\<not> is_ctl c" if "wire_char c" for c using that by (simp add: wire_char_def is_ctl_def)
    then have "\<not> list_ex is_ctl qs" using assms by (auto simp: list_all_iff list_ex_iff)
    moreover have "\<not> list_ex is_ctl ''/authorize?''" by code_simp
    ultimately show ?thesis by (simp only: list_ex_append simp_thms)
  qed
  have scheme: "getScheme ?s = Some ([], ?s)" by (simp add: getScheme_def is_alpha_def is_digit_def)
  have nostar: "?s \<noteq> ''*''" by simp
  have path: "unescape PathPart ''/authorize'' = Some ''/authorize''" by code_simp
  have path2: "escape PathPart ''/authorize'' = ''/authorize''" by code_simp
  have hier: "parseHierarchy ''/authorize'' u = Some (u\<lparr>url_OmitHost := False, url_Path := ''/authorize'', url_RawPath := []\<rparr>)"
    if "url_Scheme u = []" for u
    using that by (simp add: parseHierarchy_def setPath_def path path2 del: escape.simps unescape.simps)
  show ?thesis
  proof (cases "qs = []")
    case True
    have cnt: "suffix ''?'' ''/authorize?'' \<and> count_list ''/authorize?'' CHR ''?'' = 1" by code_simp
    have "butlast ''/authorize?'' = ''/authorize''" by simp
    then have "url_Parse ''/authorize?'' =
        parseHierarchy ''/authorize'' (empty_url\<lparr>url_Scheme := [], url_ForceQuery := True\<rparr>)"
      using nofrag ctl nostar scheme cnt True
      by (simp only: url_Parse_def parse_nofrag_def option.case prod.case Let_def ToLower_def list.map append_Nil2 if_False if_True simp_thms)
    also have "\<dots> = Some (empty_url\<lparr>url_Path := ''/authorize'', url_ForceQuery := True, url_RawQuery := []\<rparr>)"
      by (subst hier) (simp_all only: empty_url_def url.simps)
    finally show ?thesis by (simp only: True append_Nil2 simp_thms)
  next
    case False
    have cnt: "\<not> (suffix ''?'' ?s \<and> count_list ?s CHR ''?'' = 1)"
      using two_marks [OF False, of "CHR ''?''" "''/authorize?''"] by simp
    have cut: "cut_at CHR ''?'' ?s = Some (''/authorize'', qs)"
      using cut_at_append [of "CHR ''?''" "''/authorize''" qs] by simp
    have "url_Parse ?s = parseHierarchy ''/authorize'' (empty_url\<lparr>url_Scheme := [], url_RawQuery := qs\<rparr>)"
      using nofrag ctl nostar scheme cnt cut
      by (simp only: url_Parse_def parse_nofrag_def option.case prod.case Let_def ToLower_def list.map if_False simp_thms)
    also have "\<dots> = Some (empty_url\<lparr>url_Path := ''/authorize'', url_ForceQuery := False, url_RawQuery := qs\<rparr>)"
      by (subst hier) (simp_all only: empty_url_def url.simps)
    finally show ?thesis using False by (simp only: simp_thms)
  qed
qed

lemma safeContinue_authorize:
  assumes "list_all wire_char qs"
  shows "safeContinue (''/authorize?'' @ qs) = ''/authorize?'' @ qs"
proof -
  have "CHR 0x5C \<notin> set (''/authorize?'' @ qs)" using assms by (auto simp: list_all_iff wire_char_def)
  moreover have "escape PathPart ''/authorize'' = ''/authorize''" "CHR '':'' \<notin> set (before CHR ''/'' ''/authorize'')"
    by code_simp+
  ultimately show ?thesis
    by (simp add: safeContinue_def parse_authorize [OF assms, simplified] url_String_def Let_def EscapedPath_def empty_url_def)
qed

lemma continue_value: "values_get (ParseQuery (''continue='' @ QueryEscape s)) ''continue'' = s"
proof -
  have "QueryEscape ''continue'' = ''continue''" by code_simp
  then have "values_Encode [(''continue'', [s])] = ''continue='' @ QueryEscape s" by (simp add: values_Encode_def)
  then show ?thesis using values_get_Encode [of "[(''continue'', [s])]" "''continue''"] by (simp add: values_get_def)
qed

subsection \<open>Along the redirects\<close>

text \<open>A request whose query was parsed from its request line, as \<open>net/http\<close> does.\<close>

definition parsed :: "request \<Rightarrow> bool" where
  "parsed r \<longleftrightarrow> r_query r = ParseQuery (raw_query r)"

lemma issueCode_status: "issueCodeRedirect R E r uid p w = (rs, w') \<Longrightarrow> rs_status rs \<in> {302, 500}"
  by (auto simp: issueCodeRedirect_def Let_def split: sum.splits prod.splits option.splits)

lemma oauthFail_status: "rs_status (oauthFail r u st c d rs) \<in> {302, 400}"
  by (simp add: oauthFail_def Let_def split: option.split)

lemma oauthFail_not_303 [simp]: "rs_status (oauthFail r u st c d rs) \<noteq> 303"
  using oauthFail_status [of r u st c d rs] by auto

lemma checkAuthorize_status: "checkAuthorize R r s = Inl rs \<Longrightarrow> rs_status rs \<noteq> 303"
  by (auto simp: checkAuthorize_def Let_def split: if_splits sum.splits)

lemma authorize_to_login:
  assumes "handleAuthorize R E r w = (rs, w')" and "rs_status rs = 303"
  shows "\<exists>c scopes. checkAuthorize R r (w_store w) = Inr (c, scopes)"
    and "Location rs = Some (hexEscapeNonASCII (redirect_target (r_path r) (''/login?continue='' @ QueryEscape (r_uri r))))"
proof -
  obtain c scopes where c: "checkAuthorize R r (w_store w) = Inr (c, scopes)"
    using assms checkAuthorize_status [of R r "w_store w"]
    by (cases "checkAuthorize R r (w_store w)") (auto simp: handleAuthorize_def)
  then show "\<exists>c scopes. checkAuthorize R r (w_store w) = Inr (c, scopes)" by blast
  have "fst (currentUser R E r w) = None"
  proof (rule ccontr)
    assume "fst (currentUser R E r w) \<noteq> None"
    then obtain u w1 where "currentUser R E r w = (Some u, w1)" by (metis not_Some_eq prod.collapse)
    then show False using assms c issueCode_status
      by (auto simp: handleAuthorize_def Let_def random_Token_eq issueCSRF_def split: if_splits option.splits dest: issueCode_status)
  qed
  then obtain w1 where "currentUser R E r w = (None, w1)" by (metis prod.collapse)
  then show "Location rs = Some (hexEscapeNonASCII (redirect_target (r_path r) (''/login?continue='' @ QueryEscape (r_uri r))))"
    using assms c by (auto simp: handleAuthorize_def)
qed

lemma login_page_continue:
  assumes "handleLoginForm E r w = (rs, w')" and "rs_body rs = PageBody n d"
  shows "pdContinue d = safeContinue (values_get (r_query r) ''continue'')"
  using assms by (auto simp: handleLoginForm_def formPage_def issueCSRF_def random_Token_eq no_page_def split: option.splits)

lemma checkAuthorize_same:
  assumes "checkAuthorize (mem_repos it) r s = Inr x" and "r_query r' = r_query r"
    and "gget (st_clients s') = gget (st_clients s)"
  shows "checkAuthorize (mem_repos it) r' s' = Inr x"
  using assms by (auto simp: checkAuthorize_def Let_def mem_GetClient_def found_def split: if_splits sum.splits option.splits)

lemma login_page_location:
  "hexEscapeNonASCII (redirect_target rp (''/login?continue='' @ QueryEscape s)) = ''/login?continue='' @ QueryEscape s"
proof -
  have "list_all wire_char ''/login?continue=''" by code_simp
  then have "list_all wire_char (''/login?continue='' @ QueryEscape s)"
    using QueryEscape_wire [of s] by (simp only: list_all_append simp_thms)
  then show ?thesis by (simp only: login_target wire_ascii)
qed

lemma login_target_kept:
  assumes "uri = ''/authorize?'' @ q" and "list_all wire_char q"
  shows "hexEscapeNonASCII (redirect_target rp uri) = uri"
proof -
  have "list_all wire_char ''/authorize?''" by code_simp
  then have "list_all wire_char uri" using assms by (simp only: list_all_append simp_thms)
  then show ?thesis by (simp only: assms(1) authorize_target wire_ascii)
qed

text \<open>The login page asked for with a request in \<open>continue\<close> has that request in its form.\<close>

lemma login_page_request:
  assumes "r_uri r2 = ''/login?continue='' @ QueryEscape uri" and "parsed r2"
    and "uri = ''/authorize?'' @ q" and "list_all wire_char q"
    and "handleLoginForm E r2 w = (rs, w')" and "rs_body rs = PageBody n d"
  shows "safeContinue (pdContinue d) = uri"
proof -
  have "raw_query r2 = ''continue='' @ QueryEscape uri"
    using cut_at_append [of "CHR ''?''" "''/login''"] by (simp add: raw_query_def assms(1))
  then have "values_get (r_query r2) ''continue'' = uri" using assms(2) continue_value by (simp add: parsed_def)
  then show ?thesis
    using login_page_continue [OF assms(5,6)] safeContinue_authorize [OF assms(4)] assms(3) by simp
qed

text \<open>What the login leaves for the next request of the browser.\<close>

lemma login_started:
  fixes w :: "store world"
  assumes "mem_inv (w_store w)" and "rand_fills E"
    and "Authenticate (Users (mem_repos it)) E em pw (w_store w) = Inr u"
    and "startSessionAndRedirect (mem_repos it) E r (uID u) cont (w\<lparr>w_hits := hits\<rparr>) = (rs, w')" and "rs_status rs = 303"
    and "Cookie r' CookieName = Some (ckValue (last (rs_cookies rs)))" and "Now E' < Now E + SessionTTL (Cfg E)"
  shows "mem_inv (w_store w')" and "gget (st_clients (w_store w')) = gget (st_clients (w_store w))"
    and "currentUser (mem_repos it) E' r' w' = (Some u, w')"
    and "Location rs = Some (hexEscapeNonASCII (redirect_target (r_path r) (if cont = [] then ''/'' else cont)))"
proof -
  let ?w = "w\<lparr>w_hits := hits\<rparr>"
  have usr: "gget (st_users (w_store w)) (uID u) = Some u" "\<not> uDisabled u"
    using mem_users.Authenticate_iff [OF assms(1)] assms(3) by (simp_all add: mem_abs_def)
  obtain t exp where st: "Start_session (Sessions (mem_repos it)) E (SessionTTL (Cfg E)) (uID u) ?w = (Inr (t, exp), w')"
    and rs: "rs = http_Redirect r (if cont = [] then ''/'' else cont) 303 (setSessionCookie t exp (CookieSecure (Cfg E)) new_response)"
    using assms(4,5) by (auto simp: startSessionAndRedirect_def split: sum.splits prod.splits)
  have u2: "av_users (mem_abs (w_store ?w)) (uID u) \<noteq> None" and i2: "mem_inv (w_store ?w)"
    using usr assms(1) by (simp_all add: mem_abs_def)
  note start = mem_sessions.Start_session_ok [OF i2 u2 st]
  have ne: "t \<noteq> []" using start(1) token_length [OF assms(2)] by fastforce
  show "mem_inv (w_store w')" by (rule start(3))
  show "gget (st_clients (w_store w')) = gget (st_clients (w_store w))" using start(4) by (auto simp: mem_abs_def)
  show "Location rs = Some (hexEscapeNonASCII (redirect_target (r_path r) (if cont = [] then ''/'' else cont)))" by (simp add: rs)
  have ck: "Cookie r' CookieName = Some t" using assms(6) by (simp add: rs http_defs setSessionCookie_def)
  have "Lookup (Sessions (mem_repos it)) E' t w' = (Inr (uID u), w')"
    using mem_sessions.started_session [OF i2 u2 st ne] assms(7) by blast
  moreover have "gget (st_users (w_store w')) (uID u) = Some u" using start(4) usr(1) by (auto simp: mem_abs_def)
  ultimately show "currentUser (mem_repos it) E' r' w' = (Some u, w')"
    using ck usr(2) by (simp add: currentUser_def mem_GetByID_def)
qed

text \<open>The authorization endpoint, for a browser that is logged in.\<close>

lemma authorize_logged_in:
  fixes w :: "store world"
  assumes "mem_inv (w_store w)" and "currentUser (mem_repos it) E r w = (Some u, w)"
    and "checkAuthorize (mem_repos it) r (w_store w) = Inr (c, scopes)" and "\<forall>k. token_at E k \<noteq> None"
    and "handleAuthorize (mem_repos it) E r w = (rs, w')"
  shows "\<exists>t v. token_at E (w_draws w) = Some t \<and> url_Parse (values_get (r_query r) ''redirect_uri'') = Some v
    \<and> (if hasConsent (mem_repos it) (uID u) (cID c) scopes (w_store w)
       then rs = http_Redirect r (code_location v (pending_of E r c scopes) t) 302 new_response
         \<and> (\<exists>sid. gget (st_codes (w_store w')) (HashToken t) = Some (code_row E (pending_of E r c scopes) (uID u) sid t))
       else rs_status rs = 200 \<and> (\<exists>d. rs_body rs = PageBody ''consent'' d \<and> pdRequestID d = t)
         \<and> gget (w_pending w') t = Some (pending_of E r c scopes))"
proof -
  obtain t where t: "token_at E (w_draws w) = Some t" using assms(4) by blast
  obtain t2 where t2: "token_at E (Suc (w_draws w)) = Some t2" using assms(4) by blast
  have "is_ok (ParseRedirectURI (values_get (r_query r) ''redirect_uri''))"
    using mem.checkAuthorize_ok(5) [OF assms(1,3)] by (simp add: bound_ok_def)
  then obtain v where v: "url_Parse (values_get (r_query r) ''redirect_uri'') = Some v"
    by (auto simp: ParseRedirectURI_def split: option.splits)
  let ?p = "pending_of E r c scopes"
  show ?thesis
  proof (cases "hasConsent (mem_repos it) (uID u) (cID c) scopes (w_store w)")
    case True
    then have "issueCodeRedirect (mem_repos it) E r (uID u) ?p w = (rs, w')"
      using assms(2,3,5) by (simp add: handleAuthorize_def)
    from mem_issueCode [OF assms(1) t _ this] v t True show ?thesis by (simp add: pending_of_def)
  next
    case False
    then show ?thesis using assms(2,3,5) t t2 v
      by (auto simp: handleAuthorize_def Let_def random_Token_eq issueCSRF_def no_page_def)
  qed
qed

text \<open>
  C38. A login resumes the authorization request it interrupted. When the authorization endpoint sends a
  browser without a session to the login page, the form of that page carries the whole request, and a
  login from that form redirects to exactly that request. The browser then comes with its new session
  cookie and is not sent to the login page again: the same request, with its client, redirect URI,
  state, nonce, scopes and challenge, gets a code for the account that logged in, or waits for its
  consent. The query of the request is printable ASCII without \<open>#\<close> and backslash, as browsers send
  it, and the registered clients are unchanged in between.
\<close>

theorem login_resumes_authorization:
  fixes w1 w2 w3 :: "store world"
  assumes "r_uri r1 = ''/authorize?'' @ raw_query r1" and "list_all wire_char (raw_query r1)" and "parsed r1"
    and "handleAuthorize (mem_repos it) E1 r1 w1 = (rs1, w1')" and "rs_status rs1 = 303"
    and "Location rs1 = Some (r_uri r2)" and "parsed r2"
    and "handleLoginForm E2 r2 w2 = (rs2, w2')" and "rs_body rs2 = PageBody n d"
    and "FormValue r3 ''continue'' = pdContinue d"
    and "mem_inv (w_store w3)" and "rand_fills E3" and "gget (st_clients (w_store w3)) = gget (st_clients (w_store w1))"
    and "handleLogin (mem_repos it) E3 r3 w3 = (rs3, w4)" and "rs_status rs3 = 303"
    and "Location rs3 = Some (r_uri r4)" and "parsed r4" and "Cookie r4 CookieName = Some (ckValue (last (rs_cookies rs3)))"
    and "Now E4 < Now E3 + SessionTTL (Cfg E3)" and "\<forall>k. token_at E4 k \<noteq> None"
    and "handleAuthorize (mem_repos it) E4 r4 w4 = (rs4, w5)"
  shows "r_uri r4 = r_uri r1 \<and> (\<exists>u c scopes t v.
      Authenticate (Users (mem_repos it)) E3 (FormValue r3 ''email'') (FormValue r3 ''password'') (w_store w3) = Inr u
    \<and> checkAuthorize (mem_repos it) r1 (w_store w1) = Inr (c, scopes)
    \<and> token_at E4 (w_draws w4) = Some t \<and> url_Parse (values_get (r_query r1) ''redirect_uri'') = Some v
    \<and> (if hasConsent (mem_repos it) (uID u) (cID c) scopes (w_store w4)
       then rs4 = http_Redirect r4 (code_location v (pending_of E4 r1 c scopes) t) 302 new_response
         \<and> (\<exists>sid. gget (st_codes (w_store w5)) (HashToken t) = Some (code_row E4 (pending_of E4 r1 c scopes) (uID u) sid t))
       else rs_status rs4 = 200 \<and> (\<exists>d. rs_body rs4 = PageBody ''consent'' d \<and> pdRequestID d = t)
         \<and> gget (w_pending w5) t = Some (pending_of E4 r1 c scopes)))"
proof -
  obtain c scopes where c: "checkAuthorize (mem_repos it) r1 (w_store w1) = Inr (c, scopes)"
    using authorize_to_login(1) [OF assms(4,5)] by blast
  have uri2: "r_uri r2 = ''/login?continue='' @ QueryEscape (r_uri r1)"
    using authorize_to_login(2) [OF assms(4,5)] assms(6) login_page_location [of "r_path r1" "r_uri r1"] by simp
  have cont: "safeContinue (pdContinue d) = r_uri r1"
    by (rule login_page_request [OF uri2 assms(7,1,2,8,9)])
  obtain u hits where u: "Authenticate (Users (mem_repos it)) E3 (FormValue r3 ''email'') (FormValue r3 ''password'') (w_store w3) = Inr u"
    and go: "startSessionAndRedirect (mem_repos it) E3 r3 (uID u) (safeContinue (FormValue r3 ''continue'')) (w3\<lparr>w_hits := hits\<rparr>) = (rs3, w4)"
    using handleLogin_redirects [OF assms(14,15)] by blast
  note started = login_started [OF assms(11,12) u go assms(15,18,19)]
  have "r_uri r1 \<noteq> []" using assms(1) by (metis append_is_Nil_conv list.distinct(1))
  then have uri4: "r_uri r4 = r_uri r1"
    using started(4) assms(16) login_target_kept [OF assms(1,2)] cont assms(10) by simp
  have query: "r_query r4 = r_query r1" using uri4 assms(3,17) by (simp add: parsed_def raw_query_def)
  have c4: "checkAuthorize (mem_repos it) r4 (w_store w4) = Inr (c, scopes)"
    by (rule checkAuthorize_same [OF c query]) (use started(2) assms(13) in simp)
  have p: "pending_of E4 r4 c scopes = pending_of E4 r1 c scopes" using query by (simp add: pending_of_def)
  from authorize_logged_in [OF started(1,3) c4 assms(20,21), unfolded p query] uri4 u c show ?thesis
    by (elim exE conjE) (rule conjI, assumption, intro exI conjI; assumption)
qed

subsection \<open>A witness\<close>

definition interrupted_query :: string where
  "interrupted_query = ''response_type=code&client_id=rp&redirect_uri=https://rp/cb&scope=openid&code_challenge_method=S256&code_challenge=ch''"

definition interrupted :: request where
  "interrupted = blank_request\<lparr>r_path := ''/authorize'', r_uri := ''/authorize?'' @ interrupted_query,
     r_query := ParseQuery interrupted_query\<rparr>"

lemma interrupted_values:
  "values_get (ParseQuery interrupted_query) ''response_type'' = ''code''"
  "values_get (ParseQuery interrupted_query) ''client_id'' = ''rp''"
  "values_get (ParseQuery interrupted_query) ''redirect_uri'' = ''https://rp/cb''"
  "values_get (ParseQuery interrupted_query) ''scope'' = ''openid''"
  "values_get (ParseQuery interrupted_query) ''code_challenge_method'' = ''S256''"
  "values_get (ParseQuery interrupted_query) ''code_challenge'' = ''ch''"
  "list_all wire_char interrupted_query"
  by code_simp+

lemma interrupted_request:
  "raw_query interrupted = interrupted_query" "r_uri interrupted = ''/authorize?'' @ interrupted_query"
  "parsed interrupted" "r_query interrupted = ParseQuery interrupted_query" "r_cookies interrupted = []"
  using cut_at_append [of "CHR ''?''" "''/authorize''" interrupted_query]
  by (simp_all add: interrupted_def raw_query_def parsed_def blank_request_def)

lemma interrupted_sent:
  "handleAuthorize (mem_repos it) sample_env interrupted sample_world =
    (http_Redirect interrupted (''/login?continue='' @ QueryEscape (r_uri interrupted)) 303 new_response, sample_world)"
  by (simp add: handleAuthorize_def checkAuthorize_def currentUser_def Cookie_def Let_def interrupted_request interrupted_values
      ChallengeS256_def mem_GetClient_def auth_uri auth_scope RedirectURIExact_def sample_client_def)

definition resuming_page :: request where
  "resuming_page = blank_request\<lparr>r_uri := ''/login?continue='' @ QueryEscape (r_uri interrupted),
     r_query := ParseQuery (''continue='' @ QueryEscape (r_uri interrupted))\<rparr>"

lemma resuming_parsed: "parsed resuming_page"
  using cut_at_append [of "CHR ''?''" "''/login''"] by (simp add: parsed_def raw_query_def resuming_page_def)

definition resuming_login :: "string \<Rightarrow> request" where
  "resuming_login cont = login_request\<lparr>r_form := (''continue'', [cont]) # r_form login_request\<rparr>"

lemma resuming_login_form:
  "r_form_ok (resuming_login k)" "checkCSRF (resuming_login k)" "FormValue (resuming_login k) ''email'' = ''a@x''"
  "FormValue (resuming_login k) ''password'' = ''secret''" "FormValue (resuming_login k) ''continue'' = k"
  by (simp_all add: resuming_login_def login_request_def blank_request_def FormValue_def values_get_def checkCSRF_def Cookie_def csrfCookie_def)

lemma resuming_redirects: "rs_status (fst (handleLogin (mem_repos it) sample_env (resuming_login k) sample_world)) = 303 \<and>
    Location (fst (handleLogin (mem_repos it) sample_env (resuming_login k) sample_world)) \<noteq> None"
  by (simp add: handleLogin_def resuming_login_form login_authenticated Limited_def prune_def Logins_def New_limiter_def Let_def
      startSessionAndRedirect_def Start_session_def random_Token_eq on_store_eq mem_PutSession_def)

theorem login_resumes_authorization_witness:
  "\<exists>k r4 w4. Location (fst (handleLogin (mem_repos id) sample_env (resuming_login k) sample_world)) = Some (r_uri interrupted)
    \<and> r_uri r4 = r_uri interrupted \<and> rs_status (fst (handleAuthorize (mem_repos id) sample_env r4 w4)) \<in> {200, 302}"
proof -
  obtain d rs2 w2 where page: "handleLoginForm sample_env resuming_page sample_world = (rs2, w2)" "rs_body rs2 = PageBody ''login'' d"
    by (simp add: handleLoginForm_def formPage_def issueCSRF_def random_Token_eq)
  let ?login = "handleLogin (mem_repos id) sample_env (resuming_login (pdContinue d)) sample_world"
  obtain l where l: "Location (fst ?login) = Some l" using resuming_redirects [of id "pdContinue d"] by blast
  define r4 where "r4 = blank_request\<lparr>r_uri := l, r_query := ParseQuery (case cut_at CHR ''?'' l of None \<Rightarrow> [] | Some (p, q) \<Rightarrow> q),
    r_cookies := [(CookieName, ckValue (last (rs_cookies (fst ?login))))]\<rparr>"
  have r4: "Location (fst ?login) = Some (r_uri r4)" "parsed r4"
    "Cookie r4 CookieName = Some (ckValue (last (rs_cookies (fst ?login))))"
    by (simp_all add: r4_def l parsed_def raw_query_def Cookie_def)
  have sent: "Location (http_Redirect interrupted (''/login?continue='' @ QueryEscape (r_uri interrupted)) 303 new_response) = Some (r_uri resuming_page)"
    by (simp only: Location_simps login_page_location) (simp add: resuming_page_def)
  have start: "r_uri interrupted = ''/authorize?'' @ raw_query interrupted" "list_all wire_char (raw_query interrupted)"
    using interrupted_request interrupted_values(7) by simp_all
  have s303: "rs_status (http_Redirect interrupted (''/login?continue='' @ QueryEscape (r_uri interrupted)) 303 new_response) = 303"
    by (simp only: status_simps)
  have form: "FormValue (resuming_login (pdContinue d)) ''continue'' = pdContinue d" by (rule resuming_login_form(5))
  have inv: "mem_inv (w_store sample_world)" by simp
  have time: "Now sample_env < Now sample_env + SessionTTL (Cfg sample_env)" by (simp add: sample_config_def)
  from login_resumes_authorization [OF start interrupted_request(3) interrupted_sent [of id] s303 sent resuming_parsed page form
      inv sample_fills refl prod.collapse [symmetric] conjunct1 [OF resuming_redirects] r4 time sample_total(1) prod.collapse [symmetric]]
  have "r_uri r4 = r_uri interrupted \<and> rs_status (fst (handleAuthorize (mem_repos id) sample_env r4 (snd ?login))) \<in> {200, 302}"
    by (auto split: if_splits)
  then show ?thesis using r4(1) by metis
qed

end
