(* ===== verification/ServeProps.thy ===== *)
theory ServeProps
  imports SeedInv Samples
begin

section \<open>Properties of the whole server\<close>

text \<open>
  The states a process on the memory store can reach: it boots with the seeds of \<open>main.go\<close> and then
  serves requests, in any order, at any times, with any configuration. Besides the invariants of
  these states: who may use the admin API, what the discovery document promises, and where the
  mux's own redirects end.
\<close>

definition start_world :: "store world" where
  "start_world = \<lparr>w_store = NewStore, w_draws = 0, w_ids = 0, w_hits = [], w_pending = [], w_sent = []\<rparr>"

inductive reachable :: "(nat \<Rightarrow> string) \<Rightarrow> store world \<Rightarrow> bool" for U :: "nat \<Rightarrow> string" where
  booted: "ids_ok U E \<Longrightarrow> seed_all unmarshal (mem_repos it) E start_world = (Inr (), w) \<Longrightarrow> reachable U w"
| served: "reachable U w \<Longrightarrow> ids_ok U E \<Longrightarrow> serve (mem_repos it) E keys r w = (rs, w') \<Longrightarrow> reachable U w'"

lemma start_sys: "mem.sys_inv U start_world"
  by (simp add: mem.sys_inv_def start_world_def mem_inv_NewStore)
    (simp add: ok_defs families_ok_def mem_abs_def NewStore_def sidRP_view_def consents_view_def members_view_def)

lemma reachable_sys: "reachable U w \<Longrightarrow> mem.sys_inv U w"
proof (induction rule: reachable.induct)
  case (booted E unmarshal it w)
  then show ?case using mem.seed_all_sys [OF start_sys booted(1), of unmarshal it] by simp
next
  case (served w E it keys r rs w')
  then show ?case using mem.serve_sys [OF served(4) served(2), of it keys r] by simp
qed

subsection \<open>A concrete start\<close>

text \<open>A start with an empty store and a demo account; the witnesses apply the properties to its state.\<close>

definition boot_env :: env where
  "boot_env = sample_env\<lparr>Cfg := sample_config\<lparr>SeedDemoEmail := ''Ann@x'', SeedDemoPassword := ''pw'', SeedDemoName := ''Ann''\<rparr>\<rparr>"

definition boot_user :: user where
  "boot_user = zero_user\<lparr>uID := ''0'', uEmail := ''ann@x'', uName := ''Ann'', uCreatedAt := 1000 * second,
     uPasswordHash := phc_string (map (\<lambda>i. char_of (0 div 2 ^ i mod 2 :: nat)) [0..<saltLen])
       (IDKey sample_env ''pw'' (map (\<lambda>i. char_of (0 div 2 ^ i mod 2 :: nat)) [0..<saltLen]) timeCost memoryKiB threads keyLen)\<rparr>"

definition boot_world :: "store world" where
  "boot_world = start_world\<lparr>w_draws := 1, w_ids := 2,
     w_store := NewStore\<lparr>st_users := [(''0'', boot_user)], st_byEmail := [(''ann@x'', ''0'')],
       st_orgs := [(''1'', \<lparr>oID = ''1'', oName = ''Demo Organization'', oCreatedAt = 1000 * second\<rparr>)],
       st_orgMembers := [(''1'', [(''0'', \<lparr>mOrgID = ''1'', mUserID = ''0'', mRole = OrgRoleOwner, mJoinedAt = 1000 * second\<rparr>)])]\<rparr>\<rparr>"

lemma boot_cfg:
  "SeedDemoEmail (Cfg boot_env) = ''Ann@x''" "SeedDemoPassword (Cfg boot_env) = ''pw''"
  "SeedDemoName (Cfg boot_env) = ''Ann''" "SeedPublicClientID (Cfg boot_env) = []"
  "SeedDemoRPBRedirect (Cfg boot_env) = []" "TrimSpace (SeedExtraClientsJSON (Cfg boot_env)) = []"
  by (simp_all add: boot_env_def sample_config_def baseConfig_def)

lemma boot_sel:
  "Now boot_env = 1000 * second" "ULID boot_env = dec" "IDKey boot_env = IDKey sample_env"
  "Rand boot_env = Rand sample_env" "MailOK boot_env a"
  by (simp_all add: boot_env_def, simp add: sample_env_def)

lemma boot_strings:
  "TrimSpace ''pw'' = ''pw''" "TrimSpace ''Ann'' = ''Ann''" "TrimSpace ''Ann@x'' = ''Ann@x''"
  "ToLower ''Ann@x'' = ''ann@x''" "ToLower ''ann@x'' = ''ann@x''" "dec 0 = ''0''" "dec (Suc 0) = ''1''"
  by code_simp+

lemma boot_mail: "normalizeEmail boot_env ''Ann@x'' = Inr ''ann@x''"
  by (simp add: normalizeEmail_def boot_strings boot_sel)

lemma boot_ids: "ids_ok dec boot_env"
  using inj_dec dec_digits [of "CHR ''|''"] by (auto simp: ids_ok_def boot_sel)

lemma boot_seeds: "seed_all (\<lambda>s. None) (mem_repos it) boot_env start_world = (Inr (), boot_world)"
  by (simp add: seed_all_def Let_def and_then_def on_store_eq PublicClient_def DemoRPB_def ExtraClients_def boot_cfg
      DemoUser_def Register_def boot_mail Hash_password_def boot_sel boot_strings id_New_def mem_Create_def
      start_world_def NewStore_def zero_user_def DemoOrganization_def mem_GetByEmail_def
      mem_ListOrganizationsForUser_def range_map_def visit_def seed_org_def boot_world_def boot_user_def
      mem_CreateOrganization_def mem_AddOrganizationMember_def)

lemma boot_reachable: "reachable dec boot_world"
  by (rule booted [OF boot_ids boot_seeds])

subsection \<open>Invariants\<close>

text \<open>
  C4. In every state that a process reaches from its seeds by serving requests one at a time, the store is
  well formed although the memory store checks no foreign key: every session, code, token and consent
  names an account and a client that exist, every membership an organization and an account that exist; every authorization code and every request
  that waits for consent is bound to a safe redirect address, a PKCE challenge and known scopes that
  include \<open>openid\<close>; and identifiers that are still to be drawn are not in use.
\<close>

theorem server_well_formed:
  assumes "reachable U w"
  shows "mem_inv (w_store w) \<and> refs (mem_abs (w_store w)) \<and> unused U (w_ids w) (mem_abs (w_store w))
    \<and> (\<forall>k p. gget (w_pending w) k = Some p \<longrightarrow> pending_ok (mem_abs (w_store w)) p)"
  using reachable_sys [OF assms] by (simp add: mem.sys_inv_def astore_ok_def)

theorem server_well_formed_witness:
  "reachable dec boot_world \<and> refs (mem_abs (w_store boot_world))"
  using server_well_formed [OF boot_reachable] boot_reachable by simp

text \<open>
  C8. As long as requests are served one at a time, every organization has an owner in every state a
  process reaches: creating one adds it, and the checks before demoting or removing an owner keep the
  last one. Two requests that interleave between the check and the write can break this
  (\<open>owner_checks_race\<close> in \<open>Divergences\<close>).
\<close>

theorem organizations_keep_owner:
  assumes "reachable U w" and "gget (st_orgs (w_store w)) i = Some org"
  shows "\<exists>u m. mem_GetOrganizationMembership i u (w_store w) = Inr m \<and> mRole m = OrgRoleOwner"
proof -
  have "owned (mem_abs (w_store w))" using reachable_sys [OF assms(1)] by (simp add: mem.sys_inv_def astore_ok_def)
  moreover have "av_orgs (mem_abs (w_store w)) i \<noteq> None" using assms(2) by (simp add: mem_abs_def)
  ultimately obtain u m where "av_members (mem_abs (w_store w)) i u = Some m" "mRole m = OrgRoleOwner"
    unfolding owned_def by blast
  then show ?thesis
    using mem_organizations.get_membership [of it i u "w_store w" for it]
    by (intro exI [of _ u] exI [of _ m]) simp
qed

theorem organizations_keep_owner_witness:
  "\<exists>u m. mem_GetOrganizationMembership ''1'' u (w_store boot_world) = Inr m \<and> mRole m = OrgRoleOwner"
  by (rule organizations_keep_owner [OF boot_reachable, of _ "\<lparr>oID = ''1'', oName = ''Demo Organization'', oCreatedAt = 1000 * second\<rparr>"])
    (simp add: boot_world_def start_world_def)

subsection \<open>The admin API\<close>

lemma find_route_in:
  "find_route rs m ss = Some (rt, vals) \<Longrightarrow> \<exists>pm ps. ((pm, ps), rt) \<in> set rs \<and> match_segs ps ss = Some vals"
  by (induction rs m ss rule: find_route.induct) (auto split: option.splits if_splits)

definition admin_routes :: "route list" where
  "admin_routes = [RAdminListClients, RAdminCreateClient, RAdminGetClient, RAdminUpdateClient, RAdminRotateSecret,
     RAdminListUsers, RAdminSetDisabled, RAdminListAudits, RAdminListOrgs, RAdminCreateOrg, RAdminGetOrg,
     RAdminListMembers, RAdminAddMember, RAdminUpdateMember, RAdminRemoveMember]"

lemma admin_path_route:
  assumes "find_route routes m (''admin'' # ''api'' # ss) = Some (rt, vals)"
  shows "rt \<in> set admin_routes"
  using find_route_in [OF assms] by (auto simp: routes_def admin_routes_def)

lemma requireAdmin_None: "requireAdmin E r = None \<longleftrightarrow> AdminToken (Cfg E) \<noteq> [] \<and> bearer r = AdminToken (Cfg E)"
  by (auto simp: requireAdmin_def Let_def)

lemma requireAdmin_refuse: "requireAdmin E r = Some rs \<Longrightarrow> rs_status rs = 401"
  by (auto simp: requireAdmin_def Let_def split: if_splits)

lemma bearer_path [simp]: "bearer (with_path_values vals r) = bearer r"
  by (simp add: bearer_def with_path_values_def)

lemma asAdmin_refused:
  "requireAdmin E r \<noteq> None \<Longrightarrow> snd (asAdmin E r h w) = w \<and> rs_status (fst (asAdmin E r h w)) = 401"
  by (auto simp: asAdmin_def requireAdmin_refuse split: option.split)

lemma admin_route_refused:
  assumes "rt \<in> set admin_routes" and "requireAdmin E r \<noteq> None"
  shows "snd (handle_route R E keys rt r w) = w \<and> rs_status (fst (handle_route R E keys rt r w)) = 401"
proof -
  note refused = conjunct1 [OF asAdmin_refused [OF assms(2)]] conjunct2 [OF asAdmin_refused [OF assms(2)]]
  show ?thesis using assms(1)
    by (auto simp: refused admin_routes_def handleAdminListClients_def handleAdminCreateClient_def handleAdminGetClient_def
        handleAdminUpdateClient_def handleAdminRotateSecret_def handleAdminListUsers_def handleAdminSetDisabled_def
        handleAdminListAudits_def handleAdminListOrganizations_def handleAdminCreateOrganization_def
        handleAdminGetOrganization_def handleAdminListOrganizationMembers_def handleAdminAddOrganizationMember_def
        handleAdminUpdateOrganizationMember_def handleAdminRemoveOrganizationMember_def)
qed

lemma mux_refuse_status: "rs_status (mux_refuse ss) \<in> {404, 405}"
  by (simp add: mux_refuse_def)

lemma find_route_method:
  "list_all (\<lambda>x. \<not> match_method (fst (fst x)) m) table \<Longrightarrow> find_route table m ss = None"
  by (induction table m ss rule: find_route.induct) simp_all

lemma no_connect_route: "find_route routes ''CONNECT'' ss = None"
  by (rule find_route_method) code_simp

text \<open>
  C9. A request below \<open>/admin/api\<close> that changes the state of the server or is answered with success
  carried the configured admin token, and one is configured. This holds for any store.
\<close>

theorem admin_requires_token:
  assumes "serve R E keys r w = (rs, w')"
    and "path_segments (mux_clean (raw_path r)) = ''admin'' # ''api'' # ss"
    and "w' \<noteq> w \<or> rs_status rs < 300"
  shows "AdminToken (Cfg E) \<noteq> [] \<and> bearer r = AdminToken (Cfg E)"
proof (rule ccontr)
  assume "\<not> ?thesis"
  then have no: "requireAdmin E (with_path_values vals r) \<noteq> None" for vals by (auto simp: requireAdmin_None)
  have "w' = w \<and> rs_status rs \<ge> 300"
  proof (cases "mux_clean (raw_path r) = raw_path r")
    case False
    then show ?thesis using assms(1) mux_refuse_status [of "path_segments (raw_path r)"]
      by (cases "r_method r = ''CONNECT''") (auto simp: serve_def Let_def mux_redirect_def no_connect_route)
  next
    case True
    then have clean: "(if r_method r = ''CONNECT'' then raw_path r else mux_clean (raw_path r)) = raw_path r" by simp
    have segs: "path_segments (raw_path r) = ''admin'' # ''api'' # ss" using assms(2) True by simp
    note served = assms(1) [unfolded serve_def Let_def clean segs]
    show ?thesis
    proof (cases "find_route routes (r_method r) (''admin'' # ''api'' # ss)")
      case None
      with served mux_refuse_status [of "''admin'' # ''api'' # ss"] show ?thesis by auto
    next
      case (Some x)
      obtain rt vals where x: "x = (rt, vals)" by fastforce
      have "handle_route R E keys rt (with_path_values vals r) w = (rs, w')" using served Some x by simp
      with admin_route_refused [OF admin_path_route [OF Some [unfolded x]] no, of R keys vals w] show ?thesis by simp
    qed
  qed
  with assms(3) show False by auto
qed

definition admin_request :: request where
  "admin_request = blank_request\<lparr>r_uri := ''/admin/api/clients?x'', r_authorization := ''Bearer root''\<rparr>"

theorem admin_requires_token_witness:
  "rs_status (fst (serve (mem_repos id) sample_env JNull admin_request sample_world)) = 200 \<and>
    bearer admin_request = AdminToken (Cfg sample_env)"
proof -
  have path: "mux_clean (raw_path admin_request) = raw_path admin_request"
    "path_segments (mux_clean (raw_path admin_request)) = ''admin'' # ''api'' # [''clients'']"
    "find_route routes (r_method admin_request) (''admin'' # ''api'' # [''clients'']) = Some (RAdminListClients, [])"
    by code_simp+
  have token: "bearer (with_path_values [] admin_request) = ''root''" by code_simp
  have cfg: "AdminToken (Cfg sample_env) = ''root''" by (simp add: sample_config_def)
  have "rs_status (fst (serve (mem_repos id) sample_env JNull admin_request sample_world)) = 200"
    using token cfg path(2) [unfolded path(1)]
    by (simp add: serve_def Let_def path handleAdminListClients_def asAdmin_def requireAdmin_def mem_ListClients_def writeJSON_def)
  with admin_requires_token [of "mem_repos id" sample_env JNull admin_request sample_world, OF prod.collapse [symmetric] path(2)]
  show ?thesis by simp
qed

subsection \<open>Discovery\<close>

definition doc_value :: "(string \<times> json) list \<Rightarrow> string \<Rightarrow> json" where
  "doc_value doc k = (case map_of doc k of None \<Rightarrow> JNull | Some j \<Rightarrow> j)"

text \<open>
  C39. The discovery document tells the truth about this server: each endpoint it names under the
  issuer is a path that the route table serves with the handler of that endpoint, the scopes are
  exactly those that authorization requests may ask for, and the only challenge method is the one
  that they must use.
\<close>

theorem discovery_truthful:
  "rs_body (handleDiscovery E new_response) = JsonBody (json_map (discovery_doc (Issuer (Cfg E))))
    \<and> list_all (\<lambda>(name, meth, path, rt).
        doc_value (discovery_doc iss) name = JStr (iss @ path) \<and>
        mux_clean path = path \<and> find_route routes meth (path_segments path) = Some (rt, []))
        [(''authorization_endpoint'', ''GET'', ''/authorize'', RAuthorize),
         (''token_endpoint'', ''POST'', ''/token'', RToken),
         (''userinfo_endpoint'', ''GET'', ''/userinfo'', RUserInfo),
         (''jwks_uri'', ''GET'', ''/jwks.json'', RJWKS),
         (''end_session_endpoint'', ''GET'', ''/end-session'', REndSession),
         (''end_session_endpoint'', ''POST'', ''/end-session'', REndSession)]
    \<and> doc_value (discovery_doc iss) ''issuer'' = JStr iss
    \<and> doc_value (discovery_doc iss) ''scopes_supported'' = JArr (map JStr allowed)
    \<and> doc_value (discovery_doc iss) ''code_challenge_methods_supported'' = JArr [JStr ChallengeS256]"
proof -
  have paths: "mux_clean p = p" if "p \<in> {''/authorize'', ''/token'', ''/userinfo'', ''/jwks.json'', ''/end-session''}" for p
    using that by (elim insertE emptyE) (simp_all, code_simp+)
  have found: "find_route routes ''GET'' (path_segments ''/authorize'') = Some (RAuthorize, [])"
    "find_route routes ''POST'' (path_segments ''/token'') = Some (RToken, [])"
    "find_route routes ''GET'' (path_segments ''/userinfo'') = Some (RUserInfo, [])"
    "find_route routes ''GET'' (path_segments ''/jwks.json'') = Some (RJWKS, [])"
    "find_route routes ''GET'' (path_segments ''/end-session'') = Some (REndSession, [])"
    "find_route routes ''POST'' (path_segments ''/end-session'') = Some (REndSession, [])"
    by code_simp+
  show ?thesis
    using paths found
    by (simp add: doc_value_def discovery_doc_def handleDiscovery_def allowed_def ChallengeS256_def)
qed

end
