(* ===== verification/SeedProps.thy ===== *)
theory SeedProps
  imports ServeProps
begin

section \<open>Starting again on the same store\<close>

text \<open>
  The seeds of \<open>main.go\<close> run at every start of the process. A second run over the same store, by
  then the store of a server that was seeded once, succeeds and changes nothing, also when
  several entries name the same client.
\<close>

subsection \<open>Seeding the same clients twice\<close>

definition fold_row :: "client list \<Rightarrow> client option \<Rightarrow> client option" where
  "fold_row ws old = fold (\<lambda>w o_row. Some (seeded_row o_row w)) ws old"

definition apply_wants :: "client list \<Rightarrow> (string \<rightharpoonup> client) \<Rightarrow> (string \<rightharpoonup> client)" where
  "apply_wants ws m = fold (\<lambda>w m. m(cID w \<mapsto> seeded_row (m (cID w)) w)) ws m"

text \<open>The part of a row that the last seed decides.\<close>

definition touch :: "client \<Rightarrow> client \<Rightarrow> client" where
  "touch w c = c\<lparr>cName := cName w, cFrontChannelLogoutURI := cFrontChannelLogoutURI w,
     cBackChannelLogoutURI := cBackChannelLogoutURI w\<rparr>"

definition absorbs :: "client \<Rightarrow> client \<Rightarrow> bool" where
  "absorbs c w \<longleftrightarrow> set (cRedirectURIs w) \<subseteq> set (cRedirectURIs c) \<and>
     set (cPostLogoutRedirectURIs w) \<subseteq> set (cPostLogoutRedirectURIs c)"

lemma apply_wants_row: "apply_wants ws m i = fold_row (filter (\<lambda>w. cID w = i) ws) (m i)"
  by (induction ws arbitrary: m) (simp_all add: apply_wants_def fold_row_def)

lemma apply_wants_append: "apply_wants (ws @ vs) m = apply_wants vs (apply_wants ws m)"
  by (simp add: apply_wants_def)

lemma touch_touch [simp]: "touch w (touch v c) = touch w c"
  by (simp add: touch_def)

lemma absorbs_touch [simp]: "absorbs (touch w c) v = absorbs c v"
  by (simp add: absorbs_def touch_def)

lemma seeded_absorbed: "absorbs c w \<Longrightarrow> seeded_row (Some c) w = touch w c"
  by (cases c) (simp add: seeded_row_def touch_def absorbs_def unionExact_def union_loop_id)

lemma touch_seeded [simp]: "touch w (seeded_row old w) = seeded_row old w"
  by (simp add: touch_def seeded_row_def split: option.split)

lemma seeded_absorbs: "absorbs (seeded_row old w) w" "absorbs c v \<Longrightarrow> absorbs (seeded_row (Some c) w) v"
  by (auto simp: seeded_row_def absorbs_def unionExact_def split: option.split)

lemma fold_row_absorbs: "fold_row ws (Some c) = Some d \<Longrightarrow> absorbs c v \<or> v \<in> set ws \<Longrightarrow> absorbs d v"
proof (induction ws arbitrary: c)
  case (Cons w ws)
  then show ?case using seeded_absorbs(1) [of "Some c" w] seeded_absorbs(2) [of c v w] by (auto simp: fold_row_def)
qed (simp add: fold_row_def)

lemma fold_row_absorbed:
  "\<forall>w \<in> set ws. absorbs c w \<Longrightarrow> fold_row ws (Some c) = Some (if ws = [] then c else touch (last ws) c)"
  by (induction ws arbitrary: c) (auto simp: fold_row_def seeded_absorbed)

lemma fold_row_twice: "fold_row ws (fold_row ws old) = fold_row ws old"
proof (cases ws rule: rev_exhaust)
  case Nil
  then show ?thesis by (simp add: fold_row_def)
next
  case (snoc vs w)
  then have "ws \<noteq> []" by simp
  then obtain x xs where x: "ws = x # xs" by (cases ws) auto
  let ?d = "seeded_row (fold_row vs old) w"
  have d: "fold_row ws old = Some ?d" by (simp add: snoc fold_row_def)
  have "fold_row xs (Some (seeded_row old x)) = Some ?d" using d x by (simp add: fold_row_def)
  then have "absorbs ?d v" if "v \<in> set ws" for v
    using fold_row_absorbs [of xs "seeded_row old x" ?d v] seeded_absorbs(1) [of old x] that x by auto
  then have "fold_row ws (Some ?d) = Some (touch w ?d)" using fold_row_absorbed [of ws ?d] snoc by auto
  with d show ?thesis by simp
qed

lemma apply_wants_twice: "apply_wants ws (apply_wants ws m) = apply_wants ws m"
  by (rule ext) (simp add: apply_wants_row fold_row_twice)

context clients_repo
begin

text \<open>A step that seeds the clients \<open>ws\<close>, whatever the store.\<close>

definition seeds :: "client list \<Rightarrow> ('s \<Rightarrow> unit res \<times> 's) \<Rightarrow> bool" where
  "seeds ws f \<longleftrightarrow> (\<forall>s. inv s \<longrightarrow> fst (f s) = Inr () \<and> inv (snd (f s)) \<and>
     abs (snd (f s)) = (abs s)\<lparr>av_clients := apply_wants ws (av_clients (abs s))\<rparr>)"

lemma seeds_upsert:
  assumes "inv s" and "fst (upsertPublicClient C i name redirect post s) = Inr ()"
  shows "\<exists>w. seeds [w] (upsertPublicClient C i name redirect post)"
proof (cases "wantedClient i name redirect post")
  case (Inl e)
  then show ?thesis using assms(2) upsert_bad by simp
next
  case (Inr want)
  have "seeds [want] (upsertPublicClient C i name redirect post)"
    using upsert_ok [OF _ Inr] wantedClient_id [OF Inr] by (auto simp: seeds_def apply_wants_def)
  then show ?thesis ..
qed

lemma seeds_skip: "seeds [] (\<lambda>s. (Inr (), s))"
  by (simp add: seeds_def apply_wants_def)

lemma seeds_PublicClient: "inv s \<Longrightarrow> fst (PublicClient C cfg s) = Inr () \<Longrightarrow> \<exists>ws. seeds ws (PublicClient C cfg)"
  using seeds_upsert [of s "SeedPublicClientID cfg" "SeedPublicClientName cfg" "SeedPublicRedirect cfg" "SeedPublicPostLogout cfg"]
    seeds_skip by (auto simp: PublicClient_def [abs_def] split: if_splits)

lemma seeds_DemoRPB: "inv s \<Longrightarrow> fst (DemoRPB C cfg s) = Inr () \<Longrightarrow> \<exists>ws. seeds ws (DemoRPB C cfg)"
  using seeds_skip by (cases "SeedDemoRPBRedirect cfg = []") (auto simp: DemoRPB_def [abs_def] dest: seeds_upsert)

lemma seeds_extras: "inv s \<Longrightarrow> fst (seed_extras C xs s) = Inr () \<Longrightarrow> \<exists>ws. seeds ws (seed_extras C xs)"
proof (induction xs arbitrary: s)
  case Nil
  then show ?case using seeds_skip by (auto simp: fun_eq_iff)
next
  case (Cons x xs)
  let ?i = "TrimSpace (xcID x)" and ?r = "TrimSpace (xcRedirectURI x)"
  let ?f = "upsertPublicClient C ?i (if TrimSpace (xcName x) = [] then ?i else TrimSpace (xcName x)) ?r (TrimSpace (xcPostLogout x))"
  have ne: "?i \<noteq> []" "?r \<noteq> []" using Cons.prems(2) by (auto simp: Let_def split: if_splits)
  have step: "seed_extras C (x # xs) s = (case ?f s of (Inl e, s) \<Rightarrow> (Inl e, s) | (Inr _, s) \<Rightarrow> seed_extras C xs s)" for s
    using ne by (simp add: Let_def)
  obtain s1 where f: "?f s = (Inr (), s1)"
    using Cons.prems(2) unfolding step by (cases "?f s") (auto split: sum.splits)
  obtain w where w: "seeds [w] ?f" using seeds_upsert [OF Cons.prems(1)] f by fastforce
  have "inv s1" using w Cons.prems(1) f by (fastforce simp: seeds_def)
  moreover have "fst (seed_extras C xs s1) = Inr ()" using Cons.prems(2) f unfolding step by simp
  ultimately obtain ws where ws: "seeds ws (seed_extras C xs)" using Cons.IH by blast
  have "fst (seed_extras C (x # xs) s) = Inr () \<and> inv (snd (seed_extras C (x # xs) s)) \<and>
      abs (snd (seed_extras C (x # xs) s)) = (abs s)\<lparr>av_clients := apply_wants ([w] @ ws) (av_clients (abs s))\<rparr>" if "inv s" for s
  proof -
    have 1: "fst (?f s) = Inr ()" "inv (snd (?f s))"
      "abs (snd (?f s)) = (abs s)\<lparr>av_clients := apply_wants [w] (av_clients (abs s))\<rparr>"
      using w that unfolding seeds_def by blast+
    have eq: "seed_extras C (x # xs) s = seed_extras C xs (snd (?f s))"
      unfolding step using 1(1) by (cases "?f s") (simp only: fst_conv snd_conv prod.case sum.case)
    show ?thesis using ws 1 unfolding eq seeds_def apply_wants_append by auto
  qed
  then show ?case unfolding seeds_def by blast
qed

lemma seeds_ExtraClients: "inv s \<Longrightarrow> fst (ExtraClients unmarshal C cfg s) = Inr () \<Longrightarrow> \<exists>ws. seeds ws (ExtraClients unmarshal C cfg)"
  using seeds_skip seeds_extras
  by (auto simp: ExtraClients_def [abs_def] Let_def split: if_splits option.splits)

end

lemma and_then_ok: "and_then f g w = (Inr (), w') \<longleftrightarrow> (\<exists>v. f w = (Inr (), v) \<and> g v = (Inr (), w'))"
  by (auto simp: and_then_def split: prod.split sum.split)

context repos_contract
begin

lemma seeds_step:
  "seeds ws f \<Longrightarrow> inv (w_store w) \<Longrightarrow> on_store f w = (Inr (), w\<lparr>w_store := snd (f (w_store w))\<rparr>) \<and>
    inv (snd (f (w_store w))) \<and> abs (snd (f (w_store w))) = (abs (w_store w))\<lparr>av_clients := apply_wants ws (av_clients (abs (w_store w)))\<rparr>"
  by (simp add: seeds_def on_store_eq)

lemma Register_conflict:
  assumes "inv (w_store w)" and "av_users (abs (w_store w)) (ULID E (w_ids w)) = None"
    and "Register (Users R) E inp w = (Inl ErrConflict, w')"
  shows "\<exists>e i v. normalizeEmail E (rEmail inp) = Inr e \<and> TrimSpace (rName inp) \<noteq> [] \<and>
    av_users (abs (w_store w)) i = Some v \<and> uEmail v = e \<and> w_store w' = w_store w"
proof -
  obtain e where e: "normalizeEmail E (rEmail inp) = Inr e"
    using assms(3) by (auto simp: Register_def normalizeEmail_def Let_def split: sum.splits if_splits)
  define row where "row h = zero_user\<lparr>uID := ULID E (w_ids w), uEmail := e, uName := TrimSpace (rName inp),
    uPasswordHash := h, uCreatedAt := Now E\<rparr>" for h
  obtain h where h: "fst (Create (Users R) (row h) (w_store w)) = Inl ErrConflict" "TrimSpace (rName inp) \<noteq> []"
    "w_store w' = snd (Create (Users R) (row h) (w_store w))"
    using assms(3) e
    by (auto simp: Register_def Let_def Hash_password_def id_New_def on_store_eq row_def split: sum.splits if_splits option.splits)
  define u where "u = row h"
  have u: "uEmail u = e" "uID u = ULID E (w_ids w)" "fst (Create (Users R) u (w_store w)) = Inl ErrConflict"
    "TrimSpace (rName inp) \<noteq> []" "w_store w' = snd (Create (Users R) u (w_store w))"
    using h by (simp_all add: u_def) (simp_all add: row_def)
  obtain i v where v: "av_users (abs (w_store w)) i = Some v" "uEmail v = ToLower (uEmail u)"
    using create_ok [OF assms(1), of u] u(2,3) assms(2) by fastforce
  then have "Create (Users R) u (w_store w) = (Inl ErrConflict, w_store w)" by (rule create_conflict [OF assms(1)])
  then show ?thesis using e u v normalizeEmail_lower [OF e] by auto
qed

text \<open>The demo account after its seed: it is there, or none is configured.\<close>

definition demo_seeded :: "env \<Rightarrow> 's \<Rightarrow> bool" where
  "demo_seeded E s \<longleftrightarrow> SeedDemoEmail (Cfg E) = [] \<or>
    TrimSpace (SeedDemoPassword (Cfg E)) \<noteq> [] \<and> TrimSpace (SeedDemoName (Cfg E)) \<noteq> [] \<and>
    (\<exists>e i v. normalizeEmail E (SeedDemoEmail (Cfg E)) = Inr e \<and> av_users (abs s) i = Some v \<and> uEmail v = e)"

lemma DemoUser_seeded:
  assumes "sys_inv U w" and "ids_ok U E" and "DemoUser (Users R) E w = (Inr (), w')"
  shows "demo_seeded E (w_store w')" and "av_clients (abs (w_store w')) = av_clients (abs (w_store w))"
proof -
  note inv = sys_invD(1) [OF assms(1)]
  have fresh: "av_users (abs (w_store w)) (ULID E (w_ids w)) = None"
    using sys_invD(2) [OF assms(1)] assms(2) by (simp add: ok_defs ids_ok_def)
  let ?inp = "\<lparr>rEmail = SeedDemoEmail (Cfg E), rPassword = SeedDemoPassword (Cfg E), rName = SeedDemoName (Cfg E)\<rparr>"
  have "demo_seeded E (w_store w') \<and> av_clients (abs (w_store w')) = av_clients (abs (w_store w))"
  proof (cases "SeedDemoEmail (Cfg E) = []")
    case True
    then show ?thesis using assms(3) by (simp add: demo_seeded_def DemoUser_def)
  next
    case False
    have pw: "TrimSpace (SeedDemoPassword (Cfg E)) \<noteq> []" using assms(3) False by (auto simp: DemoUser_def)
    obtain res where reg: "Register (Users R) E ?inp w = (res, w')" "res = Inl ErrConflict \<or> (\<exists>u. res = Inr u)"
      using assms(3) False pw by (auto simp: DemoUser_def Let_def split: prod.splits sum.splits if_splits)
    show ?thesis
    proof (cases res)
      case (Inl x)
      then show ?thesis using Register_conflict [OF inv fresh] reg pw by (fastforce simp: demo_seeded_def)
    next
      case (Inr u)
      have "TrimSpace (rName ?inp) \<noteq> []" using reg(1) Inr by (auto simp: Register_def Let_def split: sum.splits if_splits)
      moreover obtain e salt where e: "normalizeEmail E (rEmail ?inp) = Inr e" "u = registered_user E ?inp e w salt"
        "abs (w_store w') = (abs (w_store w))\<lparr>av_users := (av_users (abs (w_store w)))(uID u \<mapsto> u)\<rparr>"
        using Register_ok [OF inv reg(1) [unfolded Inr] fresh] by blast
      moreover have "av_users (abs (w_store w')) (uID u) = Some u" "uEmail u = e"
        using e(2,3) by (simp_all add: registered_user_def)
      ultimately have "demo_seeded E (w_store w')" using pw unfolding demo_seeded_def by auto
      then show ?thesis using e(3) by simp
    qed
  qed
  then show "demo_seeded E (w_store w')" and "av_clients (abs (w_store w')) = av_clients (abs (w_store w))" by auto
qed

lemma DemoUser_again:
  assumes "inv (w_store w)" and "demo_seeded E (w_store w)" and "Cfg E' = Cfg E" and "MailOK E' = MailOK E"
    and "\<forall>k n. Rand E' k n \<noteq> None"
  shows "\<exists>w'. DemoUser (Users R) E' w = (Inr (), w') \<and> w_store w' = w_store w"
proof (cases "SeedDemoEmail (Cfg E) = []")
  case True
  then show ?thesis using assms(3) by (simp add: DemoUser_def)
next
  case False
  then obtain e i v where d: "TrimSpace (SeedDemoPassword (Cfg E)) \<noteq> []" "TrimSpace (SeedDemoName (Cfg E)) \<noteq> []"
    "normalizeEmail E (SeedDemoEmail (Cfg E)) = Inr e" "av_users (abs (w_store w)) i = Some v" "uEmail v = e"
    using assms(2) by (auto simp: demo_seeded_def)
  have e: "normalizeEmail E' (SeedDemoEmail (Cfg E)) = Inr e" using d(3) assms(4) by (simp add: normalizeEmail_def)
  have taken: "Create (Users R) u (w_store w) = (Inl ErrConflict, w_store w)" if "uEmail u = e" for u
    using create_conflict [OF assms(1) d(4)] that d(5) normalizeEmail_lower [OF d(3)] by simp
  obtain salt where salt: "Rand E' (w_draws w) saltLen = Some salt" using assms(5) by blast
  have pw: "SeedDemoPassword (Cfg E) \<noteq> []" using d(1) by auto
  show ?thesis
    using False d(1,2) e salt pw assms(3) taken
    by (simp add: DemoUser_def Register_def Hash_password_def id_New_def on_store_eq Let_def)
qed

text \<open>The demo organization: whoever is to have one has one, and accounts and clients stay.\<close>

definition org_seeded :: "env \<Rightarrow> 's \<Rightarrow> bool" where
  "org_seeded E s \<longleftrightarrow> SeedDemoEmail (Cfg E) = [] \<or>
    (\<forall>u. GetByEmail (Users R) (SeedDemoEmail (Cfg E)) s = Inr u \<longrightarrow>
      (\<exists>i. av_members (abs s) i (uID u) \<noteq> None \<and> av_orgs (abs s) i \<noteq> None))"

lemma DemoOrganization_seeded:
  assumes "sys_inv U w" and "ids_ok U E" and "DemoOrganization R E w = (Inr (), w')"
  shows "org_seeded E (w_store w')" and "av_clients (abs (w_store w')) = av_clients (abs (w_store w))"
    and "av_users (abs (w_store w')) = av_users (abs (w_store w))"
proof -
  note inv = sys_invD(1) [OF assms(1)]
  have "org_seeded E (w_store w') \<and> av_clients (abs (w_store w')) = av_clients (abs (w_store w)) \<and>
    av_users (abs (w_store w')) = av_users (abs (w_store w))"
  proof (cases "SeedDemoEmail (Cfg E) = [] \<or> (\<exists>e. GetByEmail (Users R) (SeedDemoEmail (Cfg E)) (w_store w) = Inl e)")
    case True
    then show ?thesis using assms(3) by (auto simp: DemoOrganization_def org_seeded_def split: sum.splits)
  next
    case False
    then obtain u where u: "GetByEmail (Users R) (SeedDemoEmail (Cfg E)) (w_store w) = Inr u"
      by (cases "GetByEmail (Users R) (SeedDemoEmail (Cfg E)) (w_store w)") auto
    obtain os where os: "ListOrganizationsForUser (Organizations R) (uID u) (w_store w) = Inr os"
      "set os = {org. \<exists>i. av_members (abs (w_store w)) i (uID u) \<noteq> None \<and> av_orgs (abs (w_store w)) i = Some org}"
      using list_for_user [OF inv] by blast
    show ?thesis
    proof (cases "os = []")
      case False
      then obtain org where "org \<in> set os" by (cases os) auto
      then show ?thesis using assms(3) u os False by (auto simp: DemoOrganization_def org_seeded_def split: if_splits)
    next
      case True
      have us: "av_users (abs (w_store w)) (uID u) \<noteq> None" using get_by_email [OF inv] u by simp
      have U: "ULID E = U" using assms(2) by (simp add: ids_ok_def)
      have free: "av_orgs (abs (w_store w)) (U (w_ids w)) = None" using sys_invD(2) [OF assms(1)] by (simp add: ok_defs)
      let ?org = "\<lparr>oID = U (w_ids w), oName = ''Demo Organization'', oCreatedAt = Now E\<rparr>"
      let ?m = "\<lparr>mOrgID = U (w_ids w), mUserID = uID u, mRole = OrgRoleOwner, mJoinedAt = Now E\<rparr>"
      let ?s1 = "snd (CreateOrganization (Organizations R) ?org (w_store w))"
      have c: "fst (CreateOrganization (Organizations R) ?org (w_store w)) = Inr ()" "inv ?s1"
        "abs ?s1 = (abs (w_store w))\<lparr>av_orgs := (av_orgs (abs (w_store w)))(U (w_ids w) \<mapsto> ?org)\<rparr>"
        using create_org [OF inv, of ?org] free by simp_all
      have none: "av_members (abs (w_store w)) (U (w_ids w)) = Map.empty"
        by (rule ok_no_members [OF sys_invD(2) [OF assms(1)] free])
      have a: "inv (snd (AddOrganizationMember (Organizations R) ?m ?s1))"
        "abs (snd (AddOrganizationMember (Organizations R) ?m ?s1)) = (abs ?s1)\<lparr>av_members := (av_members (abs ?s1))
          (U (w_ids w) := (av_members (abs ?s1) (U (w_ids w)))(uID u \<mapsto> ?m))\<rparr>"
        using add_member [OF c(2), of ?m] us c(3) none by simp_all
      have w': "w_store w' = snd (AddOrganizationMember (Organizations R) ?m ?s1)"
        using assms(3) False u os(1) True c(1) by (auto simp: DemoOrganization_def seed_org_def Let_def id_New_def on_store_eq U)
      have "GetByEmail (Users R) (SeedDemoEmail (Cfg E)) (w_store w') = Inr v \<longleftrightarrow> v = u" for v
        using get_by_email [OF inv] get_by_email [OF a(1)] u user_key [OF inv] a(2) c(3) unfolding w'
        by simp (metis Inr_inject)
      then show ?thesis using a(2) c(3) by (auto simp: org_seeded_def w')
    qed
  qed
  then show "org_seeded E (w_store w')" and "av_clients (abs (w_store w')) = av_clients (abs (w_store w))"
    and "av_users (abs (w_store w')) = av_users (abs (w_store w))" by auto
qed

lemma DemoOrganization_again:
  assumes "inv (w_store w)" and "org_seeded E (w_store w)" and "Cfg E' = Cfg E"
  shows "DemoOrganization R E' w = (Inr (), w)"
proof (cases "SeedDemoEmail (Cfg E) = [] \<or> (\<exists>e. GetByEmail (Users R) (SeedDemoEmail (Cfg E)) (w_store w) = Inl e)")
  case True
  then show ?thesis using assms(3) by (auto simp: DemoOrganization_def)
next
  case False
  then obtain u where u: "GetByEmail (Users R) (SeedDemoEmail (Cfg E)) (w_store w) = Inr u"
    by (cases "GetByEmail (Users R) (SeedDemoEmail (Cfg E)) (w_store w)") auto
  obtain os where os: "ListOrganizationsForUser (Organizations R) (uID u) (w_store w) = Inr os"
    "set os = {org. \<exists>i. av_members (abs (w_store w)) i (uID u) \<noteq> None \<and> av_orgs (abs (w_store w)) i = Some org}"
    using list_for_user [OF assms(1)] by blast
  have "set os \<noteq> {}" using assms(2) False u os(2) by (auto simp: org_seeded_def)
  then have "os \<noteq> []" by auto
  then show ?thesis using u os(1) assms(3) by (simp add: DemoOrganization_def)
qed

lemma seed_all_again:
  assumes "sys_inv U w" and "ids_ok U E" and "seed_all unmarshal R E w = (Inr (), w1)"
    and "Cfg E' = Cfg E" and "MailOK E' = MailOK E" and "\<forall>k n. Rand E' k n \<noteq> None"
  shows "\<exists>w2. seed_all unmarshal R E' w1 = (Inr (), w2) \<and> abs (w_store w2) = abs (w_store w1)"
proof -
  let ?P = "PublicClient (Clients R) (Cfg E)" and ?D = "DemoRPB (Clients R) (Cfg E)"
    and ?X = "ExtraClients unmarshal (Clients R) (Cfg E)"
  obtain v1 v2 v3 v4 where v: "on_store ?P w = (Inr (), v1)" "on_store ?D v1 = (Inr (), v2)" "on_store ?X v2 = (Inr (), v3)"
    "DemoUser (Users R) E v3 = (Inr (), v4)" "DemoOrganization R E v4 = (Inr (), w1)"
    using assms(3) unfolding seed_all_def and_then_ok by blast
  have i0: "inv (w_store w)" by (rule sys_invD(1) [OF assms(1)])
  obtain ws1 where ws1: "seeds ws1 ?P" using seeds_PublicClient [OF i0] v(1) by (fastforce simp: on_store_eq)
  note s1 = seeds_step [OF ws1 i0]
  then have v1: "v1 = w\<lparr>w_store := snd (?P (w_store w))\<rparr>" "inv (w_store v1)" using v(1) by auto
  obtain ws2 where ws2: "seeds ws2 ?D" using seeds_DemoRPB [OF v1(2)] v(2) by (fastforce simp: on_store_eq)
  note s2 = seeds_step [OF ws2 v1(2)]
  then have v2: "v2 = v1\<lparr>w_store := snd (?D (w_store v1))\<rparr>" "inv (w_store v2)" using v(2) by auto
  obtain ws3 where ws3: "seeds ws3 ?X" using seeds_ExtraClients [OF v2(2)] v(3) by (fastforce simp: on_store_eq)
  note s3 = seeds_step [OF ws3 v2(2)]
  then have v3: "v3 = v2\<lparr>w_store := snd (?X (w_store v2))\<rparr>" using v(3) by auto
  have sys: "sys_inv U v3" "sys_inv U v4" "sys_inv U w1"
  proof -
    have c: "sys_inv U (snd (on_store ?P w))" if "sys_inv U w" for w
      using upsert_sys [OF that] that by (simp add: PublicClient_def on_store_eq)
    have d: "sys_inv U (snd (on_store ?D w))" if "sys_inv U w" for w
      using upsert_sys [OF that] that by (simp add: DemoRPB_def on_store_eq)
    have x: "sys_inv U (snd (on_store ?X w))" if "sys_inv U w" for w
      using seed_extras_sys [OF that] that by (simp add: ExtraClients_def Let_def on_store_eq split: option.split)
    show v3: "sys_inv U v3" using c [OF assms(1)] d x v(1-3) by (metis snd_conv)
    show v4: "sys_inv U v4" using DemoUser_sys [OF v3 assms(2)] v(4) by simp
    show "sys_inv U w1" using DemoOrganization_sys [OF v4 assms(2)] v(5) by simp
  qed
  note du = DemoUser_seeded [OF sys(1) assms(2) v(4)]
  note og = DemoOrganization_seeded [OF sys(2) assms(2) v(5)]
  let ?ws = "ws1 @ ws2 @ ws3"
  have cl: "av_clients (abs (w_store w1)) = apply_wants ?ws (av_clients (abs (w_store w)))"
    using og(2) du(2) s1 s2 s3 v1(1) v2(1) v3 by (simp add: apply_wants_append)
  have i1: "inv (w_store w1)" by (rule sys_invD(1) [OF sys(3)])
  define u1 where "u1 = w1\<lparr>w_store := snd (?P (w_store w1))\<rparr>"
  define u2 where "u2 = u1\<lparr>w_store := snd (?D (w_store u1))\<rparr>"
  define u3 where "u3 = u2\<lparr>w_store := snd (?X (w_store u2))\<rparr>"
  note t1 = seeds_step [OF ws1 i1]
  then have u1: "inv (w_store u1)" by (simp add: u1_def)
  note t2 = seeds_step [OF ws2 u1]
  then have u2: "inv (w_store u2)" by (simp add: u2_def)
  note t3 = seeds_step [OF ws3 u2]
  then have u3: "inv (w_store u3)" by (simp add: u3_def)
  have "abs (w_store u3) = (abs (w_store w1))\<lparr>av_clients := apply_wants ?ws (av_clients (abs (w_store w1)))\<rparr>"
    using t1 t2 t3 by (simp add: u1_def u2_def u3_def apply_wants_append)
  then have same: "abs (w_store u3) = abs (w_store w1)" by (simp add: cl apply_wants_twice)
  have "demo_seeded E (w_store u3)" using du(1) og(3) same by (simp add: demo_seeded_def)
  from DemoUser_again [OF u3 this assms(4-6)] obtain u4 where u4: "DemoUser (Users R) E' u3 = (Inr (), u4)" "w_store u4 = w_store u3"
    by blast
  have "GetByEmail (Users R) e (w_store u3) = Inr x \<longleftrightarrow> GetByEmail (Users R) e (w_store w1) = Inr x" for e x
    using get_by_email [OF u3] get_by_email [OF i1] same by simp
  then have "org_seeded E (w_store u4)" using og(1) same u4(2) by (simp add: org_seeded_def)
  from DemoOrganization_again [OF _ this assms(4)] have "DemoOrganization R E' u4 = (Inr (), u4)" using u4(2) u3 by simp
  then have "seed_all unmarshal R E' w1 = (Inr (), u4)"
    unfolding seed_all_def and_then_ok using assms(4) t1 t2 t3 u4(1) u1_def u2_def u3_def by metis
  then show ?thesis using u4(2) same by auto
qed

end

subsection \<open>The property\<close>

text \<open>
  C37. Seeding is idempotent: when the seeds have succeeded on a new store or on one that the server has
  worked with, a later start with the same configuration succeeds and leaves every account,
  client, organization and other row as it is. Documented behaviour used: \<open>crypto/rand\<close> does not fail
  in the later start, and \<open>mail.ParseAddress\<close> judges addresses as before.
\<close>

theorem restart_keeps_store:
  assumes "w = start_world \<or> reachable U w" and "ids_ok U E"
    and "seed_all unmarshal (mem_repos it) E w = (Inr (), w1)"
    and "Cfg E' = Cfg E" and "MailOK E' = MailOK E" and "\<forall>k n. Rand E' k n \<noteq> None"
  shows "\<exists>w2. seed_all unmarshal (mem_repos it) E' w1 = (Inr (), w2) \<and> mem_abs (w_store w2) = mem_abs (w_store w1)"
  by (rule mem.seed_all_again [OF _ assms(2-6)]) (use assms(1) start_sys reachable_sys in blast)

theorem restart_keeps_store_witness:
  "\<exists>w2. seed_all (\<lambda>s. None) (mem_repos id) boot_env boot_world = (Inr (), w2) \<and>
    mem_abs (w_store w2) = mem_abs (w_store boot_world)"
  by (rule restart_keeps_store [OF disjI1 [OF refl] boot_ids boot_seeds]) (simp_all add: boot_sel)

end
