(* ===== verification/StoreOps.thy ===== *)
theory StoreOps
  imports MemRepos
begin

section \<open>What any store promises\<close>

text \<open>
  The conversation between the server and its store: one constructor per method of
  \<open>domain.Repos\<close>, \<open>exec\<close> calls the method, and \<open>spec_out\<close> and \<open>spec_post\<close> say what an
  implementation answers and how the meaning of the store changes. \<open>adm\<close> names the calls on
  which the two implementations of the repository are meant to agree: rows the server inserts
  have fresh keys and refer to rows that exist, a user identifier has no bar, and the
  session identifier is not blank. The last part proves, inside \<open>repos_contract\<close>, that every
  store that keeps the contracts meets this specification.
\<close>

subsection \<open>Calls and answers\<close>

datatype op =
    Create_op user
  | GetByEmail_op string
  | GetByID_op string
  | ListUsers_op
  | SetUserDisabled_op string bool
  | PutSession_op session
  | GetSession_op string
  | GetSessionBySID_op string
  | DeleteSession_op string
  | AddSessionClient_op string string
  | ListSessionClients_op string
  | CreateClient_op client
  | GetClient_op string
  | ListClients_op
  | UpdateClient_op string client_patch
  | SetClientSecret_op string string
  | PutCode_op auth_code
  | TakeCode_op string
  | PutRefresh_op refresh_token
  | GetRefresh_op string
  | TakeRefresh_op string
  | RevokeFamily_op string
  | PutAccess_op access_token
  | GetAccess_op string
  | PutConsent_op consent
  | GetConsent_op string string
  | AppendAudit_op audit_event
  | ListAudits_op int string
  | CreateOrganization_op organization
  | GetOrganization_op string
  | ListOrganizations_op
  | ListOrganizationsForUser_op string
  | AddOrganizationMember_op membership
  | ListOrganizationMembers_op string
  | GetOrganizationMembership_op string string
  | UpdateOrganizationMemberRole_op string string org_role
  | RemoveOrganizationMember_op string string
  | SetSessionActiveOrg_op string string
  | SetSessionActiveOrgBySID_op string string

datatype answer =
    Done_ans "unit res"
  | User_ans "user res"
  | Users_ans "user list res"
  | Session_ans "session res"
  | Strings_ans "string list res"
  | Client_ans "client res"
  | Clients_ans "client list res"
  | Code_ans "auth_code res"
  | Refresh_ans "refresh_token res"
  | Access_ans "access_token res"
  | Consent_ans "consent res"
  | Page_ans "audit_page res"
  | Org_ans "organization res"
  | Orgs_ans "organization list res"
  | Member_ans "membership res"
  | Members_ans "membership list res"

abbreviation writes :: "('a \<Rightarrow> answer) \<Rightarrow> 'a \<times> 's \<Rightarrow> answer \<times> 's" where
  "writes con p \<equiv> (con (fst p), snd p)"

fun exec :: "'s repos \<Rightarrow> op \<Rightarrow> 's \<Rightarrow> answer \<times> 's" where
  "exec R (Create_op u) s = writes Done_ans (Create (Users R) u s)"
| "exec R (GetByEmail_op e) s = (User_ans (GetByEmail (Users R) e s), s)"
| "exec R (GetByID_op i) s = (User_ans (GetByID (Users R) i s), s)"
| "exec R ListUsers_op s = (Users_ans (ListUsers (Users R) s), s)"
| "exec R (SetUserDisabled_op i b) s = writes Done_ans (SetUserDisabled (Users R) i b s)"
| "exec R (PutSession_op x) s = writes Done_ans (PutSession (Sessions R) x s)"
| "exec R (GetSession_op h) s = (Session_ans (GetSession (Sessions R) h s), s)"
| "exec R (GetSessionBySID_op sid) s = (Session_ans (GetSessionBySID (Sessions R) sid s), s)"
| "exec R (DeleteSession_op h) s = writes Done_ans (DeleteSession (Sessions R) h s)"
| "exec R (AddSessionClient_op sid c) s = writes Done_ans (AddSessionClient (Sessions R) sid c s)"
| "exec R (ListSessionClients_op sid) s = (Strings_ans (ListSessionClients (Sessions R) sid s), s)"
| "exec R (CreateClient_op c) s = writes Done_ans (CreateClient (Clients R) c s)"
| "exec R (GetClient_op i) s = (Client_ans (GetClient (Clients R) i s), s)"
| "exec R ListClients_op s = (Clients_ans (ListClients (Clients R) s), s)"
| "exec R (UpdateClient_op i p) s = writes Done_ans (UpdateClient (Clients R) i p s)"
| "exec R (SetClientSecret_op i x) s = writes Done_ans (SetClientSecret (Clients R) i x s)"
| "exec R (PutCode_op c) s = writes Done_ans (PutCode (AuthCodes R) c s)"
| "exec R (TakeCode_op h) s = writes Code_ans (TakeCode (AuthCodes R) h s)"
| "exec R (PutRefresh_op t) s = writes Done_ans (PutRefresh (RefreshTokens R) t s)"
| "exec R (GetRefresh_op h) s = (Refresh_ans (GetRefresh (RefreshTokens R) h s), s)"
| "exec R (TakeRefresh_op h) s = writes Refresh_ans (TakeRefresh (RefreshTokens R) h s)"
| "exec R (RevokeFamily_op f) s = writes Done_ans (RevokeFamily (RefreshTokens R) f s)"
| "exec R (PutAccess_op t) s = writes Done_ans (PutAccess (AccessTokens R) t s)"
| "exec R (GetAccess_op h) s = (Access_ans (GetAccess (AccessTokens R) h s), s)"
| "exec R (PutConsent_op c) s = writes Done_ans (PutConsent (Consents R) c s)"
| "exec R (GetConsent_op u c) s = (Consent_ans (GetConsent (Consents R) u c s), s)"
| "exec R (AppendAudit_op e) s = writes Done_ans (AppendAudit (Audits R) e s)"
| "exec R (ListAudits_op n a) s = (Page_ans (ListAudits (Audits R) n a s), s)"
| "exec R (CreateOrganization_op g) s = writes Done_ans (CreateOrganization (Organizations R) g s)"
| "exec R (GetOrganization_op i) s = (Org_ans (GetOrganization (Organizations R) i s), s)"
| "exec R ListOrganizations_op s = (Orgs_ans (ListOrganizations (Organizations R) s), s)"
| "exec R (ListOrganizationsForUser_op u) s =
    (Orgs_ans (ListOrganizationsForUser (Organizations R) u s), s)"
| "exec R (AddOrganizationMember_op m) s =
    writes Done_ans (AddOrganizationMember (Organizations R) m s)"
| "exec R (ListOrganizationMembers_op i) s =
    (Members_ans (ListOrganizationMembers (Organizations R) i s), s)"
| "exec R (GetOrganizationMembership_op i u) s =
    (Member_ans (GetOrganizationMembership (Organizations R) i u s), s)"
| "exec R (UpdateOrganizationMemberRole_op i u r) s =
    writes Done_ans (UpdateOrganizationMemberRole (Organizations R) i u r s)"
| "exec R (RemoveOrganizationMember_op i u) s =
    writes Done_ans (RemoveOrganizationMember (Organizations R) i u s)"
| "exec R (SetSessionActiveOrg_op h i) s =
    writes Done_ans (SetSessionActiveOrg (Organizations R) h i s)"
| "exec R (SetSessionActiveOrgBySID_op sid i) s =
    writes Done_ans (SetSessionActiveOrgBySID (Organizations R) sid i s)"

subsection \<open>The specification\<close>

definition present :: "'a option \<Rightarrow> unit res" where
  "present x = (case x of None \<Rightarrow> Inl ErrNotFound | Some _ \<Rightarrow> Inr ())"

lemma present_simps [simp]: "present None = Inl ErrNotFound" "present (Some v) = Inr ()"
  by (simp_all add: present_def)

definition modify :: "'k \<Rightarrow> ('v \<Rightarrow> 'v) \<Rightarrow> ('k \<rightharpoonup> 'v) \<Rightarrow> 'k \<rightharpoonup> 'v" where
  "modify k f m = (case m k of None \<Rightarrow> m | Some v \<Rightarrow> m(k \<mapsto> f v))"

lemma modify_simps [simp]:
  "m k = None \<Longrightarrow> modify k f m = m" "m k = Some v \<Longrightarrow> modify k f m = m(k \<mapsto> f v)"
  by (simp_all add: modify_def)

definition email_taken :: "string \<Rightarrow> astore \<Rightarrow> bool" where
  "email_taken e a \<longleftrightarrow> (\<exists>i v. av_users a i = Some v \<and> uEmail v = e)"

definition patched :: "client_patch \<Rightarrow> client \<Rightarrow> client" where
  "patched p c = c\<lparr>cName := pName p, cRedirectURIs := pRedirectURIs p,
     cPostLogoutRedirectURIs := pPostLogoutRedirectURIs p,
     cFrontChannelLogoutURI := pFrontChannelLogoutURI p,
     cBackChannelLogoutURI := pBackChannelLogoutURI p\<rparr>"

definition has_sid :: "astore \<Rightarrow> string \<Rightarrow> string \<Rightarrow> bool" where
  "has_sid a sid h \<longleftrightarrow> (\<exists>x. av_sessions a h = Some x \<and> sSID x = sid)"

definition one_sid :: "astore \<Rightarrow> string \<Rightarrow> bool" where
  "one_sid a sid \<longleftrightarrow> (\<forall>h k. has_sid a sid h \<longrightarrow> has_sid a sid k \<longrightarrow> h = k)"

definition lists_rows :: "'v set \<Rightarrow> ('v \<Rightarrow> 'i) \<Rightarrow> ('v \<Rightarrow> 'k::linorder) \<Rightarrow> 'v list res \<Rightarrow> bool" where
  "lists_rows rows ident key r \<longleftrightarrow>
    (\<exists>xs. r = Inr xs \<and> set xs = rows \<and> distinct (map ident xs) \<and> sorted (map key xs))"

definition user_orgs :: "astore \<Rightarrow> string \<Rightarrow> organization set" where
  "user_orgs a u = {org. \<exists>i. av_members a i u \<noteq> None \<and> av_orgs a i = Some org}"

fun spec_out :: "op \<Rightarrow> astore \<Rightarrow> answer \<Rightarrow> bool" where
  "spec_out (Create_op u) a ans = (ans = Done_ans (if email_taken (ToLower (uEmail u)) a then Inl ErrConflict else Inr ()))"
| "spec_out (GetByEmail_op e) a ans =
    (\<exists>r. ans = User_ans r \<and> (case r of
        Inr u \<Rightarrow> av_users a (uID u) = Some u \<and> uEmail u = ToLower e
      | Inl x \<Rightarrow> x = ErrNotFound \<and> \<not> email_taken (ToLower e) a))"
| "spec_out (GetByID_op i) a ans = (ans = User_ans (found (av_users a i)))"
| "spec_out ListUsers_op a ans = (\<exists>r. ans = Users_ans r \<and> lists_rows (ran (av_users a)) uEmail uEmail r)"
| "spec_out (SetUserDisabled_op i b) a ans = (ans = Done_ans (present (av_users a i)))"
| "spec_out (PutSession_op x) a ans = (ans = Done_ans (Inr ()))"
| "spec_out (GetSession_op h) a ans = (ans = Session_ans (found (av_sessions a h)))"
| "spec_out (GetSessionBySID_op sid) a ans =
    (\<exists>r. ans = Session_ans r \<and> (case r of
        Inr x \<Rightarrow> av_sessions a (sTokenHash x) = Some x \<and> sSID x = sid
      | Inl e \<Rightarrow> e = ErrNotFound \<and> (\<forall>h. \<not> has_sid a sid h)))"
| "spec_out (DeleteSession_op h) a ans = (ans = Done_ans (Inr ()))"
| "spec_out (AddSessionClient_op sid c) a ans = (ans = Done_ans (Inr ()))"
| "spec_out (ListSessionClients_op sid) a ans =
    (\<exists>r. ans = Strings_ans r \<and> lists_rows (av_sidRP a sid) id id r)"
| "spec_out (CreateClient_op c) a ans =
    (ans = Done_ans (if av_clients a (cID c) = None then Inr () else Inl ErrConflict))"
| "spec_out (GetClient_op i) a ans = (ans = Client_ans (found (av_clients a i)))"
| "spec_out ListClients_op a ans = (\<exists>r. ans = Clients_ans r \<and> lists_rows (ran (av_clients a)) cID cID r)"
| "spec_out (UpdateClient_op i p) a ans = (ans = Done_ans (present (av_clients a i)))"
| "spec_out (SetClientSecret_op i x) a ans = (ans = Done_ans (present (av_clients a i)))"
| "spec_out (PutCode_op c) a ans = (ans = Done_ans (Inr ()))"
| "spec_out (TakeCode_op h) a ans =
    (ans = Code_ans (case av_codes a h of
        None \<Rightarrow> Inl ErrNotFound
      | Some c \<Rightarrow> if acUsed c then Inl ErrUsed else Inr (c\<lparr>acUsed := True\<rparr>)))"
| "spec_out (PutRefresh_op t) a ans = (ans = Done_ans (Inr ()))"
| "spec_out (GetRefresh_op h) a ans = (ans = Refresh_ans (found (av_refresh a h)))"
| "spec_out (TakeRefresh_op h) a ans =
    (ans = Refresh_ans (case av_refresh a h of
        None \<Rightarrow> Inl ErrNotFound
      | Some t \<Rightarrow> if rtRevoked t then Inl ErrUsed else Inr (t\<lparr>rtRevoked := True\<rparr>)))"
| "spec_out (RevokeFamily_op f) a ans = (ans = Done_ans (Inr ()))"
| "spec_out (PutAccess_op t) a ans = (ans = Done_ans (Inr ()))"
| "spec_out (GetAccess_op h) a ans = (ans = Access_ans (found (av_access a h)))"
| "spec_out (PutConsent_op c) a ans = (ans = Done_ans (Inr ()))"
| "spec_out (GetConsent_op u c) a ans = (ans = Consent_ans (found (av_consents a u c)))"
| "spec_out (AppendAudit_op e) a ans = (ans = Done_ans (Inr ()))"
| "spec_out (ListAudits_op n i) a ans = (ans = Page_ans (audit_window n i (av_audits a)))"
| "spec_out (CreateOrganization_op g) a ans = (ans = Done_ans (Inr ()))"
| "spec_out (GetOrganization_op i) a ans = (ans = Org_ans (found (av_orgs a i)))"
| "spec_out ListOrganizations_op a ans =
    (\<exists>r. ans = Orgs_ans r \<and> lists_rows (ran (av_orgs a)) oID oCreatedAt r)"
| "spec_out (ListOrganizationsForUser_op u) a ans =
    (\<exists>r. ans = Orgs_ans r \<and> lists_rows (user_orgs a u) oID oCreatedAt r)"
| "spec_out (AddOrganizationMember_op m) a ans =
    (ans = Done_ans (if av_members a (mOrgID m) (mUserID m) = None then Inr () else Inl ErrConflict))"
| "spec_out (ListOrganizationMembers_op i) a ans =
    (\<exists>r. ans = Members_ans r \<and> lists_rows (ran (av_members a i)) mUserID mJoinedAt r)"
| "spec_out (GetOrganizationMembership_op i u) a ans = (ans = Member_ans (found (av_members a i u)))"
| "spec_out (UpdateOrganizationMemberRole_op i u r) a ans = (ans = Done_ans (present (av_members a i u)))"
| "spec_out (RemoveOrganizationMember_op i u) a ans = (ans = Done_ans (present (av_members a i u)))"
| "spec_out (SetSessionActiveOrg_op h i) a ans = (ans = Done_ans (present (av_sessions a h)))"
| "spec_out (SetSessionActiveOrgBySID_op sid i) a ans =
    (ans = Done_ans (if sid = [] then Inl ErrInvalid
                   else if \<exists>h. has_sid a sid h then Inr () else Inl ErrNotFound))"

fun spec_post :: "op \<Rightarrow> astore \<Rightarrow> astore" where
  "spec_post (Create_op u) a =
    (if email_taken (ToLower (uEmail u)) a then a
     else a\<lparr>av_users := (av_users a)(uID u \<mapsto> u\<lparr>uEmail := ToLower (uEmail u)\<rparr>)\<rparr>)"
| "spec_post (SetUserDisabled_op i b) a = a\<lparr>av_users := modify i (\<lambda>u. u\<lparr>uDisabled := b\<rparr>) (av_users a)\<rparr>"
| "spec_post (PutSession_op x) a = a\<lparr>av_sessions := (av_sessions a)(sTokenHash x \<mapsto> x)\<rparr>"
| "spec_post (DeleteSession_op h) a =
    a\<lparr>av_sessions := (av_sessions a)(h := None),
      av_sidRP := (case av_sessions a h of
          Some x \<Rightarrow> if sSID x = [] then av_sidRP a else (av_sidRP a)(sSID x := {})
        | None \<Rightarrow> av_sidRP a)\<rparr>"
| "spec_post (AddSessionClient_op sid c) a =
    (if sid = [] \<or> c = [] then a
     else a\<lparr>av_sidRP := (av_sidRP a)(sid := insert c (av_sidRP a sid))\<rparr>)"
| "spec_post (CreateClient_op c) a =
    (if av_clients a (cID c) = None then a\<lparr>av_clients := (av_clients a)(cID c \<mapsto> c)\<rparr> else a)"
| "spec_post (UpdateClient_op i p) a = a\<lparr>av_clients := modify i (patched p) (av_clients a)\<rparr>"
| "spec_post (SetClientSecret_op i x) a =
    a\<lparr>av_clients := modify i (\<lambda>c. c\<lparr>cSecretHash := x\<rparr>) (av_clients a)\<rparr>"
| "spec_post (PutCode_op c) a = a\<lparr>av_codes := (av_codes a)(acHash c \<mapsto> c)\<rparr>"
| "spec_post (TakeCode_op h) a = a\<lparr>av_codes := modify h (\<lambda>c. c\<lparr>acUsed := True\<rparr>) (av_codes a)\<rparr>"
| "spec_post (PutRefresh_op t) a = a\<lparr>av_refresh := (av_refresh a)(rtHash t \<mapsto> t)\<rparr>"
| "spec_post (TakeRefresh_op h) a =
    a\<lparr>av_refresh := modify h (\<lambda>t. t\<lparr>rtRevoked := True\<rparr>) (av_refresh a)\<rparr>"
| "spec_post (RevokeFamily_op f) a =
    a\<lparr>av_refresh := (\<lambda>h. map_option
        (\<lambda>t. if rtFamilyID t = f then t\<lparr>rtRevoked := True\<rparr> else t) (av_refresh a h))\<rparr>"
| "spec_post (PutAccess_op t) a = a\<lparr>av_access := (av_access a)(atHash t \<mapsto> t)\<rparr>"
| "spec_post (PutConsent_op c) a =
    a\<lparr>av_consents := (av_consents a)(gUserID c := (av_consents a (gUserID c))(gClientID c \<mapsto> c))\<rparr>"
| "spec_post (AppendAudit_op e) a = a\<lparr>av_audits := av_audits a @ [e]\<rparr>"
| "spec_post (CreateOrganization_op g) a = a\<lparr>av_orgs := (av_orgs a)(oID g \<mapsto> g)\<rparr>"
| "spec_post (AddOrganizationMember_op m) a =
    (if av_members a (mOrgID m) (mUserID m) = None
     then a\<lparr>av_members := (av_members a)(mOrgID m := (av_members a (mOrgID m))(mUserID m \<mapsto> m))\<rparr>
     else a)"
| "spec_post (UpdateOrganizationMemberRole_op i u r) a =
    a\<lparr>av_members := (av_members a)(i := modify u (\<lambda>m. m\<lparr>mRole := r\<rparr>) (av_members a i))\<rparr>"
| "spec_post (RemoveOrganizationMember_op i u) a =
    a\<lparr>av_members := (av_members a)(i := (av_members a i)(u := None))\<rparr>"
| "spec_post (SetSessionActiveOrg_op h i) a =
    a\<lparr>av_sessions := modify h (\<lambda>x. x\<lparr>sActiveOrgID := i\<rparr>) (av_sessions a)\<rparr>"
| "spec_post (SetSessionActiveOrgBySID_op sid i) a =
    (if sid = [] then a
     else a\<lparr>av_sessions := (\<lambda>h. map_option
        (\<lambda>x. if sSID x = sid then x\<lparr>sActiveOrgID := i\<rparr> else x) (av_sessions a h))\<rparr>)"
| "spec_post _ a = a"

fun adm :: "op \<Rightarrow> astore \<Rightarrow> bool" where
  "adm (Create_op u) a = (av_users a (uID u) = None \<or> email_taken (ToLower (uEmail u)) a)"
| "adm (PutSession_op x) a = (av_users a (sUserID x) \<noteq> None)"
| "adm (GetSessionBySID_op sid) a = one_sid a sid"
| "adm (ListSessionClients_op sid) a = (sid \<noteq> [])"
| "adm (PutCode_op c) a = (av_codes a (acHash c) = None)"
| "adm (PutConsent_op c) a = (CHR ''|'' \<notin> set (gUserID c))"
| "adm (GetConsent_op u c) a = (CHR ''|'' \<notin> set u)"
| "adm (AppendAudit_op e) a = (aeID e \<notin> aeID ` set (av_audits a))"
| "adm (ListAudits_op n i) a = distinct (map aeID (av_audits a))"
| "adm (CreateOrganization_op g) a = (av_orgs a (oID g) = None)"
| "adm (AddOrganizationMember_op m) a =
    (av_orgs a (mOrgID m) \<noteq> None \<and> av_users a (mUserID m) \<noteq> None)"
| "adm (SetSessionActiveOrgBySID_op sid i) a =
    (sid = [] \<or> TrimSpace sid \<noteq> [] \<and> one_sid a sid)"
| "adm _ a = True"

subsection \<open>Stores that keep the contracts meet it\<close>

definition meets :: "('s \<Rightarrow> astore) \<Rightarrow> ('s \<Rightarrow> bool) \<Rightarrow> op \<Rightarrow> 's \<Rightarrow> answer \<times> 's \<Rightarrow> bool" where
  "meets mean ok op s p \<longleftrightarrow>
    ok (snd p) \<and> spec_out op (mean s) (fst p) \<and> mean (snd p) = spec_post op (mean s)"

lemma meetsI:
  "ok (snd p) \<Longrightarrow> spec_out op (mean s) (fst p) \<Longrightarrow> mean (snd p) = spec_post op (mean s) \<Longrightarrow>
    meets mean ok op s p"
  by (simp add: meets_def)

context repos_contract begin

lemma create_meets: "inv s \<Longrightarrow> adm (Create_op u) (abs s) \<Longrightarrow> meets abs inv (Create_op u) s (exec R (Create_op u) s)"
proof (cases "email_taken (ToLower (uEmail u)) (abs s)")
  case True
  assume "inv s"
  with True show ?thesis
    using create_conflict [of s _ _ u] by (auto simp: meets_def email_taken_def)
next
  case False
  assume s: "inv s" "adm (Create_op u) (abs s)"
  then have "av_users (abs s) (uID u) = None" using False by simp
  then have "fst (Create (Users R) u s) = Inr () \<and> inv (snd (Create (Users R) u s)) \<and>
      abs (snd (Create (Users R) u s)) =
        (abs s)\<lparr>av_users := (av_users (abs s))(uID u \<mapsto> u\<lparr>uEmail := ToLower (uEmail u)\<rparr>)\<rparr>"
    by (rule create_ok [OF s(1)]) (use False in \<open>auto simp: email_taken_def\<close>)
  with False show ?thesis by (simp add: meets_def)
qed

lemma users_meet:
  assumes "inv s"
  shows "meets abs inv (GetByEmail_op e) s (exec R (GetByEmail_op e) s)"
    and "meets abs inv (GetByID_op i) s (exec R (GetByID_op i) s)"
    and "meets abs inv ListUsers_op s (exec R ListUsers_op s)"
    and "meets abs inv (SetUserDisabled_op i b) s (exec R (SetUserDisabled_op i b) s)"
proof -
  show "meets abs inv (GetByEmail_op e) s (exec R (GetByEmail_op e) s)"
    using get_by_email [OF assms, of e] get_by_email_err [OF assms, of e]
      get_by_email_iff_exists [OF assms, of e] assms
    by (auto simp: meets_def email_taken_def split: sum.split)
  show "meets abs inv (GetByID_op i) s (exec R (GetByID_op i) s)"
    using assms by (simp add: meets_def get_by_id)
  show "meets abs inv ListUsers_op s (exec R ListUsers_op s)"
    using list_users [OF assms] assms by (auto simp: meets_def lists_rows_def)
  show "meets abs inv (SetUserDisabled_op i b) s (exec R (SetUserDisabled_op i b) s)"
    using set_disabled_missing [of s i b] set_disabled [OF assms, of i] assms
    by (cases "av_users (abs s) i") (simp_all add: meets_def)
qed

lemma sessions_meet:
  assumes "inv s"
  shows "adm (PutSession_op x) (abs s) \<Longrightarrow> meets abs inv (PutSession_op x) s (exec R (PutSession_op x) s)"
    and "meets abs inv (GetSession_op h) s (exec R (GetSession_op h) s)"
    and "meets abs inv (GetSessionBySID_op sid) s (exec R (GetSessionBySID_op sid) s)"
    and "meets abs inv (DeleteSession_op h) s (exec R (DeleteSession_op h) s)"
    and "meets abs inv (AddSessionClient_op sid c) s (exec R (AddSessionClient_op sid c) s)"
    and "adm (ListSessionClients_op sid) (abs s) \<Longrightarrow>
      meets abs inv (ListSessionClients_op sid) s (exec R (ListSessionClients_op sid) s)"
proof -
  show "meets abs inv (PutSession_op x) s (exec R (PutSession_op x) s)" if "adm (PutSession_op x) (abs s)"
    using put_session [OF assms, of x] that by (simp add: meets_def)
  show "meets abs inv (GetSession_op h) s (exec R (GetSession_op h) s)"
    using assms by (simp add: meets_def get_session)
  show "meets abs inv (GetSessionBySID_op sid) s (exec R (GetSessionBySID_op sid) s)"
    using get_by_sid [OF assms, of sid] get_by_sid_none [OF assms, of sid] assms
    by (auto simp: meets_def has_sid_def split: sum.split)
  show "meets abs inv (DeleteSession_op h) s (exec R (DeleteSession_op h) s)"
    using delete_session [OF assms, of h] by (simp add: meets_def)
  show "meets abs inv (AddSessionClient_op sid c) s (exec R (AddSessionClient_op sid c) s)"
    using add_client [OF assms, of sid c] by (simp add: meets_def)
  show "meets abs inv (ListSessionClients_op sid) s (exec R (ListSessionClients_op sid) s)"
    if "adm (ListSessionClients_op sid) (abs s)"
    using list_clients [OF assms, of sid] assms that by (auto simp: meets_def lists_rows_def)
qed

lemma clients_meet:
  assumes "inv s"
  shows "meets abs inv (CreateClient_op c) s (exec R (CreateClient_op c) s)"
    and "meets abs inv (GetClient_op i) s (exec R (GetClient_op i) s)"
    and "meets abs inv ListClients_op s (exec R ListClients_op s)"
    and "meets abs inv (UpdateClient_op i p) s (exec R (UpdateClient_op i p) s)"
    and "meets abs inv (SetClientSecret_op i y) s (exec R (SetClientSecret_op i y) s)"
proof -
  show "meets abs inv (CreateClient_op c) s (exec R (CreateClient_op c) s)"
    using create_client [OF assms, of c] create_client_conflict [of s c] assms
    by (cases "av_clients (abs s) (cID c)") (simp_all add: meets_def)
  show "meets abs inv (GetClient_op i) s (exec R (GetClient_op i) s)"
    using assms by (simp add: meets_def get_client)
  show "meets abs inv ListClients_op s (exec R ListClients_op s)"
    using list_all_clients [OF assms] assms by (auto simp: meets_def lists_rows_def)
  show "meets abs inv (UpdateClient_op i p) s (exec R (UpdateClient_op i p) s)"
    using update_client_missing [of s i p] update_client [OF assms, of i _ p] assms
    by (cases "av_clients (abs s) i") (simp_all add: meets_def patched_def)
  show "meets abs inv (SetClientSecret_op i y) s (exec R (SetClientSecret_op i y) s)"
    using set_secret_missing [of s i y] set_secret [OF assms, of i _ y] assms
    by (cases "av_clients (abs s) i") (simp_all add: meets_def)
qed

lemma tokens_meet:
  assumes "inv s"
  shows "adm (PutCode_op c) (abs s) \<Longrightarrow> meets abs inv (PutCode_op c) s (exec R (PutCode_op c) s)"
    and "meets abs inv (TakeCode_op h) s (exec R (TakeCode_op h) s)"
    and "meets abs inv (PutRefresh_op t) s (exec R (PutRefresh_op t) s)"
    and "meets abs inv (GetRefresh_op h) s (exec R (GetRefresh_op h) s)"
    and "meets abs inv (TakeRefresh_op h) s (exec R (TakeRefresh_op h) s)"
    and "meets abs inv (RevokeFamily_op f) s (exec R (RevokeFamily_op f) s)"
    and "meets abs inv (PutAccess_op b) s (exec R (PutAccess_op b) s)"
    and "meets abs inv (GetAccess_op h) s (exec R (GetAccess_op h) s)"
proof -
  show "meets abs inv (PutCode_op c) s (exec R (PutCode_op c) s)" if "adm (PutCode_op c) (abs s)"
    using put_code [OF assms, of c] that by (simp add: meets_def)
  show "meets abs inv (TakeCode_op h) s (exec R (TakeCode_op h) s)"
    using take_code_missing [of s h] take_code_used [of s h] take_code [OF assms, of h] assms
    by (cases "av_codes (abs s) h") (auto simp: meets_def modify_def fun_upd_idem)
  show "meets abs inv (PutRefresh_op t) s (exec R (PutRefresh_op t) s)"
    using put_refresh [OF assms, of t] by (simp add: meets_def)
  show "meets abs inv (GetRefresh_op h) s (exec R (GetRefresh_op h) s)"
    using assms by (simp add: meets_def get_refresh)
  show "meets abs inv (TakeRefresh_op h) s (exec R (TakeRefresh_op h) s)"
    using take_refresh_missing [of s h] take_refresh_used [of s h] take_refresh [OF assms, of h] assms
    by (cases "av_refresh (abs s) h") (auto simp: meets_def modify_def fun_upd_idem)
  show "meets abs inv (RevokeFamily_op f) s (exec R (RevokeFamily_op f) s)"
    using revoke_family [OF assms, of f] by (simp add: meets_def)
  show "meets abs inv (PutAccess_op b) s (exec R (PutAccess_op b) s)"
    using put_access [OF assms, of b] by (simp add: meets_def)
  show "meets abs inv (GetAccess_op h) s (exec R (GetAccess_op h) s)"
    using assms by (simp add: meets_def get_access)
qed

lemma consents_meet:
  assumes "inv s"
  shows "adm (PutConsent_op g) (abs s) \<Longrightarrow> meets abs inv (PutConsent_op g) s (exec R (PutConsent_op g) s)"
    and "adm (GetConsent_op u c) (abs s) \<Longrightarrow> meets abs inv (GetConsent_op u c) s (exec R (GetConsent_op u c) s)"
    and "adm (AppendAudit_op e) (abs s) \<Longrightarrow> meets abs inv (AppendAudit_op e) s (exec R (AppendAudit_op e) s)"
    and "adm (ListAudits_op n i) (abs s) \<Longrightarrow> meets abs inv (ListAudits_op n i) s (exec R (ListAudits_op n i) s)"
proof -
  show "meets abs inv (PutConsent_op g) s (exec R (PutConsent_op g) s)" if "adm (PutConsent_op g) (abs s)"
    using put_consent [OF assms, of g] that by (simp add: meets_def)
  show "meets abs inv (GetConsent_op u c) s (exec R (GetConsent_op u c) s)" if "adm (GetConsent_op u c) (abs s)"
    using get_consent [of u c s] that assms by (simp add: meets_def)
  show "meets abs inv (AppendAudit_op e) s (exec R (AppendAudit_op e) s)" if "adm (AppendAudit_op e) (abs s)"
    using append_audit [OF assms, of e] that by (simp add: meets_def)
  show "meets abs inv (ListAudits_op n i) s (exec R (ListAudits_op n i) s)" if "adm (ListAudits_op n i) (abs s)"
    using list_audits [OF assms, of n i] that assms by (simp add: meets_def)
qed

lemma orgs_meet:
  assumes "inv s"
  shows "adm (CreateOrganization_op g) (abs s) \<Longrightarrow>
      meets abs inv (CreateOrganization_op g) s (exec R (CreateOrganization_op g) s)"
    and "meets abs inv (GetOrganization_op i) s (exec R (GetOrganization_op i) s)"
    and "meets abs inv ListOrganizations_op s (exec R ListOrganizations_op s)"
    and "meets abs inv (ListOrganizationsForUser_op u) s (exec R (ListOrganizationsForUser_op u) s)"
proof -
  show "meets abs inv (CreateOrganization_op g) s (exec R (CreateOrganization_op g) s)"
    if "adm (CreateOrganization_op g) (abs s)"
    using create_org [OF assms, of g] that by (simp add: meets_def)
  show "meets abs inv (GetOrganization_op i) s (exec R (GetOrganization_op i) s)"
    using assms by (simp add: meets_def get_org)
  show "meets abs inv ListOrganizations_op s (exec R ListOrganizations_op s)"
    using list_orgs [OF assms] assms by (auto simp: meets_def lists_rows_def)
  show "meets abs inv (ListOrganizationsForUser_op u) s (exec R (ListOrganizationsForUser_op u) s)"
    using list_for_user [OF assms, of u] assms by (auto simp: meets_def lists_rows_def user_orgs_def)
qed

lemma members_meet:
  assumes "inv s"
  shows "adm (AddOrganizationMember_op m) (abs s) \<Longrightarrow>
      meets abs inv (AddOrganizationMember_op m) s (exec R (AddOrganizationMember_op m) s)"
    and "meets abs inv (ListOrganizationMembers_op i) s (exec R (ListOrganizationMembers_op i) s)"
    and "meets abs inv (GetOrganizationMembership_op i u) s (exec R (GetOrganizationMembership_op i u) s)"
    and "meets abs inv (UpdateOrganizationMemberRole_op i u r) s (exec R (UpdateOrganizationMemberRole_op i u r) s)"
    and "meets abs inv (RemoveOrganizationMember_op i u) s (exec R (RemoveOrganizationMember_op i u) s)"
proof -
  show "meets abs inv (AddOrganizationMember_op m) s (exec R (AddOrganizationMember_op m) s)"
    if "adm (AddOrganizationMember_op m) (abs s)"
    using add_member_conflict [OF assms, of m] add_member [OF assms, of m] that
    by (cases "av_members (abs s) (mOrgID m) (mUserID m)") (simp_all add: meets_def)
  show "meets abs inv (ListOrganizationMembers_op i) s (exec R (ListOrganizationMembers_op i) s)"
    using list_members [OF assms, of i] assms by (auto simp: meets_def lists_rows_def)
  show "meets abs inv (GetOrganizationMembership_op i u) s (exec R (GetOrganizationMembership_op i u) s)"
    using assms by (simp add: meets_def get_membership)
  show "meets abs inv (UpdateOrganizationMemberRole_op i u r) s (exec R (UpdateOrganizationMemberRole_op i u r) s)"
    using update_role_missing [of s i u r] update_role [OF assms, of i u _ r] assms
    by (cases "av_members (abs s) i u") (simp_all add: meets_def)
  show "meets abs inv (RemoveOrganizationMember_op i u) s (exec R (RemoveOrganizationMember_op i u) s)"
    using remove_member_missing [of s i u] remove_member [OF assms, of i u] assms
    by (cases "av_members (abs s) i u") (simp_all add: meets_def fun_upd_idem)
qed

lemma by_sid_meets:
  assumes s: "inv s" and adm: "adm (SetSessionActiveOrgBySID_op sid i) (abs s)"
  shows "meets abs inv (SetSessionActiveOrgBySID_op sid i) s (exec R (SetSessionActiveOrgBySID_op sid i) s)"
proof (cases "sid = []")
  case True
  with s show ?thesis by (simp add: meets_def set_active_by_sid_blank)
next
  case False
  with adm have vis: "TrimSpace sid \<noteq> []" by simp
  show ?thesis
  proof (cases "\<exists>h. has_sid (abs s) sid h")
    case none: False
    then have no: "\<And>k y. av_sessions (abs s) k = Some y \<Longrightarrow> sSID y \<noteq> sid" by (auto simp: has_sid_def)
    have keep: "map_option (\<lambda>x. if sSID x = sid then x\<lparr>sActiveOrgID := i\<rparr> else x) (av_sessions (abs s) h) =
        av_sessions (abs s) h" for h
      using no [of h] by (cases "av_sessions (abs s) h") auto
    have "SetSessionActiveOrgBySID (Organizations R) sid i s = (Inl ErrNotFound, s)"
      by (rule set_active_by_sid_missing [OF s vis no])
    with none False s show ?thesis by (simp add: meets_def keep)
  next
    case True
    then obtain h x where x: "av_sessions (abs s) h = Some x" "sSID x = sid" by (auto simp: has_sid_def)
    have uniq: "has_sid (abs s) sid k \<Longrightarrow> k = h" for k
      using True adm False x unfolding adm.simps one_sid_def has_sid_def by blast
    have one: "k = h" if "av_sessions (abs s) k = Some y" "sSID y = sid" for k y
      by (rule uniq) (use that in \<open>simp add: has_sid_def\<close>)
    have "(av_sessions (abs s))(h \<mapsto> x\<lparr>sActiveOrgID := i\<rparr>) =
        (\<lambda>h. map_option (\<lambda>x. if sSID x = sid then x\<lparr>sActiveOrgID := i\<rparr> else x) (av_sessions (abs s) h))"
    proof
      fix k
      show "((av_sessions (abs s))(h \<mapsto> x\<lparr>sActiveOrgID := i\<rparr>)) k =
          map_option (\<lambda>x. if sSID x = sid then x\<lparr>sActiveOrgID := i\<rparr> else x) (av_sessions (abs s) k)"
      proof (cases "k = h")
        case True
        with x show ?thesis by simp
      next
        case other: False
        then have "\<And>y. av_sessions (abs s) k = Some y \<Longrightarrow> sSID y \<noteq> sid" using one by blast
        with other show ?thesis by (cases "av_sessions (abs s) k") simp_all
      qed
    qed
    then have post: "spec_post (SetSessionActiveOrgBySID_op sid i) (abs s) =
        (abs s)\<lparr>av_sessions := (av_sessions (abs s))(h \<mapsto> x\<lparr>sActiveOrgID := i\<rparr>)\<rparr>"
      using False by simp
    have out: "spec_out (SetSessionActiveOrgBySID_op sid i) (abs s) (Done_ans (Inr ()))"
      using True False by simp
    have "fst (SetSessionActiveOrgBySID (Organizations R) sid i s) = Inr () \<and>
        inv (snd (SetSessionActiveOrgBySID (Organizations R) sid i s)) \<and>
        abs (snd (SetSessionActiveOrgBySID (Organizations R) sid i s)) =
          (abs s)\<lparr>av_sessions := (av_sessions (abs s))(h \<mapsto> x\<lparr>sActiveOrgID := i\<rparr>)\<rparr>"
      by (rule set_active_by_sid [OF s False x]) (rule one)
    then show ?thesis unfolding meets_def post using out by simp
  qed
qed

lemma active_org_meets:
  assumes "inv s"
  shows "meets abs inv (SetSessionActiveOrg_op h i) s (exec R (SetSessionActiveOrg_op h i) s)"
  using set_active_missing [of s h i] set_active [OF assms, of h _ i] assms
  by (cases "av_sessions (abs s) h") (simp_all add: meets_def)

theorem meets_spec: "inv s \<Longrightarrow> adm op (abs s) \<Longrightarrow> meets abs inv op s (exec R op s)"
  by (cases op; hypsubst;
    rule create_meets users_meet sessions_meet clients_meet tokens_meet consents_meet
      orgs_meet members_meet by_sid_meets active_org_meets; assumption)

end

subsection \<open>Runs of calls\<close>

text \<open>
  A run of admissible calls, followed in the specification. Two answers to one call that both
  meet the specification are the same answer, except that a list of organizations or members
  may come in another order of rows with equal times.
\<close>

fun adm_run :: "op list \<Rightarrow> astore \<Rightarrow> bool" where
  "adm_run [] a = True"
| "adm_run (op # ops) a = (adm op a \<and> adm_run ops (spec_post op a))"

fun answers :: "'s repos \<Rightarrow> op list \<Rightarrow> 's \<Rightarrow> answer list" where
  "answers R [] s = []"
| "answers R (op # ops) s = fst (exec R op s) # answers R ops (snd (exec R op s))"

definition same_list :: "('v \<Rightarrow> 'k) \<Rightarrow> 'v list res \<Rightarrow> 'v list res \<Rightarrow> bool" where
  "same_list key r r' \<longleftrightarrow> (case (r, r') of
      (Inr xs, Inr ys) \<Rightarrow> mset xs = mset ys \<and> map key xs = map key ys
    | _ \<Rightarrow> r = r')"

fun same_answer :: "answer \<Rightarrow> answer \<Rightarrow> bool" where
  "same_answer (Orgs_ans r) (Orgs_ans r') = same_list oCreatedAt r r'"
| "same_answer (Members_ans r) (Members_ans r') = same_list mJoinedAt r r'"
| "same_answer a b = (a = b)"

lemma lists_rows_same:
  assumes "lists_rows rows ident key r" and "lists_rows rows ident key r'"
  shows "same_list key r r'"
proof -
  obtain xs ys where l: "r = Inr xs" "set xs = rows" "distinct (map ident xs)" "sorted (map key xs)"
      "r' = Inr ys" "set ys = rows" "distinct (map ident ys)" "sorted (map key ys)"
    using assms by (auto simp: lists_rows_def)
  then have eq: "mset xs = mset ys"
    by (metis distinct_map set_eq_iff_mset_eq_distinct)
  then have "mset (map key xs) = mset (map key ys)" by simp
  with l have "map key xs = map key ys" by (metis properties_for_sort sorted_sort_id)
  with eq l show ?thesis by (simp add: same_list_def)
qed

lemma lists_rows_eq:
  assumes "lists_rows rows key key r" and "lists_rows rows key key r'"
  shows "r = r'"
proof -
  obtain xs ys where l: "r = Inr xs" "set xs = rows" "distinct (map key xs)" "sorted (map key xs)"
      "r' = Inr ys" "set ys = rows" "distinct (map key ys)" "sorted (map key ys)"
    using assms by (auto simp: lists_rows_def)
  then have "map key xs = map key ys" and "inj_on key rows"
    using lists_rows_same [OF assms] by (auto simp: same_list_def distinct_map)
  with l show ?thesis by (simp add: inj_on_map_eq_map)
qed

definition emails_unique :: "astore \<Rightarrow> bool" where
  "emails_unique a \<longleftrightarrow> (\<forall>i j u v. av_users a i = Some u \<longrightarrow> av_users a j = Some v \<longrightarrow>
    uEmail u = uEmail v \<longrightarrow> u = v)"

lemma email_answer_same:
  assumes "emails_unique a" and "spec_out (GetByEmail_op e) a x" and "spec_out (GetByEmail_op e) a y"
  shows "x = y"
proof -
  obtain r where r: "x = User_ans r" "case r of Inr u \<Rightarrow> av_users a (uID u) = Some u \<and> uEmail u = ToLower e
      | Inl z \<Rightarrow> z = ErrNotFound \<and> \<not> email_taken (ToLower e) a"
    using assms(2) by auto
  obtain q where q: "y = User_ans q" "case q of Inr u \<Rightarrow> av_users a (uID u) = Some u \<and> uEmail u = ToLower e
      | Inl z \<Rightarrow> z = ErrNotFound \<and> \<not> email_taken (ToLower e) a"
    using assms(3) by auto
  have "r = q"
  proof (cases r; cases q)
    fix u v
    assume "r = Inr u" "q = Inr v"
    with r q have "av_users a (uID u) = Some u" "av_users a (uID v) = Some v" "uEmail u = uEmail v"
      by simp_all
    with assms(1) have "u = v" unfolding emails_unique_def by blast
    then show ?thesis using \<open>r = Inr u\<close> \<open>q = Inr v\<close> by simp
  qed (use r q in \<open>auto simp: email_taken_def\<close>)
  with r q show ?thesis by simp
qed

lemma sid_answer_same:
  assumes "one_sid a sid" and "spec_out (GetSessionBySID_op sid) a x" and "spec_out (GetSessionBySID_op sid) a y"
  shows "x = y"
proof -
  obtain r where r: "x = Session_ans r" "case r of Inr z \<Rightarrow> av_sessions a (sTokenHash z) = Some z \<and> sSID z = sid
      | Inl e \<Rightarrow> e = ErrNotFound \<and> (\<forall>h. \<not> has_sid a sid h)"
    using assms(2) by auto
  obtain q where q: "y = Session_ans q" "case q of Inr z \<Rightarrow> av_sessions a (sTokenHash z) = Some z \<and> sSID z = sid
      | Inl e \<Rightarrow> e = ErrNotFound \<and> (\<forall>h. \<not> has_sid a sid h)"
    using assms(3) by auto
  have has: "has_sid a sid (sTokenHash z)" if "av_sessions a (sTokenHash z) = Some z" "sSID z = sid" for z
    using that by (simp add: has_sid_def)
  have "r = q"
  proof (cases r; cases q)
    fix u v
    assume uv: "r = Inr u" "q = Inr v"
    with r q has have "has_sid a sid (sTokenHash u)" "has_sid a sid (sTokenHash v)" by simp_all
    with assms(1) have same: "sTokenHash u = sTokenHash v" unfolding one_sid_def by blast
    have rows: "av_sessions a (sTokenHash u) = Some u" "av_sessions a (sTokenHash v) = Some v"
      using uv r q by simp_all
    have "Some u = Some v" unfolding rows [symmetric] by (rule arg_cong [OF same])
    with uv show ?thesis by simp
  qed (use r q in \<open>auto simp: has_sid_def\<close>)
  with r q show ?thesis by simp
qed

lemma same_answer_refl [simp]: "same_answer x x"
  by (cases x) (auto simp: same_list_def split: sum.split)

lemma spec_out_same:
  assumes "emails_unique a" and "adm op a" and "spec_out op a x" and "spec_out op a y"
  shows "same_answer x y"
proof (cases op)
  case (GetByEmail_op e)
  with assms email_answer_same show ?thesis by (metis same_answer_refl)
next
  case (GetSessionBySID_op sid)
  then have "one_sid a sid" using assms(2) by simp
  with assms(3,4) GetSessionBySID_op sid_answer_same show ?thesis by (metis same_answer_refl)
qed (use assms(3,4) lists_rows_eq lists_rows_same in \<open>auto simp del: adm.simps\<close>)

end
