(* ===== verification/PgStore.thy ===== *)
theory PgStore
  imports Repos
begin

section \<open>The Postgres store\<close>

text \<open>
  \<open>internal/store/postgres\<close>: the tables of the migrations as lists of rows (\<open>pgdb\<close>), a small
  model of the SQL that the methods send, and one definition per method of \<open>Store\<close>. What
  the code leaves to the server is the record \<open>pgconf\<close>: which byte strings it stores as text
  (a zero byte or bytes that are no UTF-8 are refused), the order in which a scan meets the
  rows, and the collation of \<open>ORDER BY\<close> as a sort key. The documented behaviour that the code
  relies on is written out: a statement is atomic, checks its key and uniqueness constraints
  (23505) before its foreign keys (23503), \<open>ON CONFLICT\<close> updates the row in conflict, an
  unknown cursor makes a row comparison null, and a time is kept in microseconds.
  Lost connections and cancelled contexts are left out.
\<close>

subsection \<open>Tables\<close>

record pgdb =
  pt_users :: "user list"
  pt_sessions :: "session list"
  pt_clients :: "client list"
  pt_codes :: "auth_code list"
  pt_refresh :: "refresh_token list"
  pt_access :: "access_token list"
  pt_consents :: "consent list"
  pt_audits :: "audit_event list"
  pt_session_clients :: "(string \<times> string) list"
  pt_orgs :: "organization list"
  pt_members :: "membership list"

definition empty_db :: pgdb where
  "empty_db = \<lparr>pt_users = [], pt_sessions = [], pt_clients = [], pt_codes = [], pt_refresh = [],
     pt_access = [], pt_consents = [], pt_audits = [], pt_session_clients = [], pt_orgs = [],
     pt_members = []\<rparr>"

record pgconf =
  pgText :: "string \<Rightarrow> bool"
  pgScan :: "nat \<Rightarrow> nat list"
  pgCollate :: "string \<Rightarrow> string"

subsection \<open>Errors\<close>

text \<open>\<open>pgx.ErrNoRows\<close>, and the SQLSTATE of a \<open>pgconn.PgError\<close>.\<close>

datatype sql_err = NoRows | PgError string

fun mapErr :: "sql_err \<Rightarrow> derr" where
  "mapErr NoRows = ErrNotFound"
| "mapErr (PgError code) = (if code = ''23505'' then ErrConflict else ErrOther code)"

text \<open>An error of a \<open>Query\<close> that a method returns as it is.\<close>

fun rawErr :: "sql_err \<Rightarrow> derr" where
  "rawErr NoRows = ErrOther ''no rows in result set''"
| "rawErr (PgError code) = ErrOther code"

type_synonym 'a sql = "sql_err + 'a"

subsection \<open>Statements\<close>

text \<open>
  Every statement names the text of its parameters; the server refuses one that it cannot store.
\<close>

definition with_text :: "pgconf \<Rightarrow> string list \<Rightarrow> 'a sql \<Rightarrow> 'a sql" where
  "with_text C params r = (if list_all (pgText C) params then r else Inl (PgError ''22021''))"

definition scan :: "pgconf \<Rightarrow> 'r list \<Rightarrow> 'r list" where
  "scan C rows =
    (let p = pgScan C (length rows)
     in if mset p = mset [0..<length rows] then map (\<lambda>i. rows ! i) p else rows)"

definition sql_select :: "pgconf \<Rightarrow> ('r \<Rightarrow> bool) \<Rightarrow> 'r list \<Rightarrow> 'r list" where
  "sql_select C P tbl = filter P (scan C tbl)"

text \<open>\<open>QueryRow\<close> reads the first row.\<close>

definition query_row :: "'r list sql \<Rightarrow> 'r sql" where
  "query_row r = (case r of
      Inl e \<Rightarrow> Inl e
    | Inr [] \<Rightarrow> Inl NoRows
    | Inr (x # _) \<Rightarrow> Inr x)"

text \<open>
  \<open>INSERT\<close>: \<open>same\<close> is the conflict of the table's unique keys, \<open>refs\<close> its foreign keys. With
  \<open>ON CONFLICT DO UPDATE\<close> the row in conflict is replaced.
\<close>

definition sql_insert :: "('r \<Rightarrow> 'r \<Rightarrow> bool) \<Rightarrow> bool \<Rightarrow> 'r \<Rightarrow> 'r list \<Rightarrow> 'r list sql" where
  "sql_insert same refs row tbl =
    (if list_ex (same row) tbl then Inl (PgError ''23505'')
     else if \<not> refs then Inl (PgError ''23503'')
     else Inr (tbl @ [row]))"

definition sql_upsert :: "('r \<Rightarrow> 'r \<Rightarrow> bool) \<Rightarrow> bool \<Rightarrow> 'r \<Rightarrow> 'r list \<Rightarrow> 'r list sql" where
  "sql_upsert same refs row tbl =
    (if \<not> refs then Inl (PgError ''23503'')
     else if list_ex (same row) tbl then Inr (map (\<lambda>x. if same row x then row else x) tbl)
     else Inr (tbl @ [row]))"

text \<open>\<open>UPDATE\<close> and \<open>DELETE\<close>, with the rows that they affect.\<close>

definition sql_update :: "('r \<Rightarrow> bool) \<Rightarrow> ('r \<Rightarrow> 'r) \<Rightarrow> 'r list \<Rightarrow> 'r list \<times> 'r list" where
  "sql_update P f tbl = (map f (filter P tbl), map (\<lambda>x. if P x then f x else x) tbl)"

definition sql_delete :: "('r \<Rightarrow> bool) \<Rightarrow> 'r list \<Rightarrow> 'r list \<times> 'r list" where
  "sql_delete P tbl = (filter P tbl, filter (\<lambda>x. \<not> P x) tbl)"

text \<open>What a method does with the outcome of its one writing statement.\<close>

definition exec_put :: "'r list sql \<Rightarrow> ('r list \<Rightarrow> pgdb) \<Rightarrow> pgdb \<Rightarrow> unit res \<times> pgdb" where
  "exec_put r upd db = (case r of Inl e \<Rightarrow> (Inl (mapErr e), db) | Inr tbl \<Rightarrow> (Inr (), upd tbl))"

definition exec_tag :: "('r list \<times> 'r list) sql \<Rightarrow> ('r list \<Rightarrow> pgdb) \<Rightarrow> pgdb \<Rightarrow> unit res \<times> pgdb" where
  "exec_tag r upd db = (case r of
      Inl e \<Rightarrow> (Inl (mapErr e), db)
    | Inr (rows, tbl) \<Rightarrow> ((if length rows = 0 then Inl ErrNotFound else Inr ()), upd tbl))"

definition one_row :: "'r sql \<Rightarrow> 'r res" where
  "one_row r = map_sum mapErr id r"

definition all_rows :: "'r list sql \<Rightarrow> 'r list res" where
  "all_rows r = map_sum rawErr id r"

text \<open>\<open>TIMESTAMPTZ\<close> keeps microseconds.\<close>

definition usec :: "int \<Rightarrow> int" where
  "usec t = t div 1000 * 1000"

subsection \<open>Users\<close>

definition pg_Create :: "pgconf \<Rightarrow> user \<Rightarrow> pgdb \<Rightarrow> unit res \<times> pgdb" where
  "pg_Create C u0 db =
    (let u = u0\<lparr>uEmail := ToLower (uEmail u0)\<rparr>;
         row = u\<lparr>uCreatedAt := usec (uCreatedAt u)\<rparr>
     in exec_put
          (with_text C [uID u, uEmail u, uName u, uPasswordHash u]
            (sql_insert (\<lambda>x y. uID x = uID y \<or> uEmail x = uEmail y) True row (pt_users db)))
          (\<lambda>tbl. db\<lparr>pt_users := tbl\<rparr>) db)"

definition scanUser :: "user sql \<Rightarrow> user res" where
  "scanUser row = one_row row"

definition pg_GetByEmail :: "pgconf \<Rightarrow> string \<Rightarrow> pgdb \<Rightarrow> user res" where
  "pg_GetByEmail C email db =
    scanUser (query_row (with_text C [ToLower email]
      (Inr (sql_select C (\<lambda>u. uEmail u = ToLower email) (pt_users db)))))"

definition pg_GetByID :: "pgconf \<Rightarrow> string \<Rightarrow> pgdb \<Rightarrow> user res" where
  "pg_GetByID C i db =
    scanUser (query_row (with_text C [i] (Inr (sql_select C (\<lambda>u. uID u = i) (pt_users db)))))"

definition pg_ListUsers :: "pgconf \<Rightarrow> pgdb \<Rightarrow> user list res" where
  "pg_ListUsers C db = Inr (sort_key (\<lambda>u. pgCollate C (uEmail u)) (scan C (pt_users db)))"

definition pg_SetUserDisabled :: "pgconf \<Rightarrow> string \<Rightarrow> bool \<Rightarrow> pgdb \<Rightarrow> unit res \<times> pgdb" where
  "pg_SetUserDisabled C i disabled db =
    exec_tag (with_text C [i]
        (Inr (sql_update (\<lambda>u. uID u = i) (\<lambda>u. u\<lparr>uDisabled := disabled\<rparr>) (pt_users db))))
      (\<lambda>tbl. db\<lparr>pt_users := tbl\<rparr>) db"

subsection \<open>Sessions\<close>

definition pg_PutSession :: "pgconf \<Rightarrow> session \<Rightarrow> pgdb \<Rightarrow> unit res \<times> pgdb" where
  "pg_PutSession C sess db =
    exec_put (with_text C [sTokenHash sess, sUserID sess, sSID sess, sActiveOrgID sess]
        (sql_upsert (\<lambda>x y. sTokenHash x = sTokenHash y)
          (list_ex (\<lambda>u. uID u = sUserID sess) (pt_users db))
          (sess\<lparr>sExpiresAt := usec (sExpiresAt sess)\<rparr>) (pt_sessions db)))
      (\<lambda>tbl. db\<lparr>pt_sessions := tbl\<rparr>) db"

definition pg_GetSession :: "pgconf \<Rightarrow> string \<Rightarrow> pgdb \<Rightarrow> session res" where
  "pg_GetSession C tokenHash db =
    one_row (query_row (with_text C [tokenHash]
      (Inr (sql_select C (\<lambda>x. sTokenHash x = tokenHash) (pt_sessions db)))))"

definition pg_GetSessionBySID :: "pgconf \<Rightarrow> string \<Rightarrow> pgdb \<Rightarrow> session res" where
  "pg_GetSessionBySID C sid db =
    one_row (query_row (with_text C [sid]
      (Inr (take 1 (sql_select C (\<lambda>x. sSID x = sid) (pt_sessions db))))))"

text \<open>
  The two statements before the last one may fail without notice; the identifier that the second
  one sends was read from the table, so the server accepts it.
\<close>

definition pg_DeleteSession :: "pgconf \<Rightarrow> string \<Rightarrow> pgdb \<Rightarrow> unit res \<times> pgdb" where
  "pg_DeleteSession C tokenHash db =
    (let row = query_row (with_text C [tokenHash]
           (Inr (sql_select C (\<lambda>x. sTokenHash x = tokenHash) (pt_sessions db))));
         db1 = (case row of
             Inl _ \<Rightarrow> db
           | Inr x \<Rightarrow>
               if sSID x \<noteq> []
               then db\<lparr>pt_session_clients :=
                      snd (sql_delete (\<lambda>(sid, _). sid = sSID x) (pt_session_clients db))\<rparr>
               else db)
     in case with_text C [tokenHash]
               (Inr (sql_delete (\<lambda>x. sTokenHash x = tokenHash) (pt_sessions db1))) of
          Inl e \<Rightarrow> (Inl (mapErr e), db1)
        | Inr (_, tbl) \<Rightarrow> (Inr (), db1\<lparr>pt_sessions := tbl\<rparr>))"

definition pg_AddSessionClient :: "pgconf \<Rightarrow> string \<Rightarrow> string \<Rightarrow> pgdb \<Rightarrow> unit res \<times> pgdb" where
  "pg_AddSessionClient C sid clientID db =
    (if sid = [] \<or> clientID = [] then (Inr (), db)
     else exec_put (with_text C [sid, clientID]
            (if (sid, clientID) \<in> set (pt_session_clients db) then Inr (pt_session_clients db)
             else Inr (pt_session_clients db @ [(sid, clientID)])))
          (\<lambda>tbl. db\<lparr>pt_session_clients := tbl\<rparr>) db)"

definition pg_ListSessionClients :: "pgconf \<Rightarrow> string \<Rightarrow> pgdb \<Rightarrow> string list res" where
  "pg_ListSessionClients C sid db =
    (if sid = [] then Inr []
     else all_rows (with_text C [sid]
            (Inr (sort_key (pgCollate C)
              (map snd (sql_select C (\<lambda>(s, _). s = sid) (pt_session_clients db)))))))"

subsection \<open>Clients\<close>

definition pg_CreateClient :: "pgconf \<Rightarrow> client \<Rightarrow> pgdb \<Rightarrow> unit res \<times> pgdb" where
  "pg_CreateClient C c db =
    exec_put (with_text C ([cID c, cName c, client_type_string (cType c), cSecretHash c] @
          cRedirectURIs c @ cPostLogoutRedirectURIs c @
          [cFrontChannelLogoutURI c, cBackChannelLogoutURI c, cTokenEndpointAuth c])
        (sql_insert (\<lambda>x y. cID x = cID y) True c (pt_clients db)))
      (\<lambda>tbl. db\<lparr>pt_clients := tbl\<rparr>) db"

definition pg_GetClient :: "pgconf \<Rightarrow> string \<Rightarrow> pgdb \<Rightarrow> client res" where
  "pg_GetClient C i db =
    one_row (query_row (with_text C [i] (Inr (sql_select C (\<lambda>c. cID c = i) (pt_clients db)))))"

definition pg_ListClients :: "pgconf \<Rightarrow> pgdb \<Rightarrow> client list res" where
  "pg_ListClients C db = Inr (sort_key (\<lambda>c. pgCollate C (cID c)) (scan C (pt_clients db)))"

definition pg_UpdateClient :: "pgconf \<Rightarrow> string \<Rightarrow> client_patch \<Rightarrow> pgdb \<Rightarrow> unit res \<times> pgdb" where
  "pg_UpdateClient C i patch db =
    exec_tag (with_text C ([i, pName patch] @ pRedirectURIs patch @ pPostLogoutRedirectURIs patch @
          [pFrontChannelLogoutURI patch, pBackChannelLogoutURI patch])
        (Inr (sql_update (\<lambda>c. cID c = i)
          (\<lambda>c. c\<lparr>cName := pName patch, cRedirectURIs := pRedirectURIs patch,
                cPostLogoutRedirectURIs := pPostLogoutRedirectURIs patch,
                cFrontChannelLogoutURI := pFrontChannelLogoutURI patch,
                cBackChannelLogoutURI := pBackChannelLogoutURI patch\<rparr>) (pt_clients db))))
      (\<lambda>tbl. db\<lparr>pt_clients := tbl\<rparr>) db"

definition pg_SetClientSecret :: "pgconf \<Rightarrow> string \<Rightarrow> string \<Rightarrow> pgdb \<Rightarrow> unit res \<times> pgdb" where
  "pg_SetClientSecret C i secretHash db =
    exec_tag (with_text C [i, secretHash]
        (Inr (sql_update (\<lambda>c. cID c = i) (\<lambda>c. c\<lparr>cSecretHash := secretHash\<rparr>) (pt_clients db))))
      (\<lambda>tbl. db\<lparr>pt_clients := tbl\<rparr>) db"

subsection \<open>Authorization codes and refresh tokens\<close>

definition pg_PutCode :: "pgconf \<Rightarrow> auth_code \<Rightarrow> pgdb \<Rightarrow> unit res \<times> pgdb" where
  "pg_PutCode C c db =
    exec_put (with_text C ([acHash c, acClientID c, acUserID c, acRedirectURI c] @ acScopes c @
          [acNonce c, acCodeChallenge c, acSessionSID c])
        (sql_insert (\<lambda>x y. acHash x = acHash y) True
          (c\<lparr>acExpiresAt := usec (acExpiresAt c)\<rparr>) (pt_codes db)))
      (\<lambda>tbl. db\<lparr>pt_codes := tbl\<rparr>) db"

text \<open>
  \<open>TakeCode\<close> sends up to two statements: the conditional \<open>UPDATE\<close> that marks the row and returns
  it, and a \<open>SELECT\<close> that tells a used code from an unknown one.
\<close>

definition take_code_update :: "pgconf \<Rightarrow> string \<Rightarrow> pgdb \<Rightarrow> auth_code sql \<times> pgdb" where
  "take_code_update C hash db =
    (case with_text C [hash]
            (Inr (sql_update (\<lambda>c. acHash c = hash \<and> \<not> acUsed c) (\<lambda>c. c\<lparr>acUsed := True\<rparr>)
              (pt_codes db))) of
       Inl e \<Rightarrow> (Inl e, db)
     | Inr (rows, tbl) \<Rightarrow> (query_row (Inr rows), db\<lparr>pt_codes := tbl\<rparr>))"

definition take_code_select :: "pgconf \<Rightarrow> string \<Rightarrow> pgdb \<Rightarrow> auth_code res" where
  "take_code_select C hash db =
    (case query_row (with_text C [hash]
            (Inr (map acUsed (sql_select C (\<lambda>c. acHash c = hash) (pt_codes db))))) of
       Inl e \<Rightarrow> Inl (mapErr e)
     | Inr used \<Rightarrow> Inl ErrUsed)"

definition scanCode :: "auth_code sql \<Rightarrow> auth_code res" where
  "scanCode row = one_row row"

definition pg_TakeCode :: "pgconf \<Rightarrow> string \<Rightarrow> pgdb \<Rightarrow> auth_code res \<times> pgdb" where
  "pg_TakeCode C hash db =
    (let (row, db1) = take_code_update C hash db
     in case scanCode row of
          Inr c \<Rightarrow> (Inr c, db1)
        | Inl e \<Rightarrow> if e \<noteq> ErrNotFound then (Inl e, db1) else (take_code_select C hash db1, db1))"

definition pg_PutRefresh :: "pgconf \<Rightarrow> refresh_token \<Rightarrow> pgdb \<Rightarrow> unit res \<times> pgdb" where
  "pg_PutRefresh C t db =
    exec_put (with_text C ([rtHash t, rtFamilyID t, rtClientID t, rtUserID t] @ rtScopes t @
          [rtSessionSID t])
        (sql_upsert (\<lambda>x y. rtHash x = rtHash y) True
          (t\<lparr>rtExpiresAt := usec (rtExpiresAt t)\<rparr>) (pt_refresh db)))
      (\<lambda>tbl. db\<lparr>pt_refresh := tbl\<rparr>) db"

definition pg_GetRefresh :: "pgconf \<Rightarrow> string \<Rightarrow> pgdb \<Rightarrow> refresh_token res" where
  "pg_GetRefresh C hash db =
    one_row (query_row (with_text C [hash]
      (Inr (sql_select C (\<lambda>t. rtHash t = hash) (pt_refresh db)))))"

definition take_refresh_update :: "pgconf \<Rightarrow> string \<Rightarrow> pgdb \<Rightarrow> refresh_token sql \<times> pgdb" where
  "take_refresh_update C hash db =
    (case with_text C [hash]
            (Inr (sql_update (\<lambda>t. rtHash t = hash \<and> \<not> rtRevoked t) (\<lambda>t. t\<lparr>rtRevoked := True\<rparr>)
              (pt_refresh db))) of
       Inl e \<Rightarrow> (Inl e, db)
     | Inr (rows, tbl) \<Rightarrow> (query_row (Inr rows), db\<lparr>pt_refresh := tbl\<rparr>))"

definition take_refresh_select :: "pgconf \<Rightarrow> string \<Rightarrow> pgdb \<Rightarrow> refresh_token res" where
  "take_refresh_select C hash db =
    (case query_row (with_text C [hash]
            (Inr (map rtRevoked (sql_select C (\<lambda>t. rtHash t = hash) (pt_refresh db))))) of
       Inl e \<Rightarrow> Inl (mapErr e)
     | Inr revoked \<Rightarrow> Inl ErrUsed)"

definition pg_TakeRefresh :: "pgconf \<Rightarrow> string \<Rightarrow> pgdb \<Rightarrow> refresh_token res \<times> pgdb" where
  "pg_TakeRefresh C hash db =
    (let (row, db1) = take_refresh_update C hash db
     in case row of
          Inr t \<Rightarrow> (Inr t, db1)
        | Inl e \<Rightarrow>
            if mapErr e \<noteq> ErrNotFound then (Inl (mapErr e), db1)
            else (take_refresh_select C hash db1, db1))"

definition pg_RevokeFamily :: "pgconf \<Rightarrow> string \<Rightarrow> pgdb \<Rightarrow> unit res \<times> pgdb" where
  "pg_RevokeFamily C familyID db =
    exec_put (with_text C [familyID]
        (Inr (snd (sql_update (\<lambda>t. rtFamilyID t = familyID) (\<lambda>t. t\<lparr>rtRevoked := True\<rparr>)
          (pt_refresh db)))))
      (\<lambda>tbl. db\<lparr>pt_refresh := tbl\<rparr>) db"

subsection \<open>Access tokens, consents, audit events\<close>

definition pg_PutAccess :: "pgconf \<Rightarrow> access_token \<Rightarrow> pgdb \<Rightarrow> unit res \<times> pgdb" where
  "pg_PutAccess C t db =
    exec_put (with_text C ([atHash t, atClientID t, atUserID t] @ atScopes t @ [atSessionSID t])
        (sql_upsert (\<lambda>x y. atHash x = atHash y) True
          (t\<lparr>atExpiresAt := usec (atExpiresAt t)\<rparr>) (pt_access db)))
      (\<lambda>tbl. db\<lparr>pt_access := tbl\<rparr>) db"

definition pg_GetAccess :: "pgconf \<Rightarrow> string \<Rightarrow> pgdb \<Rightarrow> access_token res" where
  "pg_GetAccess C hash db =
    one_row (query_row (with_text C [hash]
      (Inr (sql_select C (\<lambda>t. atHash t = hash) (pt_access db)))))"

definition pg_PutConsent :: "pgconf \<Rightarrow> consent \<Rightarrow> pgdb \<Rightarrow> unit res \<times> pgdb" where
  "pg_PutConsent C c db =
    exec_put (with_text C ([gUserID c, gClientID c] @ gScopes c)
        (sql_upsert (\<lambda>x y. gUserID x = gUserID y \<and> gClientID x = gClientID y) True c (pt_consents db)))
      (\<lambda>tbl. db\<lparr>pt_consents := tbl\<rparr>) db"

definition pg_GetConsent :: "pgconf \<Rightarrow> string \<Rightarrow> string \<Rightarrow> pgdb \<Rightarrow> consent res" where
  "pg_GetConsent C userID clientID db =
    one_row (query_row (with_text C [userID, clientID]
      (Inr (sql_select C (\<lambda>c. gUserID c = userID \<and> gClientID c = clientID) (pt_consents db)))))"

definition pg_AppendAudit :: "pgconf \<Rightarrow> audit_event \<Rightarrow> pgdb \<Rightarrow> unit res \<times> pgdb" where
  "pg_AppendAudit C e db =
    exec_put (with_text C [aeID e, aeSubject e, aeClientID e, aeIP e, aeNote e]
        (sql_insert (\<lambda>x y. aeID x = aeID y) True (e\<lparr>aeAt := usec (aeAt e)\<rparr>) (pt_audits db)))
      (\<lambda>tbl. db\<lparr>pt_audits := tbl\<rparr>) db"

text \<open>
  \<open>(at, id) < (SELECT at, id \<dots>)\<close> compares with the row of the cursor, and is null, which selects
  nothing, when there is none.
\<close>

definition audit_key :: "pgconf \<Rightarrow> audit_event \<Rightarrow> newest" where
  "audit_key C e = Newest (aeAt e) (pgCollate C (aeID e))"

definition audit_rows :: "pgconf \<Rightarrow> int \<Rightarrow> string \<Rightarrow> pgdb \<Rightarrow> audit_event list" where
  "audit_rows C limit afterID db =
    (let after = (\<lambda>e. afterID = [] \<or>
           (case sql_select C (\<lambda>c. aeID c = afterID) (pt_audits db) of
              [] \<Rightarrow> False
            | cur # _ \<Rightarrow> audit_key C cur < audit_key C e))
     in take (nat (limit + 1)) (sort_key (audit_key C) (sql_select C after (pt_audits db))))"

definition pg_ListAudits :: "pgconf \<Rightarrow> int \<Rightarrow> string \<Rightarrow> pgdb \<Rightarrow> audit_page res" where
  "pg_ListAudits C limit0 afterID db =
    (let limit = clampAuditLimit limit0
     in case with_text C (if afterID = [] then [] else [afterID]) (Inr (audit_rows C limit afterID db)) of
          Inl e \<Rightarrow> Inl (rawErr e)
        | Inr items \<Rightarrow>
            (case (if afterID \<noteq> [] \<and> items = []
                   then query_row (with_text C [afterID]
                          (Inr (map aeID (sql_select C (\<lambda>e. aeID e = afterID) (pt_audits db)))))
                   else Inr []) of
               Inl e \<Rightarrow> Inl (mapErr e)
             | Inr _ \<Rightarrow>
                 if limit < int (length items)
                 then let items' = take (nat limit) items
                      in Inr \<lparr>pgItems = items', pgNext = aeID (last items')\<rparr>
                 else Inr \<lparr>pgItems = items, pgNext = []\<rparr>))"

subsection \<open>Organizations\<close>

definition pg_CreateOrganization :: "pgconf \<Rightarrow> organization \<Rightarrow> pgdb \<Rightarrow> unit res \<times> pgdb" where
  "pg_CreateOrganization C org db =
    exec_put (with_text C [oID org, oName org]
        (sql_insert (\<lambda>x y. oID x = oID y) True
          (org\<lparr>oCreatedAt := usec (oCreatedAt org)\<rparr>) (pt_orgs db)))
      (\<lambda>tbl. db\<lparr>pt_orgs := tbl\<rparr>) db"

definition pg_GetOrganization :: "pgconf \<Rightarrow> string \<Rightarrow> pgdb \<Rightarrow> organization res" where
  "pg_GetOrganization C i db =
    one_row (query_row (with_text C [i] (Inr (sql_select C (\<lambda>g. oID g = i) (pt_orgs db)))))"

definition pg_ListOrganizations :: "pgconf \<Rightarrow> pgdb \<Rightarrow> organization list res" where
  "pg_ListOrganizations C db = Inr (sort_key oCreatedAt (scan C (pt_orgs db)))"

text \<open>The join pairs every membership of the user with its organization.\<close>

definition pg_ListOrganizationsForUser :: "pgconf \<Rightarrow> string \<Rightarrow> pgdb \<Rightarrow> organization list res" where
  "pg_ListOrganizationsForUser C userID db =
    all_rows (with_text C [userID]
      (Inr (sort_key oCreatedAt
        (concat (map (\<lambda>m. sql_select C (\<lambda>g. mOrgID m = oID g) (pt_orgs db))
          (sql_select C (\<lambda>m. mUserID m = userID) (pt_members db)))))))"

definition pg_AddOrganizationMember :: "pgconf \<Rightarrow> membership \<Rightarrow> pgdb \<Rightarrow> unit res \<times> pgdb" where
  "pg_AddOrganizationMember C m db =
    exec_put (with_text C [mOrgID m, mUserID m, org_role_string (mRole m)]
        (sql_insert (\<lambda>x y. mOrgID x = mOrgID y \<and> mUserID x = mUserID y)
          (list_ex (\<lambda>g. oID g = mOrgID m) (pt_orgs db) \<and> list_ex (\<lambda>u. uID u = mUserID m) (pt_users db))
          (m\<lparr>mJoinedAt := usec (mJoinedAt m)\<rparr>) (pt_members db)))
      (\<lambda>tbl. db\<lparr>pt_members := tbl\<rparr>) db"

definition pg_ListOrganizationMembers :: "pgconf \<Rightarrow> string \<Rightarrow> pgdb \<Rightarrow> membership list res" where
  "pg_ListOrganizationMembers C orgID db =
    all_rows (with_text C [orgID]
      (Inr (sort_key mJoinedAt (sql_select C (\<lambda>m. mOrgID m = orgID) (pt_members db)))))"

definition pg_GetOrganizationMembership :: "pgconf \<Rightarrow> string \<Rightarrow> string \<Rightarrow> pgdb \<Rightarrow> membership res" where
  "pg_GetOrganizationMembership C orgID userID db =
    one_row (query_row (with_text C [orgID, userID]
      (Inr (sql_select C (\<lambda>m. mOrgID m = orgID \<and> mUserID m = userID) (pt_members db)))))"

definition pg_UpdateOrganizationMemberRole ::
    "pgconf \<Rightarrow> string \<Rightarrow> string \<Rightarrow> org_role \<Rightarrow> pgdb \<Rightarrow> unit res \<times> pgdb" where
  "pg_UpdateOrganizationMemberRole C orgID userID role db =
    exec_tag (with_text C [orgID, userID, org_role_string role]
        (Inr (sql_update (\<lambda>m. mOrgID m = orgID \<and> mUserID m = userID) (\<lambda>m. m\<lparr>mRole := role\<rparr>)
          (pt_members db))))
      (\<lambda>tbl. db\<lparr>pt_members := tbl\<rparr>) db"

definition pg_RemoveOrganizationMember ::
    "pgconf \<Rightarrow> string \<Rightarrow> string \<Rightarrow> pgdb \<Rightarrow> unit res \<times> pgdb" where
  "pg_RemoveOrganizationMember C orgID userID db =
    exec_tag (with_text C [orgID, userID]
        (Inr (sql_delete (\<lambda>m. mOrgID m = orgID \<and> mUserID m = userID) (pt_members db))))
      (\<lambda>tbl. db\<lparr>pt_members := tbl\<rparr>) db"

definition pg_SetSessionActiveOrg :: "pgconf \<Rightarrow> string \<Rightarrow> string \<Rightarrow> pgdb \<Rightarrow> unit res \<times> pgdb" where
  "pg_SetSessionActiveOrg C tokenHash orgID db =
    exec_tag (with_text C [tokenHash, orgID]
        (Inr (sql_update (\<lambda>x. sTokenHash x = tokenHash) (\<lambda>x. x\<lparr>sActiveOrgID := orgID\<rparr>)
          (pt_sessions db))))
      (\<lambda>tbl. db\<lparr>pt_sessions := tbl\<rparr>) db"

definition pg_SetSessionActiveOrgBySID :: "pgconf \<Rightarrow> string \<Rightarrow> string \<Rightarrow> pgdb \<Rightarrow> unit res \<times> pgdb" where
  "pg_SetSessionActiveOrgBySID C sid orgID db =
    (if TrimSpace sid = [] then (Inl ErrInvalid, db)
     else exec_tag (with_text C [sid, orgID]
            (Inr (sql_update (\<lambda>x. sSID x = sid) (\<lambda>x. x\<lparr>sActiveOrgID := orgID\<rparr>) (pt_sessions db))))
          (\<lambda>tbl. db\<lparr>pt_sessions := tbl\<rparr>) db)"

subsection \<open>The store as an implementation of the interfaces\<close>

definition pg_repos :: "pgconf \<Rightarrow> pgdb repos" where
  "pg_repos C = \<lparr>
     Users = \<lparr>Create = pg_Create C, GetByEmail = pg_GetByEmail C, GetByID = pg_GetByID C,
       ListUsers = pg_ListUsers C, SetUserDisabled = pg_SetUserDisabled C\<rparr>,
     Sessions = \<lparr>PutSession = pg_PutSession C, GetSession = pg_GetSession C,
       GetSessionBySID = pg_GetSessionBySID C, DeleteSession = pg_DeleteSession C,
       AddSessionClient = pg_AddSessionClient C, ListSessionClients = pg_ListSessionClients C\<rparr>,
     Clients = \<lparr>CreateClient = pg_CreateClient C, GetClient = pg_GetClient C,
       ListClients = pg_ListClients C, UpdateClient = pg_UpdateClient C,
       SetClientSecret = pg_SetClientSecret C\<rparr>,
     AuthCodes = \<lparr>PutCode = pg_PutCode C, TakeCode = pg_TakeCode C\<rparr>,
     RefreshTokens = \<lparr>PutRefresh = pg_PutRefresh C, GetRefresh = pg_GetRefresh C,
       TakeRefresh = pg_TakeRefresh C, RevokeFamily = pg_RevokeFamily C\<rparr>,
     AccessTokens = \<lparr>PutAccess = pg_PutAccess C, GetAccess = pg_GetAccess C\<rparr>,
     Consents = \<lparr>PutConsent = pg_PutConsent C, GetConsent = pg_GetConsent C\<rparr>,
     Audits = \<lparr>AppendAudit = pg_AppendAudit C, ListAudits = pg_ListAudits C\<rparr>,
     Organizations = \<lparr>CreateOrganization = pg_CreateOrganization C,
       GetOrganization = pg_GetOrganization C, ListOrganizations = pg_ListOrganizations C,
       ListOrganizationsForUser = pg_ListOrganizationsForUser C,
       AddOrganizationMember = pg_AddOrganizationMember C,
       ListOrganizationMembers = pg_ListOrganizationMembers C,
       GetOrganizationMembership = pg_GetOrganizationMembership C,
       UpdateOrganizationMemberRole = pg_UpdateOrganizationMemberRole C,
       RemoveOrganizationMember = pg_RemoveOrganizationMember C,
       SetSessionActiveOrg = pg_SetSessionActiveOrg C,
       SetSessionActiveOrgBySID = pg_SetSessionActiveOrgBySID C\<rparr>\<rparr>"

end
