(* ===== verification/PgInv.thy ===== *)
theory PgInv
  imports StoreOps PgStore
begin

section \<open>What the tables mean\<close>

text \<open>
  A table with a unique key is a finite map. The lemmas of the first part say what each kind of
  statement does to that map; the second part gives the invariant and the meaning of a
  database, and the calls on which Postgres is held to the specification of \<open>StoreOps\<close>: \<open>cut\<close>
  is a call with its times in microseconds, \<open>texts\<close> the strings it sends.
\<close>

subsection \<open>Tables as maps\<close>

definition tmap :: "('r \<Rightarrow> 'k) \<Rightarrow> 'r list \<Rightarrow> 'k \<rightharpoonup> 'r" where
  "tmap key tbl = map_of (map (\<lambda>r. (key r, r)) tbl)"

lemma tmap_Nil [simp]: "tmap key [] = Map.empty"
  by (simp add: tmap_def)

lemma tmap_Cons: "tmap key (r # tbl) k = (if key r = k then Some r else tmap key tbl k)"
  by (simp add: tmap_def)

lemma tmap_SomeD: "tmap key tbl k = Some r \<Longrightarrow> r \<in> set tbl \<and> key r = k"
  by (induction tbl) (auto simp: tmap_Cons split: if_splits)

lemma tmap_None: "tmap key tbl k = None \<longleftrightarrow> k \<notin> key ` set tbl"
  by (induction tbl) (auto simp: tmap_Cons)

lemma tmap_iff: "distinct (map key tbl) \<Longrightarrow> tmap key tbl k = Some r \<longleftrightarrow> r \<in> set tbl \<and> key r = k"
  by (induction tbl) (auto simp: tmap_Cons)

lemma ran_tmap: "distinct (map key tbl) \<Longrightarrow> ran (tmap key tbl) = set tbl"
  by (auto simp: ran_def tmap_iff)

lemma filter_key:
  "distinct (map key tbl) \<Longrightarrow>
    filter (\<lambda>x. key x = k) tbl = (case tmap key tbl k of None \<Rightarrow> [] | Some r \<Rightarrow> [r])"
proof (induction tbl)
  case Nil
  then show ?case by simp
next
  case (Cons r tbl)
  show ?case
  proof (cases "key r = k")
    case True
    with Cons.prems have "filter (\<lambda>x. key x = k) tbl = []"
      unfolding filter_empty_conv by (force simp: image_iff)
    with True show ?thesis by (simp add: tmap_Cons)
  next
    case False
    with Cons show ?thesis by (simp add: tmap_Cons)
  qed
qed

lemma same_key: "list_ex (\<lambda>y. key row = key y) tbl \<longleftrightarrow> tmap key tbl (key row) \<noteq> None"
  by (auto simp: tmap_None list_ex_iff)

lemma tmap_snoc: "tmap key tbl (key row) = None \<Longrightarrow> tmap key (tbl @ [row]) = (tmap key tbl)(key row \<mapsto> row)"
  by (rule ext) (simp add: tmap_def map_add_def split: option.splits)

lemma tmap_map:
  assumes "\<And>x. key (f x) = key x"
  shows "tmap key (map f tbl) k = map_option f (tmap key tbl k)"
  by (induction tbl) (auto simp: tmap_Cons assms)

lemma tmap_where:
  assumes "\<And>x. key (f x) = key x"
  shows "tmap key (map (\<lambda>x. if P x then f x else x) tbl) k =
    map_option (\<lambda>x. if P x then f x else x) (tmap key tbl k)"
  by (rule tmap_map) (simp add: assms)

lemma keys_where:
  assumes "\<And>x. key (f x) = key x"
  shows "map key (map (\<lambda>x. if P x then f x else x) tbl) = map key tbl"
  by (simp add: assms)

lemma tmap_modify:
  assumes "\<And>x. key (f x) = key x"
  shows "tmap key (map (\<lambda>x. if key x = k then f x else x) tbl) = modify k f (tmap key tbl)"
proof
  fix j
  show "tmap key (map (\<lambda>x. if key x = k then f x else x) tbl) j = modify k f (tmap key tbl) j"
    using tmap_SomeD [of key tbl j]
    by (cases "tmap key tbl j"; cases "j = k")
      (auto simp: tmap_where assms modify_def split: option.splits)
qed

lemma tmap_replace:
  assumes "tmap key tbl (key row) \<noteq> None"
  shows "tmap key (map (\<lambda>x. if key row = key x then row else x) tbl) = (tmap key tbl)(key row \<mapsto> row)"
proof
  fix j
  have "tmap key (map (\<lambda>x. if key row = key x then row else x) tbl) j =
      map_option (\<lambda>x. if key row = key x then row else x) (tmap key tbl j)"
    by (induction tbl) (auto simp: tmap_Cons)
  then show "tmap key (map (\<lambda>x. if key row = key x then row else x) tbl) j =
      ((tmap key tbl)(key row \<mapsto> row)) j"
    using assms tmap_SomeD [of key tbl j] by (cases "tmap key tbl j") auto
qed

lemma tmap_delete: "tmap key (filter (\<lambda>x. key x \<noteq> k) tbl) = (tmap key tbl)(k := None)"
  by (rule ext) (induction tbl; auto simp: tmap_Cons)

subsection \<open>Statements\<close>

lemma mset_scan [simp]: "mset (scan C tbl) = mset tbl"
proof -
  have "mset (map (\<lambda>i. tbl ! i) p) = mset tbl" if "mset p = mset [0..<length tbl]" for p
  proof -
    have "mset (map (\<lambda>i. tbl ! i) p) = image_mset (\<lambda>i. tbl ! i) (mset [0..<length tbl])"
      by (simp only: mset_map that)
    also have "\<dots> = mset (map (\<lambda>i. tbl ! i) [0..<length tbl])" by (simp only: mset_map)
    finally show ?thesis by (simp only: map_nth)
  qed
  then show ?thesis by (simp add: scan_def Let_def)
qed

lemma set_scan [simp]: "set (scan C tbl) = set tbl"
  by (metis mset_scan set_mset_mset)

lemma distinct_map_scan [simp]: "distinct (map f (scan C tbl)) \<longleftrightarrow> distinct (map f tbl)"
  by (rule mset_eq_imp_distinct_iff) simp

lemma distinct_scan [simp]: "distinct (scan C tbl) \<longleftrightarrow> distinct tbl"
  by (rule mset_eq_imp_distinct_iff) simp

lemma tmap_scan:
  assumes "distinct (map key tbl)"
  shows "tmap key (scan C tbl) = tmap key tbl"
proof
  fix k
  show "tmap key (scan C tbl) k = tmap key tbl k"
  proof (cases "tmap key tbl k")
    case None
    then have "tmap key (scan C tbl) k = None" by (simp add: tmap_None)
    with None show ?thesis by simp
  next
    case (Some r)
    then have "tmap key (scan C tbl) k = Some r" using assms by (simp add: tmap_iff)
    with Some show ?thesis by simp
  qed
qed

lemma select_key:
  "distinct (map key tbl) \<Longrightarrow>
    sql_select C (\<lambda>x. key x = k) tbl = (case tmap key tbl k of None \<Rightarrow> [] | Some r \<Rightarrow> [r])"
  using filter_key [of key "scan C tbl" k] by (simp add: sql_select_def tmap_scan)

lemma set_select [simp]: "set (sql_select C P tbl) = {x \<in> set tbl. P x}"
  by (auto simp: sql_select_def)

lemma distinct_select: "distinct (map f tbl) \<Longrightarrow> distinct (map f (sql_select C P tbl))"
  by (simp add: sql_select_def distinct_map_filter)

lemma one_row_key:
  assumes "distinct (map key tbl)" and "list_all (pgText C) ps"
  shows "one_row (query_row (with_text C ps (Inr (sql_select C (\<lambda>x. key x = k) tbl)))) =
    found (tmap key tbl k)"
  using assms
  by (cases "tmap key tbl k") (simp_all add: select_key query_row_def one_row_def with_text_def)

lemma insert_ok:
  assumes "distinct (map key tbl)" and "tmap key tbl (key row) = None"
  shows "sql_insert (\<lambda>x y. key x = key y) True row tbl = Inr (tbl @ [row])"
    and "distinct (map key (tbl @ [row]))"
    and "tmap key (tbl @ [row]) = (tmap key tbl)(key row \<mapsto> row)"
  using assms by (auto simp: sql_insert_def same_key tmap_snoc tmap_None list_ex_iff)

lemma insert_conflict:
  "tmap key tbl (key row) \<noteq> None \<Longrightarrow> sql_insert (\<lambda>x y. key x = key y) refs row tbl = Inl (PgError ''23505'')"
  by (simp add: sql_insert_def same_key)

definition upserted :: "('r \<Rightarrow> 'k) \<Rightarrow> 'r \<Rightarrow> 'r list \<Rightarrow> 'r list" where
  "upserted key row tbl =
    (if tmap key tbl (key row) = None then tbl @ [row]
     else map (\<lambda>x. if key row = key x then row else x) tbl)"

lemma sql_upsert_ok:
  assumes "distinct (map key tbl)"
  shows "sql_upsert (\<lambda>x y. key x = key y) True row tbl = Inr (upserted key row tbl)"
    and "distinct (map key (upserted key row tbl))"
    and "tmap key (upserted key row tbl) = (tmap key tbl)(key row \<mapsto> row)"
proof -
  have "map key (map (\<lambda>x. if key row = key x then row else x) tbl) = map key tbl" by simp
  then have "distinct (map key (map (\<lambda>x. if key row = key x then row else x) tbl))"
    using assms by metis
  then show "distinct (map key (upserted key row tbl))"
    using insert_ok(2) [OF assms, of row] by (simp add: upserted_def)
  show "sql_upsert (\<lambda>x y. key x = key y) True row tbl = Inr (upserted key row tbl)"
    by (simp add: sql_upsert_def same_key upserted_def)
  show "tmap key (upserted key row tbl) = (tmap key tbl)(key row \<mapsto> row)"
    using tmap_replace [of key tbl row] tmap_snoc [of key tbl row] by (simp add: upserted_def)
qed

lemma update_key:
  assumes "\<And>x. key (f x) = key x" and "distinct (map key tbl)"
  shows "fst (sql_update (\<lambda>x. key x = k) f tbl) = (case tmap key tbl k of None \<Rightarrow> [] | Some r \<Rightarrow> [f r])"
    and "distinct (map key (snd (sql_update (\<lambda>x. key x = k) f tbl)))"
    and "tmap key (snd (sql_update (\<lambda>x. key x = k) f tbl)) = modify k f (tmap key tbl)"
proof -
  show "fst (sql_update (\<lambda>x. key x = k) f tbl) = (case tmap key tbl k of None \<Rightarrow> [] | Some r \<Rightarrow> [f r])"
    by (simp add: sql_update_def filter_key [OF assms(2)] split: option.splits)
  show "distinct (map key (snd (sql_update (\<lambda>x. key x = k) f tbl)))"
    unfolding sql_update_def snd_conv keys_where [of key f, OF assms(1)] by (rule assms(2))
  show "tmap key (snd (sql_update (\<lambda>x. key x = k) f tbl)) = modify k f (tmap key tbl)"
    unfolding sql_update_def snd_conv by (rule tmap_modify) (rule assms(1))
qed

lemma delete_key:
  assumes "distinct (map key tbl)"
  shows "fst (sql_delete (\<lambda>x. key x = k) tbl) = (case tmap key tbl k of None \<Rightarrow> [] | Some r \<Rightarrow> [r])"
    and "distinct (map key (snd (sql_delete (\<lambda>x. key x = k) tbl)))"
    and "tmap key (snd (sql_delete (\<lambda>x. key x = k) tbl)) = (tmap key tbl)(k := None)"
  using assms by (simp_all add: sql_delete_def filter_key tmap_delete distinct_map_filter)

text \<open>What a method answers for an accepted statement.\<close>

lemma with_text_ok [simp]: "list_all (pgText C) ps \<Longrightarrow> with_text C ps r = r"
  by (simp add: with_text_def)

lemma exec_put_simps [simp]:
  "exec_put (Inr tbl) upd db = (Inr (), upd tbl)"
  "exec_put (Inl e) upd db = (Inl (mapErr e), db)"
  by (simp_all add: exec_put_def)

lemma exec_tag_Inr [simp]:
  "exec_tag (Inr p) upd db = ((if fst p = [] then Inl ErrNotFound else Inr ()), upd (snd p))"
  by (simp add: exec_tag_def split: prod.split)

lemma all_rows_Inr [simp]: "all_rows (Inr xs) = Inr xs"
  by (simp add: all_rows_def)

subsection \<open>The invariant and the meaning of a database\<close>

abbreviation consent_key :: "consent \<Rightarrow> string \<times> string" where
  "consent_key g \<equiv> (gUserID g, gClientID g)"

abbreviation member_key :: "membership \<Rightarrow> string \<times> string" where
  "member_key m \<equiv> (mOrgID m, mUserID m)"

definition pg_inv :: "pgdb \<Rightarrow> bool" where
  "pg_inv db \<longleftrightarrow>
    distinct (map uID (pt_users db)) \<and> distinct (map uEmail (pt_users db)) \<and>
    list_all (\<lambda>u. ToLower (uEmail u) = uEmail u) (pt_users db) \<and>
    distinct (map sTokenHash (pt_sessions db)) \<and> distinct (map cID (pt_clients db)) \<and>
    distinct (map acHash (pt_codes db)) \<and> distinct (map rtHash (pt_refresh db)) \<and>
    distinct (map atHash (pt_access db)) \<and> distinct (map consent_key (pt_consents db)) \<and>
    distinct (map aeID (pt_audits db)) \<and> distinct (pt_session_clients db) \<and>
    distinct (map oID (pt_orgs db)) \<and> distinct (map member_key (pt_members db))"

lemma pg_invD:
  assumes "pg_inv db"
  shows "distinct (map uID (pt_users db))" "distinct (map uEmail (pt_users db))"
    "list_all (\<lambda>u. ToLower (uEmail u) = uEmail u) (pt_users db)"
    "distinct (map sTokenHash (pt_sessions db))" "distinct (map cID (pt_clients db))"
    "distinct (map acHash (pt_codes db))" "distinct (map rtHash (pt_refresh db))"
    "distinct (map atHash (pt_access db))" "distinct (map consent_key (pt_consents db))"
    "distinct (map aeID (pt_audits db))" "distinct (pt_session_clients db)"
    "distinct (map oID (pt_orgs db))" "distinct (map member_key (pt_members db))"
  using assms by (simp_all add: pg_inv_def)

lemma pg_inv_empty: "pg_inv empty_db"
  by (simp add: pg_inv_def empty_db_def)

text \<open>A write to one table keeps the invariant when it keeps that table's part of it.\<close>

lemma pg_inv_put:
  assumes "pg_inv db"
  shows "distinct (map sTokenHash ss) \<Longrightarrow> pg_inv (db\<lparr>pt_sessions := ss\<rparr>)"
    and "distinct (map cID cs) \<Longrightarrow> pg_inv (db\<lparr>pt_clients := cs\<rparr>)"
    and "distinct (map acHash codes) \<Longrightarrow> pg_inv (db\<lparr>pt_codes := codes\<rparr>)"
    and "distinct (map rtHash ts) \<Longrightarrow> pg_inv (db\<lparr>pt_refresh := ts\<rparr>)"
    and "distinct (map atHash as) \<Longrightarrow> pg_inv (db\<lparr>pt_access := as\<rparr>)"
    and "distinct (map consent_key gs) \<Longrightarrow> pg_inv (db\<lparr>pt_consents := gs\<rparr>)"
    and "distinct (map aeID es) \<Longrightarrow> pg_inv (db\<lparr>pt_audits := es\<rparr>)"
    and "distinct ps \<Longrightarrow> pg_inv (db\<lparr>pt_session_clients := ps\<rparr>)"
    and "distinct (map oID os) \<Longrightarrow> pg_inv (db\<lparr>pt_orgs := os\<rparr>)"
    and "distinct (map member_key ms) \<Longrightarrow> pg_inv (db\<lparr>pt_members := ms\<rparr>)"
  using assms by (simp_all add: pg_inv_def)

definition pg_abs :: "pgdb \<Rightarrow> astore" where
  "pg_abs db = \<lparr>
     av_users = tmap uID (pt_users db),
     av_sessions = tmap sTokenHash (pt_sessions db),
     av_sidRP = (\<lambda>sid. {c. (sid, c) \<in> set (pt_session_clients db)}),
     av_clients = tmap cID (pt_clients db),
     av_codes = tmap acHash (pt_codes db),
     av_refresh = tmap rtHash (pt_refresh db),
     av_access = tmap atHash (pt_access db),
     av_consents = (\<lambda>u c. tmap consent_key (pt_consents db) (u, c)),
     av_audits = pt_audits db,
     av_orgs = tmap oID (pt_orgs db),
     av_members = (\<lambda>i u. tmap member_key (pt_members db) (i, u))\<rparr>"

fun cut :: "op \<Rightarrow> op" where
  "cut (Create_op u) = Create_op (u\<lparr>uCreatedAt := usec (uCreatedAt u)\<rparr>)"
| "cut (PutSession_op x) = PutSession_op (x\<lparr>sExpiresAt := usec (sExpiresAt x)\<rparr>)"
| "cut (PutCode_op c) = PutCode_op (c\<lparr>acExpiresAt := usec (acExpiresAt c)\<rparr>)"
| "cut (PutRefresh_op t) = PutRefresh_op (t\<lparr>rtExpiresAt := usec (rtExpiresAt t)\<rparr>)"
| "cut (PutAccess_op t) = PutAccess_op (t\<lparr>atExpiresAt := usec (atExpiresAt t)\<rparr>)"
| "cut (AppendAudit_op e) = AppendAudit_op (e\<lparr>aeAt := usec (aeAt e)\<rparr>)"
| "cut (CreateOrganization_op g) = CreateOrganization_op (g\<lparr>oCreatedAt := usec (oCreatedAt g)\<rparr>)"
| "cut (AddOrganizationMember_op m) = AddOrganizationMember_op (m\<lparr>mJoinedAt := usec (mJoinedAt m)\<rparr>)"
| "cut op = op"

fun texts :: "op \<Rightarrow> string list" where
  "texts (Create_op u) = [uID u, ToLower (uEmail u), uName u, uPasswordHash u]"
| "texts (GetByEmail_op e) = [ToLower e]"
| "texts (GetByID_op i) = [i]"
| "texts (SetUserDisabled_op i b) = [i]"
| "texts (PutSession_op x) = [sTokenHash x, sUserID x, sSID x, sActiveOrgID x]"
| "texts (GetSession_op h) = [h]"
| "texts (GetSessionBySID_op sid) = [sid]"
| "texts (DeleteSession_op h) = [h]"
| "texts (AddSessionClient_op sid c) = [sid, c]"
| "texts (ListSessionClients_op sid) = [sid]"
| "texts (CreateClient_op c) = [cID c, cName c, client_type_string (cType c), cSecretHash c] @
     cRedirectURIs c @ cPostLogoutRedirectURIs c @
     [cFrontChannelLogoutURI c, cBackChannelLogoutURI c, cTokenEndpointAuth c]"
| "texts (GetClient_op i) = [i]"
| "texts (UpdateClient_op i p) = [i, pName p] @ pRedirectURIs p @ pPostLogoutRedirectURIs p @
     [pFrontChannelLogoutURI p, pBackChannelLogoutURI p]"
| "texts (SetClientSecret_op i x) = [i, x]"
| "texts (PutCode_op c) = [acHash c, acClientID c, acUserID c, acRedirectURI c] @ acScopes c @
     [acNonce c, acCodeChallenge c, acSessionSID c]"
| "texts (TakeCode_op h) = [h]"
| "texts (PutRefresh_op t) = [rtHash t, rtFamilyID t, rtClientID t, rtUserID t] @ rtScopes t @ [rtSessionSID t]"
| "texts (GetRefresh_op h) = [h]"
| "texts (TakeRefresh_op h) = [h]"
| "texts (RevokeFamily_op f) = [f]"
| "texts (PutAccess_op t) = [atHash t, atClientID t, atUserID t] @ atScopes t @ [atSessionSID t]"
| "texts (GetAccess_op h) = [h]"
| "texts (PutConsent_op g) = [gUserID g, gClientID g] @ gScopes g"
| "texts (GetConsent_op u c) = [u, c]"
| "texts (AppendAudit_op e) = [aeID e, aeSubject e, aeClientID e, aeIP e, aeNote e]"
| "texts (ListAudits_op n i) = [i]"
| "texts (CreateOrganization_op g) = [oID g, oName g]"
| "texts (GetOrganization_op i) = [i]"
| "texts (ListOrganizationsForUser_op u) = [u]"
| "texts (AddOrganizationMember_op m) = [mOrgID m, mUserID m, org_role_string (mRole m)]"
| "texts (ListOrganizationMembers_op i) = [i]"
| "texts (GetOrganizationMembership_op i u) = [i, u]"
| "texts (UpdateOrganizationMemberRole_op i u r) = [i, u, org_role_string r]"
| "texts (RemoveOrganizationMember_op i u) = [i, u]"
| "texts (SetSessionActiveOrg_op h i) = [h, i]"
| "texts (SetSessionActiveOrgBySID_op sid i) = [sid, i]"
| "texts _ = []"

lemma adm_cut [simp]: "adm (cut op) a = adm op a"
  by (cases op) simp_all

text \<open>The methods of the interface record are the store's.\<close>

lemma pg_repos_sel [simp]:
  "Create (Users (pg_repos C)) = pg_Create C"
  "GetByEmail (Users (pg_repos C)) = pg_GetByEmail C"
  "GetByID (Users (pg_repos C)) = pg_GetByID C"
  "ListUsers (Users (pg_repos C)) = pg_ListUsers C"
  "SetUserDisabled (Users (pg_repos C)) = pg_SetUserDisabled C"
  "PutSession (Sessions (pg_repos C)) = pg_PutSession C"
  "GetSession (Sessions (pg_repos C)) = pg_GetSession C"
  "GetSessionBySID (Sessions (pg_repos C)) = pg_GetSessionBySID C"
  "DeleteSession (Sessions (pg_repos C)) = pg_DeleteSession C"
  "AddSessionClient (Sessions (pg_repos C)) = pg_AddSessionClient C"
  "ListSessionClients (Sessions (pg_repos C)) = pg_ListSessionClients C"
  "CreateClient (Clients (pg_repos C)) = pg_CreateClient C"
  "GetClient (Clients (pg_repos C)) = pg_GetClient C"
  "ListClients (Clients (pg_repos C)) = pg_ListClients C"
  "UpdateClient (Clients (pg_repos C)) = pg_UpdateClient C"
  "SetClientSecret (Clients (pg_repos C)) = pg_SetClientSecret C"
  "PutCode (AuthCodes (pg_repos C)) = pg_PutCode C"
  "TakeCode (AuthCodes (pg_repos C)) = pg_TakeCode C"
  "PutRefresh (RefreshTokens (pg_repos C)) = pg_PutRefresh C"
  "GetRefresh (RefreshTokens (pg_repos C)) = pg_GetRefresh C"
  "TakeRefresh (RefreshTokens (pg_repos C)) = pg_TakeRefresh C"
  "RevokeFamily (RefreshTokens (pg_repos C)) = pg_RevokeFamily C"
  "PutAccess (AccessTokens (pg_repos C)) = pg_PutAccess C"
  "GetAccess (AccessTokens (pg_repos C)) = pg_GetAccess C"
  "PutConsent (Consents (pg_repos C)) = pg_PutConsent C"
  "GetConsent (Consents (pg_repos C)) = pg_GetConsent C"
  "AppendAudit (Audits (pg_repos C)) = pg_AppendAudit C"
  "ListAudits (Audits (pg_repos C)) = pg_ListAudits C"
  "CreateOrganization (Organizations (pg_repos C)) = pg_CreateOrganization C"
  "GetOrganization (Organizations (pg_repos C)) = pg_GetOrganization C"
  "ListOrganizations (Organizations (pg_repos C)) = pg_ListOrganizations C"
  "ListOrganizationsForUser (Organizations (pg_repos C)) = pg_ListOrganizationsForUser C"
  "AddOrganizationMember (Organizations (pg_repos C)) = pg_AddOrganizationMember C"
  "ListOrganizationMembers (Organizations (pg_repos C)) = pg_ListOrganizationMembers C"
  "GetOrganizationMembership (Organizations (pg_repos C)) = pg_GetOrganizationMembership C"
  "UpdateOrganizationMemberRole (Organizations (pg_repos C)) = pg_UpdateOrganizationMemberRole C"
  "RemoveOrganizationMember (Organizations (pg_repos C)) = pg_RemoveOrganizationMember C"
  "SetSessionActiveOrg (Organizations (pg_repos C)) = pg_SetSessionActiveOrg C"
  "SetSessionActiveOrgBySID (Organizations (pg_repos C)) = pg_SetSessionActiveOrgBySID C"
  by (simp_all add: pg_repos_def)

end
