(* ===== verification/PgRepos.thy ===== *)
theory PgRepos
  imports PgInv
begin

section \<open>The Postgres store meets the specification\<close>

text \<open>
  For every method: on a database that keeps the invariant, with parameters that the server
  stores, the method answers as \<open>spec_out\<close> says for the call with its times in microseconds,
  and the meaning of the database changes as \<open>spec_post\<close> says. The names are collated by bytes
  (\<open>pgCollate C = id\<close>), as in the memory store.
\<close>

abbreviation pg_meets :: "pgconf \<Rightarrow> op \<Rightarrow> pgdb \<Rightarrow> bool" where
  "pg_meets C op db \<equiv> meets pg_abs pg_inv (cut op) db (exec (pg_repos C) op db)"

abbreviation pg_stores :: "pgconf \<Rightarrow> op \<Rightarrow> bool" where
  "pg_stores C op \<equiv> list_all (pgText C) (texts op)"

lemma consent_select:
  "distinct (map consent_key tbl) \<Longrightarrow> list_all (pgText C) ps \<Longrightarrow>
    one_row (query_row (with_text C ps (Inr (sql_select C (\<lambda>g. gUserID g = u \<and> gClientID g = c) tbl)))) =
    found (tmap consent_key tbl (u, c))"
  using one_row_key [of consent_key tbl C ps "(u, c)"] by simp

lemma member_select:
  "distinct (map member_key tbl) \<Longrightarrow> list_all (pgText C) ps \<Longrightarrow>
    one_row (query_row (with_text C ps (Inr (sql_select C (\<lambda>m. mOrgID m = i \<and> mUserID m = u) tbl)))) =
    found (tmap member_key tbl (i, u))"
  using one_row_key [of member_key tbl C ps "(i, u)"] by simp

text \<open>Lookups by key.\<close>

lemma pg_lookups_meet:
  assumes "pg_inv db"
  shows "pg_stores C (GetByID_op i) \<Longrightarrow> pg_meets C (GetByID_op i) db"
    and "pg_stores C (GetSession_op h) \<Longrightarrow> pg_meets C (GetSession_op h) db"
    and "pg_stores C (GetClient_op i) \<Longrightarrow> pg_meets C (GetClient_op i) db"
    and "pg_stores C (GetRefresh_op h) \<Longrightarrow> pg_meets C (GetRefresh_op h) db"
    and "pg_stores C (GetAccess_op h) \<Longrightarrow> pg_meets C (GetAccess_op h) db"
    and "pg_stores C (GetConsent_op u c) \<Longrightarrow> pg_meets C (GetConsent_op u c) db"
    and "pg_stores C (GetOrganization_op i) \<Longrightarrow> pg_meets C (GetOrganization_op i) db"
    and "pg_stores C (GetOrganizationMembership_op i u) \<Longrightarrow> pg_meets C (GetOrganizationMembership_op i u) db"
  using assms pg_invD [OF assms]
  by (simp_all add: meets_def pg_abs_def pg_GetByID_def scanUser_def pg_GetSession_def pg_GetClient_def
      pg_GetRefresh_def pg_GetAccess_def pg_GetConsent_def pg_GetOrganization_def
      pg_GetOrganizationMembership_def one_row_key consent_select member_select del: with_text_ok)

text \<open>Plain inserts of fresh rows.\<close>

lemma pg_inserts_meet:
  assumes db: "pg_inv db"
  shows "pg_stores C (CreateClient_op c) \<Longrightarrow> pg_meets C (CreateClient_op c) db"
    and "pg_stores C (PutCode_op d) \<Longrightarrow> adm (PutCode_op d) (pg_abs db) \<Longrightarrow> pg_meets C (PutCode_op d) db"
    and "pg_stores C (CreateOrganization_op g) \<Longrightarrow> adm (CreateOrganization_op g) (pg_abs db) \<Longrightarrow>
      pg_meets C (CreateOrganization_op g) db"
    and "pg_stores C (AppendAudit_op e) \<Longrightarrow> adm (AppendAudit_op e) (pg_abs db) \<Longrightarrow>
      pg_meets C (AppendAudit_op e) db"
proof -
  show "pg_meets C (CreateClient_op c) db" if "pg_stores C (CreateClient_op c)"
    using that insert_ok [OF pg_invD(5) [OF db], of c] insert_conflict [of cID "pt_clients db" c]
      pg_inv_put(2) [OF db] db
    by (cases "tmap cID (pt_clients db) (cID c)")
      (simp_all add: meets_def pg_CreateClient_def pg_abs_def)
  show "pg_meets C (PutCode_op d) db" if "pg_stores C (PutCode_op d)" "adm (PutCode_op d) (pg_abs db)"
    using that insert_ok [OF pg_invD(6) [OF db], of "d\<lparr>acExpiresAt := usec (acExpiresAt d)\<rparr>"]
      pg_inv_put(3) [OF db]
    by (simp add: meets_def pg_PutCode_def pg_abs_def)
  show "pg_meets C (CreateOrganization_op g) db"
    if "pg_stores C (CreateOrganization_op g)" "adm (CreateOrganization_op g) (pg_abs db)"
    using that insert_ok [OF pg_invD(12) [OF db], of "g\<lparr>oCreatedAt := usec (oCreatedAt g)\<rparr>"]
      pg_inv_put(9) [OF db]
    by (simp add: meets_def pg_CreateOrganization_def pg_abs_def)
  show "pg_meets C (AppendAudit_op e) db"
    if "pg_stores C (AppendAudit_op e)" "adm (AppendAudit_op e) (pg_abs db)"
    using that insert_ok [OF pg_invD(10) [OF db], of "e\<lparr>aeAt := usec (aeAt e)\<rparr>"]
      pg_inv_put(7) [OF db]
    by (simp add: meets_def pg_AppendAudit_def pg_abs_def tmap_None)
qed

text \<open>Inserts that replace a row in conflict.\<close>

lemma pg_upserts_meet:
  assumes db: "pg_inv db"
  shows "pg_stores C (PutSession_op x) \<Longrightarrow> adm (PutSession_op x) (pg_abs db) \<Longrightarrow> pg_meets C (PutSession_op x) db"
    and "pg_stores C (PutRefresh_op t) \<Longrightarrow> pg_meets C (PutRefresh_op t) db"
    and "pg_stores C (PutAccess_op a) \<Longrightarrow> pg_meets C (PutAccess_op a) db"
    and "pg_stores C (PutConsent_op g) \<Longrightarrow> pg_meets C (PutConsent_op g) db"
proof -
  show "pg_meets C (PutSession_op x) db" if "pg_stores C (PutSession_op x)" "adm (PutSession_op x) (pg_abs db)"
  proof -
    have refs: "list_ex (\<lambda>u. uID u = sUserID x) (pt_users db)"
      using that(2) tmap_SomeD [of uID "pt_users db" "sUserID x"] by (auto simp: pg_abs_def list_ex_iff)
    show ?thesis
      using that sql_upsert_ok [OF pg_invD(4) [OF db], of "x\<lparr>sExpiresAt := usec (sExpiresAt x)\<rparr>"]
        pg_inv_put(1) [OF db]
      by (simp add: meets_def pg_PutSession_def pg_abs_def refs)
  qed
  show "pg_meets C (PutRefresh_op t) db" if "pg_stores C (PutRefresh_op t)"
    using that sql_upsert_ok [OF pg_invD(7) [OF db], of "t\<lparr>rtExpiresAt := usec (rtExpiresAt t)\<rparr>"]
      pg_inv_put(4) [OF db]
    by (simp add: meets_def pg_PutRefresh_def pg_abs_def)
  show "pg_meets C (PutAccess_op a) db" if "pg_stores C (PutAccess_op a)"
    using that sql_upsert_ok [OF pg_invD(8) [OF db], of "a\<lparr>atExpiresAt := usec (atExpiresAt a)\<rparr>"]
      pg_inv_put(5) [OF db]
    by (simp add: meets_def pg_PutAccess_def pg_abs_def)
  show "pg_meets C (PutConsent_op g) db" if "pg_stores C (PutConsent_op g)"
    using that sql_upsert_ok [OF pg_invD(9) [OF db], of g] pg_inv_put(6) [OF db]
    by (simp add: meets_def pg_PutConsent_def pg_abs_def) (simp add: fun_eq_iff)
qed

text \<open>Updates by key, with \<open>ErrNotFound\<close> when no row was affected.\<close>

lemma pg_tagged_meet:
  assumes db: "pg_inv db"
  shows "pg_stores C (UpdateClient_op i p) \<Longrightarrow> pg_meets C (UpdateClient_op i p) db"
    and "pg_stores C (SetClientSecret_op i y) \<Longrightarrow> pg_meets C (SetClientSecret_op i y) db"
    and "pg_stores C (SetSessionActiveOrg_op h i) \<Longrightarrow> pg_meets C (SetSessionActiveOrg_op h i) db"
proof -
  show "pg_meets C (UpdateClient_op i p) db" if "pg_stores C (UpdateClient_op i p)"
    using that update_key [OF _ pg_invD(5) [OF db], of "patched p" i] pg_inv_put(2) [OF db]
    by (cases "tmap cID (pt_clients db) i")
      (simp_all add: meets_def pg_UpdateClient_def pg_abs_def patched_def [abs_def])
  show "pg_meets C (SetClientSecret_op i y) db" if "pg_stores C (SetClientSecret_op i y)"
    using that update_key [OF _ pg_invD(5) [OF db], of "\<lambda>c. c\<lparr>cSecretHash := y\<rparr>" i] pg_inv_put(2) [OF db]
    by (cases "tmap cID (pt_clients db) i")
      (simp_all add: meets_def pg_SetClientSecret_def pg_abs_def)
  show "pg_meets C (SetSessionActiveOrg_op h i) db" if "pg_stores C (SetSessionActiveOrg_op h i)"
    using that update_key [OF _ pg_invD(4) [OF db], of "\<lambda>x. x\<lparr>sActiveOrgID := i\<rparr>" h] pg_inv_put(1) [OF db]
    by (cases "tmap sTokenHash (pt_sessions db) h")
      (simp_all add: meets_def pg_SetSessionActiveOrg_def pg_abs_def)
qed

lemma pg_role_meets:
  assumes db: "pg_inv db" and ok: "pg_stores C (UpdateOrganizationMemberRole_op i u r)"
  shows "pg_meets C (UpdateOrganizationMemberRole_op i u r) db"
proof -
  note upd = update_key [where key = member_key and f = "\<lambda>m. m\<lparr>mRole := r\<rparr>" and k = "(i, u)",
      OF _ pg_invD(13) [OF db], simplified]
  have post: "(\<lambda>j v. modify (i, u) (\<lambda>m. m\<lparr>mRole := r\<rparr>) (tmap member_key (pt_members db)) (j, v)) =
      (\<lambda>j v. tmap member_key (pt_members db) (j, v))
        (i := modify u (\<lambda>m. m\<lparr>mRole := r\<rparr>) (\<lambda>v. tmap member_key (pt_members db) (i, v)))"
    by (cases "tmap member_key (pt_members db) (i, u)") (auto simp: fun_eq_iff)
  show ?thesis
    using ok upd pg_inv_put(10) [OF db] post
    by (cases "tmap member_key (pt_members db) (i, u)")
      (simp_all add: meets_def pg_UpdateOrganizationMemberRole_def pg_abs_def)
qed

lemma pg_remove_meets:
  assumes db: "pg_inv db" and ok: "pg_stores C (RemoveOrganizationMember_op i u)"
  shows "pg_meets C (RemoveOrganizationMember_op i u) db"
proof -
  note del = delete_key [where key = member_key and k = "(i, u)", OF pg_invD(13) [OF db], simplified]
  have post: "(\<lambda>j v. ((tmap member_key (pt_members db))((i, u) := None)) (j, v)) =
      (\<lambda>j v. tmap member_key (pt_members db) (j, v))
        (i := (\<lambda>v. tmap member_key (pt_members db) (i, v))(u := None))"
    by (auto simp: fun_eq_iff)
  show ?thesis
    using ok del pg_inv_put(10) [OF db] post
    by (cases "tmap member_key (pt_members db) (i, u)")
      (simp_all add: meets_def pg_RemoveOrganizationMember_def pg_abs_def)
qed

text \<open>The whole-table updates.\<close>

lemma pg_revoke_meets:
  assumes db: "pg_inv db" and ok: "pg_stores C (RevokeFamily_op f)"
  shows "pg_meets C (RevokeFamily_op f) db"
proof -
  let ?f = "\<lambda>t. t\<lparr>rtRevoked := True\<rparr>"
  let ?tbl = "map (\<lambda>t. if rtFamilyID t = f then ?f t else t) (pt_refresh db)"
  have "distinct (map rtHash ?tbl)"
    by (subst keys_where) (simp_all add: pg_invD(7) [OF db])
  moreover have "tmap rtHash ?tbl = (\<lambda>h. map_option (\<lambda>t. if rtFamilyID t = f then ?f t else t)
      (tmap rtHash (pt_refresh db) h))"
    by (rule ext) (simp add: tmap_where)
  ultimately show ?thesis
    using ok pg_inv_put(4) [OF db, of ?tbl]
    by (simp add: meets_def pg_RevokeFamily_def pg_abs_def sql_update_def)
qed

lemma pg_by_sid_meets:
  assumes db: "pg_inv db" and ok: "pg_stores C (SetSessionActiveOrgBySID_op sid i)"
    and adm: "adm (SetSessionActiveOrgBySID_op sid i) (pg_abs db)"
  shows "pg_meets C (SetSessionActiveOrgBySID_op sid i) db"
proof (cases "sid = []")
  case True
  with db show ?thesis by (simp add: meets_def pg_SetSessionActiveOrgBySID_def)
next
  case False
  let ?f = "\<lambda>x. x\<lparr>sActiveOrgID := i\<rparr>"
  let ?tbl = "map (\<lambda>x. if sSID x = sid then ?f x else x) (pt_sessions db)"
  have "distinct (map sTokenHash ?tbl)"
    by (subst keys_where) (simp_all add: pg_invD(4) [OF db])
  moreover have "tmap sTokenHash ?tbl = (\<lambda>h. map_option (\<lambda>x. if sSID x = sid then ?f x else x)
      (tmap sTokenHash (pt_sessions db) h))"
    by (rule ext) (simp add: tmap_where)
  moreover have "filter (\<lambda>x. sSID x = sid) (pt_sessions db) = [] \<longleftrightarrow> \<not> (\<exists>h. has_sid (pg_abs db) sid h)"
    using pg_invD(4) [OF db] by (auto simp: filter_empty_conv has_sid_def pg_abs_def tmap_iff)
  ultimately show ?thesis
    using ok adm False pg_inv_put(1) [OF db, of ?tbl]
    by (simp add: meets_def pg_SetSessionActiveOrgBySID_def pg_abs_def sql_update_def)
qed

subsection \<open>Users\<close>

lemma pg_inv_users:
  "pg_inv db \<Longrightarrow> distinct (map uID us) \<Longrightarrow> distinct (map uEmail us) \<Longrightarrow>
    list_all (\<lambda>u. ToLower (uEmail u) = uEmail u) us \<Longrightarrow> pg_inv (db\<lparr>pt_users := us\<rparr>)"
  by (simp add: pg_inv_def)

lemma pg_email_taken:
  "pg_inv db \<Longrightarrow> email_taken e (pg_abs db) \<longleftrightarrow> list_ex (\<lambda>u. uEmail u = e) (pt_users db)"
  by (auto simp: email_taken_def pg_abs_def tmap_iff pg_invD(1) list_ex_iff)

lemma pg_create_meets:
  assumes db: "pg_inv db" and ok: "pg_stores C (Create_op u)" and adm: "adm (Create_op u) (pg_abs db)"
  shows "pg_meets C (Create_op u) db"
proof -
  let ?e = "ToLower (uEmail u)"
  let ?row = "u\<lparr>uEmail := ?e, uCreatedAt := usec (uCreatedAt u)\<rparr>"
  let ?same = "\<lambda>x y. uID x = uID y \<or> uEmail x = uEmail y"
  show ?thesis
  proof (cases "email_taken ?e (pg_abs db)")
    case True
    then obtain v where v: "v \<in> set (pt_users db)" "uEmail v = ?e"
      unfolding pg_email_taken [OF db] list_ex_iff by blast
    then have "?same ?row v" by simp
    with v(1) have "list_ex (?same ?row) (pt_users db)" unfolding list_ex_iff by blast
    with True ok db show ?thesis
      by (simp add: meets_def pg_Create_def sql_insert_def Let_def)
  next
    case False
    then have new: "tmap uID (pt_users db) (uID u) = None" using adm by (simp add: pg_abs_def)
    have fresh: "\<not> list_ex (?same ?row) (pt_users db)"
      using False new unfolding pg_email_taken [OF db] by (auto simp: list_ex_iff tmap_None)
    have "pg_inv (db\<lparr>pt_users := pt_users db @ [?row]\<rparr>)"
      using db fresh pg_invD(1-3) [OF db] by (auto intro!: pg_inv_users simp: list_ex_iff)
    moreover have "pg_abs (db\<lparr>pt_users := pt_users db @ [?row]\<rparr>) =
        (pg_abs db)\<lparr>av_users := (av_users (pg_abs db))(uID u \<mapsto> ?row)\<rparr>"
      using tmap_snoc [of uID "pt_users db" ?row] new by (simp add: pg_abs_def)
    ultimately show ?thesis
      using False ok fresh by (cases u) (simp add: meets_def pg_Create_def sql_insert_def Let_def)
  qed
qed

lemma pg_by_email_meets:
  assumes db: "pg_inv db" and ok: "pg_stores C (GetByEmail_op e)"
  shows "pg_meets C (GetByEmail_op e) db"
proof -
  have "pg_GetByEmail C e db = found (tmap uEmail (pt_users db) (ToLower e))"
    using ok pg_invD(2) [OF db] by (simp add: pg_GetByEmail_def scanUser_def one_row_key del: with_text_ok)
  moreover have "av_users (pg_abs db) = tmap uID (pt_users db)" by (simp add: pg_abs_def)
  moreover have "\<not> email_taken (ToLower e) (pg_abs db)" if "tmap uEmail (pt_users db) (ToLower e) = None"
    using that unfolding pg_email_taken [OF db] tmap_None list_ex_iff by (metis image_eqI)
  ultimately show ?thesis
    using db pg_invD(1,2) [OF db]
    by (cases "tmap uEmail (pt_users db) (ToLower e)") (auto simp: meets_def tmap_iff)
qed

lemma pg_disable_meets:
  assumes db: "pg_inv db" and ok: "pg_stores C (SetUserDisabled_op i b)"
  shows "pg_meets C (SetUserDisabled_op i b) db"
proof -
  let ?f = "\<lambda>u. u\<lparr>uDisabled := b\<rparr>"
  let ?tbl = "snd (sql_update (\<lambda>u. uID u = i) ?f (pt_users db))"
  note upd = update_key [of uID ?f, OF _ pg_invD(1) [OF db], of i, simplified]
  have "map uEmail ?tbl = map uEmail (pt_users db)" by (simp add: sql_update_def)
  moreover have "list_all (\<lambda>u. ToLower (uEmail u) = uEmail u) ?tbl"
    using pg_invD(3) [OF db] by (auto simp: sql_update_def list_all_iff)
  ultimately have "pg_inv (db\<lparr>pt_users := ?tbl\<rparr>)"
    using pg_invD(2) [OF db] upd by (intro pg_inv_users [OF db]) simp_all
  with ok upd show ?thesis
    by (cases "tmap uID (pt_users db) i")
      (simp_all add: meets_def pg_SetUserDisabled_def pg_abs_def)
qed

subsection \<open>Lists\<close>

lemma lists_rowsI:
  "set xs = rows \<Longrightarrow> distinct (map ident xs) \<Longrightarrow> lists_rows rows ident key (Inr (sort_key key xs))"
  by (simp add: lists_rows_def)

lemma pg_lists_meet:
  assumes db: "pg_inv db" and coll: "pgCollate C = id"
  shows "pg_meets C ListUsers_op db" and "pg_meets C ListClients_op db"
    and "pg_meets C ListOrganizations_op db"
    and "pg_stores C (ListSessionClients_op sid) \<Longrightarrow> adm (ListSessionClients_op sid) (pg_abs db) \<Longrightarrow>
      pg_meets C (ListSessionClients_op sid) db"
proof -
  note inv = pg_invD [OF db]
  show "pg_meets C ListUsers_op db"
    using db inv coll
    by (simp add: meets_def pg_ListUsers_def pg_abs_def ran_tmap lists_rowsI)
  show "pg_meets C ListClients_op db"
    using db inv coll
    by (simp add: meets_def pg_ListClients_def pg_abs_def ran_tmap lists_rowsI)
  show "pg_meets C ListOrganizations_op db"
    using db inv by (simp add: meets_def pg_ListOrganizations_def pg_abs_def ran_tmap lists_rowsI)
  show "pg_meets C (ListSessionClients_op sid) db"
    if "pg_stores C (ListSessionClients_op sid)" "adm (ListSessionClients_op sid) (pg_abs db)"
  proof -
    let ?ps = "sql_select C (\<lambda>(s, _). s = sid) (pt_session_clients db)"
    have "distinct ?ps" using inv(11) by (simp add: sql_select_def)
    moreover have "inj_on snd (set ?ps)" by (auto intro!: inj_onI)
    ultimately have "distinct (map snd ?ps)" by (simp add: distinct_map)
    moreover have "set (map snd ?ps) = {c. (sid, c) \<in> set (pt_session_clients db)}" by force
    ultimately show ?thesis
      using that db coll
      by (simp add: meets_def pg_ListSessionClients_def pg_abs_def lists_rowsI del: set_map)
  qed
qed

lemma distinct_part:
  assumes "distinct (map (\<lambda>m. (f m, g m)) tbl)"
  shows "distinct (map g (sql_select C (\<lambda>m. f m = a) tbl))"
    and "distinct (map f (sql_select C (\<lambda>m. g m = b) tbl))"
  using distinct_select [OF assms, of C "\<lambda>m. f m = a"] distinct_select [OF assms, of C "\<lambda>m. g m = b"]
  by (auto simp: distinct_map inj_on_def)

lemma pg_members_meet:
  assumes db: "pg_inv db" and ok: "pg_stores C (ListOrganizationMembers_op i)"
  shows "pg_meets C (ListOrganizationMembers_op i) db"
proof -
  have "{m \<in> set (pt_members db). mOrgID m = i} = ran (\<lambda>u. tmap member_key (pt_members db) (i, u))"
    using pg_invD(13) [OF db] by (auto simp: ran_def tmap_iff)
  then show ?thesis
    using ok db distinct_part(1) [OF pg_invD(13) [OF db], of C i]
    by (simp add: meets_def pg_ListOrganizationMembers_def pg_abs_def lists_rowsI)
qed

lemma concat_key:
  assumes "distinct (map key tbl)"
  shows "map key (concat (map (\<lambda>m. sql_select C (\<lambda>g. f m = key g) tbl) ms)) =
      map f (filter (\<lambda>m. tmap key tbl (f m) \<noteq> None) ms)"
proof (induction ms)
  case Nil
  then show ?case by simp
next
  case (Cons m ms)
  have "sql_select C (\<lambda>g. f m = key g) tbl = (case tmap key tbl (f m) of None \<Rightarrow> [] | Some r \<Rightarrow> [r])"
    using select_key [OF assms, of C "f m"] by (simp add: eq_commute)
  with Cons show ?case using tmap_SomeD [of key tbl "f m"] by (auto split: option.splits)
qed

lemma pg_for_user_meets:
  assumes db: "pg_inv db" and ok: "pg_stores C (ListOrganizationsForUser_op u)"
  shows "pg_meets C (ListOrganizationsForUser_op u) db"
proof -
  let ?ms = "sql_select C (\<lambda>m. mUserID m = u) (pt_members db)"
  let ?os = "concat (map (\<lambda>m. sql_select C (\<lambda>g. mOrgID m = oID g) (pt_orgs db)) ?ms)"
  have "distinct (map mOrgID ?ms)" using distinct_part(2) [OF pg_invD(13) [OF db]] .
  then have "distinct (map oID ?os)"
    unfolding concat_key [OF pg_invD(12) [OF db]] by (simp add: distinct_map_filter)
  moreover have "set ?os = user_orgs (pg_abs db) u"
    using pg_invD(12,13) [OF db] by (force simp: user_orgs_def pg_abs_def tmap_iff tmap_None)
  ultimately show ?thesis
    using ok db
    by (simp add: meets_def pg_ListOrganizationsForUser_def lists_rowsI del: set_concat)
qed

subsection \<open>Members, session clients, the end of a session\<close>

lemma pg_add_member_meets:
  assumes db: "pg_inv db" and ok: "pg_stores C (AddOrganizationMember_op m)"
    and adm: "adm (AddOrganizationMember_op m) (pg_abs db)"
  shows "pg_meets C (AddOrganizationMember_op m) db"
proof -
  let ?row = "m\<lparr>mJoinedAt := usec (mJoinedAt m)\<rparr>"
  let ?k = "(mOrgID m, mUserID m)"
  have refs: "list_ex (\<lambda>g. oID g = mOrgID m) (pt_orgs db)" "list_ex (\<lambda>u. uID u = mUserID m) (pt_users db)"
    using adm by (auto simp: pg_abs_def tmap_None list_ex_iff)
  show ?thesis
  proof (cases "tmap member_key (pt_members db) ?k")
    case None
    note ins = insert_ok [where key = member_key and row = ?row, OF pg_invD(13) [OF db], simplified, OF None]
    have post: "(\<lambda>i u. ((tmap member_key (pt_members db))(?k \<mapsto> ?row)) (i, u)) =
        (\<lambda>i u. tmap member_key (pt_members db) (i, u))
          (mOrgID m := (\<lambda>u. tmap member_key (pt_members db) (mOrgID m, u))(mUserID m \<mapsto> ?row))"
      by (auto simp: fun_eq_iff)
    show ?thesis
      using None ok refs ins pg_inv_put(10) [OF db] post
      by (simp add: meets_def pg_AddOrganizationMember_def pg_abs_def)
  next
    case (Some x)
    then have "sql_insert (\<lambda>x y. mOrgID x = mOrgID y \<and> mUserID x = mUserID y) True ?row (pt_members db) =
        Inl (PgError ''23505'')"
      using insert_conflict [of member_key "pt_members db" ?row] by simp
    with Some ok refs db show ?thesis
      by (simp add: meets_def pg_AddOrganizationMember_def pg_abs_def)
  qed
qed

lemma pg_add_client_meets:
  assumes db: "pg_inv db" and ok: "pg_stores C (AddSessionClient_op sid c)"
  shows "pg_meets C (AddSessionClient_op sid c) db"
  using db ok pg_inv_put(8) [OF db, of "pt_session_clients db @ [(sid, c)]"] pg_invD(11) [OF db]
  by (auto simp: meets_def pg_AddSessionClient_def pg_abs_def fun_eq_iff)

lemma pg_by_sid_get_meets:
  assumes db: "pg_inv db" and ok: "pg_stores C (GetSessionBySID_op sid)"
  shows "pg_meets C (GetSessionBySID_op sid) db"
proof (cases "sql_select C (\<lambda>x. sSID x = sid) (pt_sessions db)")
  case Nil
  then have "{x \<in> set (pt_sessions db). sSID x = sid} = {}"
    by (metis empty_set set_select)
  with Nil ok db show ?thesis
    by (auto simp: meets_def pg_GetSessionBySID_def query_row_def one_row_def has_sid_def pg_abs_def
        dest: tmap_SomeD)
next
  case (Cons x xs)
  then have "x \<in> {x \<in> set (pt_sessions db). sSID x = sid}"
    by (metis list.set_intros(1) set_select)
  with Cons ok db pg_invD(4) [OF db] show ?thesis
    by (simp add: meets_def pg_GetSessionBySID_def query_row_def one_row_def pg_abs_def tmap_iff)
qed

lemma pg_delete_meets:
  assumes db: "pg_inv db" and ok: "pg_stores C (DeleteSession_op h)"
  shows "pg_meets C (DeleteSession_op h) db"
proof -
  note sel = select_key [OF pg_invD(4) [OF db], of C h] and del = delete_key [OF pg_invD(4) [OF db], of h]
  have drop: "(\<lambda>sid. {c. (sid, c) \<in> set (snd (sql_delete (\<lambda>(s, _). s = k) (pt_session_clients db)))}) =
      (\<lambda>sid. {c. (sid, c) \<in> set (pt_session_clients db)})(k := {})" for k
    by (auto simp: sql_delete_def fun_eq_iff)
  have "distinct (snd (sql_delete (\<lambda>(s, _). s = k) (pt_session_clients db)))" for k
    using pg_invD(11) [OF db] by (simp add: sql_delete_def)
  then have inv': "pg_inv (db\<lparr>pt_session_clients := snd (sql_delete (\<lambda>(s, _). s = k) (pt_session_clients db))\<rparr>)" for k
    by (rule pg_inv_put(8) [OF db])
  show ?thesis
  proof (cases "tmap sTokenHash (pt_sessions db) h")
    case None
    with ok sel del pg_inv_put(1) [OF db] show ?thesis
      by (simp add: meets_def pg_DeleteSession_def query_row_def pg_abs_def Let_def split_beta)
  next
    case (Some x)
    with ok sel del pg_inv_put(1) [OF db] pg_inv_put(1) [OF inv'] drop show ?thesis
      by (simp add: meets_def pg_DeleteSession_def query_row_def pg_abs_def Let_def split_beta)
  qed
qed

subsection \<open>Taking a code or a refresh token\<close>

lemma take_update:
  assumes "\<And>x. key (f x) = key x" and "distinct (map key tbl)" and "\<And>x. \<not> Q x \<Longrightarrow> f x = x"
  shows "fst (sql_update (\<lambda>x. key x = k \<and> Q x) f tbl) =
      (case tmap key tbl k of None \<Rightarrow> [] | Some r \<Rightarrow> if Q r then [f r] else [])"
    and "distinct (map key (snd (sql_update (\<lambda>x. key x = k \<and> Q x) f tbl)))"
    and "tmap key (snd (sql_update (\<lambda>x. key x = k \<and> Q x) f tbl)) = modify k f (tmap key tbl)"
proof -
  have "filter (\<lambda>x. key x = k \<and> Q x) tbl = filter Q (filter (\<lambda>x. key x = k) tbl)"
    by (simp add: conj_commute)
  then show "fst (sql_update (\<lambda>x. key x = k \<and> Q x) f tbl) =
      (case tmap key tbl k of None \<Rightarrow> [] | Some r \<Rightarrow> if Q r then [f r] else [])"
    by (simp add: sql_update_def filter_key [OF assms(2)] del: filter_filter split: option.splits)
  have "snd (sql_update (\<lambda>x. key x = k \<and> Q x) f tbl) = snd (sql_update (\<lambda>x. key x = k) f tbl)"
    using assms(3) by (simp add: sql_update_def)
  with update_key(2,3) [of key f tbl k, OF assms(1,2)]
  show "distinct (map key (snd (sql_update (\<lambda>x. key x = k \<and> Q x) f tbl)))"
    and "tmap key (snd (sql_update (\<lambda>x. key x = k \<and> Q x) f tbl)) = modify k f (tmap key tbl)"
    by simp_all
qed

lemma used_again: "acUsed c \<Longrightarrow> c\<lparr>acUsed := True\<rparr> = c"
  by (cases c) simp

lemma revoked_again: "rtRevoked t \<Longrightarrow> t\<lparr>rtRevoked := True\<rparr> = t"
  by (cases t) simp

lemma pg_take_code_steps:
  assumes db: "pg_inv db" and ok: "pgText C h"
  shows "fst (take_code_update C h db) =
      (case tmap acHash (pt_codes db) h of
         None \<Rightarrow> Inl NoRows
       | Some c \<Rightarrow> if acUsed c then Inl NoRows else Inr (c\<lparr>acUsed := True\<rparr>))"
    and "pg_inv (snd (take_code_update C h db))"
    and "pg_abs (snd (take_code_update C h db)) = spec_post (TakeCode_op h) (pg_abs db)"
    and "take_code_select C h db =
      (case tmap acHash (pt_codes db) h of None \<Rightarrow> Inl ErrNotFound | Some c \<Rightarrow> Inl ErrUsed)"
proof -
  have mark: "acHash (c\<lparr>acUsed := True\<rparr>) = acHash c" "\<not> \<not> acUsed c \<Longrightarrow> c\<lparr>acUsed := True\<rparr> = c" for c
    by (simp_all add: used_again)
  note upd = take_update [of acHash "\<lambda>c. c\<lparr>acUsed := True\<rparr>" "pt_codes db" "\<lambda>c. \<not> acUsed c" h,
      OF mark(1) pg_invD(6) [OF db] mark(2)]
  show "fst (take_code_update C h db) =
      (case tmap acHash (pt_codes db) h of
         None \<Rightarrow> Inl NoRows
       | Some c \<Rightarrow> if acUsed c then Inl NoRows else Inr (c\<lparr>acUsed := True\<rparr>))"
    using ok upd(1)
    by (auto simp: take_code_update_def query_row_def split_beta split: option.splits)
  show "pg_inv (snd (take_code_update C h db))"
    using ok upd(2) pg_inv_put(3) [OF db] by (simp add: take_code_update_def split_beta)
  show "pg_abs (snd (take_code_update C h db)) = spec_post (TakeCode_op h) (pg_abs db)"
    using ok upd(3) by (simp add: take_code_update_def split_beta pg_abs_def)
  show "take_code_select C h db =
      (case tmap acHash (pt_codes db) h of None \<Rightarrow> Inl ErrNotFound | Some c \<Rightarrow> Inl ErrUsed)"
    using ok select_key [OF pg_invD(6) [OF db], of C h]
    by (simp add: take_code_select_def query_row_def split: option.splits)
qed

lemma pg_take_code_meets:
  assumes db: "pg_inv db" and ok: "pg_stores C (TakeCode_op h)"
  shows "pg_meets C (TakeCode_op h) db"
proof -
  have h: "pgText C h" using ok by simp
  let ?u = "take_code_update C h db"
  note up = pg_take_code_steps [OF db h]
  have sel: "take_code_select C h (snd ?u) =
      (case tmap acHash (pt_codes db) h of None \<Rightarrow> Inl ErrNotFound | Some c \<Rightarrow> Inl ErrUsed)"
    using pg_take_code_steps(4) [OF up(2) h] arg_cong [OF up(3), of "\<lambda>a. av_codes a h"]
    by (cases "tmap acHash (pt_codes db) h") (simp_all add: pg_abs_def)
  have "pg_TakeCode C h db =
      (case one_row (fst ?u) of
         Inr c \<Rightarrow> (Inr c, snd ?u)
       | Inl e \<Rightarrow> if e \<noteq> ErrNotFound then (Inl e, snd ?u) else (take_code_select C h (snd ?u), snd ?u))"
    by (simp add: pg_TakeCode_def scanCode_def split_beta Let_def)
  then show ?thesis
    using up(1-3) sel
    by (auto simp: meets_def one_row_def pg_abs_def split: option.splits)
qed

lemma pg_take_refresh_steps:
  assumes db: "pg_inv db" and ok: "pgText C h"
  shows "fst (take_refresh_update C h db) =
      (case tmap rtHash (pt_refresh db) h of
         None \<Rightarrow> Inl NoRows
       | Some t \<Rightarrow> if rtRevoked t then Inl NoRows else Inr (t\<lparr>rtRevoked := True\<rparr>))"
    and "pg_inv (snd (take_refresh_update C h db))"
    and "pg_abs (snd (take_refresh_update C h db)) = spec_post (TakeRefresh_op h) (pg_abs db)"
    and "take_refresh_select C h db =
      (case tmap rtHash (pt_refresh db) h of None \<Rightarrow> Inl ErrNotFound | Some t \<Rightarrow> Inl ErrUsed)"
proof -
  have mark: "rtHash (t\<lparr>rtRevoked := True\<rparr>) = rtHash t" "\<not> \<not> rtRevoked t \<Longrightarrow> t\<lparr>rtRevoked := True\<rparr> = t" for t
    by (simp_all add: revoked_again)
  note upd = take_update [of rtHash "\<lambda>t. t\<lparr>rtRevoked := True\<rparr>" "pt_refresh db" "\<lambda>t. \<not> rtRevoked t" h,
      OF mark(1) pg_invD(7) [OF db] mark(2)]
  show "fst (take_refresh_update C h db) =
      (case tmap rtHash (pt_refresh db) h of
         None \<Rightarrow> Inl NoRows
       | Some t \<Rightarrow> if rtRevoked t then Inl NoRows else Inr (t\<lparr>rtRevoked := True\<rparr>))"
    using ok upd(1)
    by (auto simp: take_refresh_update_def query_row_def split_beta split: option.splits)
  show "pg_inv (snd (take_refresh_update C h db))"
    using ok upd(2) pg_inv_put(4) [OF db] by (simp add: take_refresh_update_def split_beta)
  show "pg_abs (snd (take_refresh_update C h db)) = spec_post (TakeRefresh_op h) (pg_abs db)"
    using ok upd(3) by (simp add: take_refresh_update_def split_beta pg_abs_def)
  show "take_refresh_select C h db =
      (case tmap rtHash (pt_refresh db) h of None \<Rightarrow> Inl ErrNotFound | Some t \<Rightarrow> Inl ErrUsed)"
    using ok select_key [OF pg_invD(7) [OF db], of C h]
    by (simp add: take_refresh_select_def query_row_def split: option.splits)
qed

lemma pg_take_refresh_meets:
  assumes db: "pg_inv db" and ok: "pg_stores C (TakeRefresh_op h)"
  shows "pg_meets C (TakeRefresh_op h) db"
proof -
  have h: "pgText C h" using ok by simp
  let ?u = "take_refresh_update C h db"
  note up = pg_take_refresh_steps [OF db h]
  have sel: "take_refresh_select C h (snd ?u) =
      (case tmap rtHash (pt_refresh db) h of None \<Rightarrow> Inl ErrNotFound | Some t \<Rightarrow> Inl ErrUsed)"
    using pg_take_refresh_steps(4) [OF up(2) h] arg_cong [OF up(3), of "\<lambda>a. av_refresh a h"]
    by (cases "tmap rtHash (pt_refresh db) h") (simp_all add: pg_abs_def)
  have "pg_TakeRefresh C h db =
      (case fst ?u of
         Inr t \<Rightarrow> (Inr t, snd ?u)
       | Inl e \<Rightarrow> if mapErr e \<noteq> ErrNotFound then (Inl (mapErr e), snd ?u)
           else (take_refresh_select C h (snd ?u), snd ?u))"
    by (simp add: pg_TakeRefresh_def split_beta Let_def)
  then show ?thesis
    using up(1-3) sel
    by (auto simp: meets_def pg_abs_def split: option.splits)
qed

subsection \<open>The audit trail\<close>

lemma audit_key_id: "pgCollate C = id \<Longrightarrow> audit_key C = newest_key"
  by (rule ext) (simp add: audit_key_def newest_key_def)

lemma inj_newest: "distinct (map aeID es) \<Longrightarrow> inj_on newest_key (set es)"
  by (auto simp: newest_key_def distinct_map inj_on_def)

lemma index_of_None: "index_of P xs = None \<longleftrightarrow> (\<forall>x \<in> set xs. \<not> P x)"
  by (induction xs) auto

lemma index_of_Some: "index_of P xs = Some i \<Longrightarrow> i < length xs \<and> P (xs ! i)"
  by (induction xs arbitrary: i) (auto split: if_splits)

lemma filter_after:
  fixes key :: "'a \<Rightarrow> 'k::linorder"
  assumes "sorted (map key xs)" and "distinct (map key xs)" and "i < length xs"
  shows "filter (\<lambda>x. key (xs ! i) < key x) xs = drop (Suc i) xs"
proof -
  have st: "sorted_wrt (\<lambda>x y. key x < key y) xs"
    using assms(1,2) strict_sorted_iff [of "map key xs"] by (simp add: sorted_wrt_map)
  have split: "xs = take i xs @ xs ! i # drop (Suc i) xs" using assms(3) by (rule id_take_nth_drop)
  have "sorted_wrt (\<lambda>x y. key x < key y) (take i xs @ xs ! i # drop (Suc i) xs)"
    using st split by metis
  then have before: "\<forall>x \<in> set (take i xs). key x < key (xs ! i)"
    and after: "\<forall>x \<in> set (drop (Suc i) xs). key (xs ! i) < key x"
    by (auto simp: sorted_wrt_append)
  have "filter (\<lambda>x. key (xs ! i) < key x) (take i xs) = []"
    using before by (auto simp: filter_empty_conv)
  moreover have "filter (\<lambda>x. key (xs ! i) < key x) (drop (Suc i) xs) = drop (Suc i) xs"
    using after by (simp add: filter_id_conv)
  ultimately show ?thesis
    by (subst (2) split) simp
qed

lemma sort_select:
  assumes "distinct (map aeID es)"
  shows "sort_key newest_key (sql_select C P es) = filter P (sort_key newest_key es)"
proof -
  have "sort_key newest_key (scan C es) = sort_key newest_key es"
    by (rule sort_key_perm_eq) (simp_all add: inj_newest assms)
  then show ?thesis by (simp add: sql_select_def filter_sort [symmetric])
qed

lemma clamp_pos: "0 < clampAuditLimit n"
  by (simp add: clampAuditLimit_def)

text \<open>One row more than the page tells whether there is a next page.\<close>

lemma page_of_rows:
  assumes "0 < lim"
  shows "(if lim < int (length (take (nat (lim + 1)) (drop start rows)))
      then (let items = take (nat lim) (take (nat (lim + 1)) (drop start rows))
            in Inr \<lparr>pgItems = items, pgNext = aeID (last items)\<rparr>)
      else Inr \<lparr>pgItems = take (nat (lim + 1)) (drop start rows), pgNext = []\<rparr>) =
    (if length rows \<le> start then Inr \<lparr>pgItems = [], pgNext = []\<rparr>
     else (let hasMore = start + nat lim < length rows; items = take (nat lim) (drop start rows)
           in Inr \<lparr>pgItems = items, pgNext = (if hasMore then aeID (last items) else [])\<rparr>))"
proof (cases "start + nat lim < length rows")
  case True
  have "take (nat lim) (take (nat (lim + 1)) (drop start rows)) = take (nat lim) (drop start rows)"
    by (simp add: min_def)
  moreover have "lim < int (length (take (nat (lim + 1)) (drop start rows)))"
    using True assms by auto
  ultimately show ?thesis using True by (simp add: Let_def)
next
  case False
  then have all: "take (nat (lim + 1)) (drop start rows) = drop start rows"
    "take (nat lim) (drop start rows) = drop start rows" by auto
  have "\<not> lim < int (length (drop start rows))" using False assms by auto
  with False show ?thesis unfolding all by (simp add: Let_def)
qed

lemma audit_rows_from:
  assumes db: "pg_inv db" and coll: "pgCollate C = id"
    and start: "(if a = [] then Some 0
      else map_option Suc (index_of (\<lambda>e. aeID e = a) (sort_key newest_key (pt_audits db)))) = Some start"
  shows "audit_rows C lim a db = take (nat (lim + 1)) (drop start (sort_key newest_key (pt_audits db)))"
proof (cases "a = []")
  case True
  with start show ?thesis
    by (simp add: audit_rows_def audit_key_id [OF coll] sort_select [OF pg_invD(10) [OF db]] Let_def)
next
  case False
  let ?S = "sort_key newest_key (pt_audits db)"
  have ids: "distinct (map aeID (pt_audits db))" by (rule pg_invD(10) [OF db])
  obtain i where i: "index_of (\<lambda>e. aeID e = a) ?S = Some i" "start = Suc i"
    using start False by auto
  then have row: "i < length ?S" "aeID (?S ! i) = a" using index_of_Some [OF i(1)] by auto
  then have "?S ! i \<in> set (pt_audits db)" by (metis nth_mem set_sort)
  with row(2) have "tmap aeID (pt_audits db) a = Some (?S ! i)" by (simp add: tmap_iff [OF ids])
  then have cur: "sql_select C (\<lambda>e. aeID e = a) (pt_audits db) = [?S ! i]"
    by (simp add: select_key [OF ids])
  have dist: "distinct (map newest_key ?S)"
    using ids by (simp add: distinct_map inj_newest)
  have "filter (\<lambda>e. newest_key (?S ! i) < newest_key e) ?S = drop (Suc i) ?S"
    by (rule filter_after [OF _ dist row(1)]) simp
  with False i(2) cur show ?thesis
    by (simp add: audit_rows_def audit_key_id [OF coll] sort_select [OF ids] Let_def)
qed

lemma pg_list_audits:
  assumes db: "pg_inv db" and coll: "pgCollate C = id" and ok: "pgText C a"
  shows "pg_ListAudits C n a db = audit_window n a (pt_audits db)"
proof -
  let ?S = "sort_key newest_key (pt_audits db)"
  let ?lim = "clampAuditLimit n"
  have ids: "distinct (map aeID (pt_audits db))" by (rule pg_invD(10) [OF db])
  have known: "query_row (Inr (map aeID (sql_select C (\<lambda>e. aeID e = a) (pt_audits db)))) =
      (if a \<in> aeID ` set (pt_audits db) then Inr a else Inl NoRows)"
    using select_key [OF ids, of C a] tmap_None [of aeID "pt_audits db" a]
    by (cases "tmap aeID (pt_audits db) a") (auto simp: query_row_def dest: tmap_SomeD)
  show ?thesis
  proof (cases "if a = [] then Some 0 else map_option Suc (index_of (\<lambda>e. aeID e = a) ?S)")
    case None
    then have a: "a \<noteq> []" "index_of (\<lambda>e. aeID e = a) ?S = None" by (auto split: if_splits)
    then have no: "\<forall>e \<in> set (pt_audits db). aeID e \<noteq> a" by (simp add: index_of_None)
    then have "sql_select C (\<lambda>e. aeID e = a) (pt_audits db) = []"
      by (auto simp: sql_select_def filter_empty_conv)
    then have "audit_rows C ?lim a db = []"
      using a(1) by (simp add: audit_rows_def sql_select_def Let_def)
    moreover have "a \<notin> aeID ` set (pt_audits db)" using no by auto
    ultimately have "pg_ListAudits C n a db = Inl ErrNotFound"
      using a(1) ok known by (simp add: pg_ListAudits_def Let_def)
    moreover have "audit_window n a (pt_audits db) = Inl ErrNotFound"
      using a by (simp add: audit_window_def Let_def)
    ultimately show ?thesis by simp
  next
    case (Some start)
    let ?R = "take (nat (?lim + 1)) (drop start ?S)"
    have rows: "audit_rows C ?lim a db = ?R"
      by (rule audit_rows_from [OF db coll Some])
    have "a \<in> aeID ` set (pt_audits db)" if a: "a \<noteq> []"
    proof -
      obtain i where "index_of (\<lambda>e. aeID e = a) ?S = Some i" using Some a by auto
      from index_of_Some [OF this] have i: "i < length ?S" "aeID (?S ! i) = a" by simp_all
      then have "?S ! i \<in> set (pt_audits db)" by (metis nth_mem set_sort)
      with i(2) show ?thesis by (metis image_eqI)
    qed
    then have "\<exists>b. (if a \<noteq> [] \<and> ?R = []
        then query_row (Inr (map aeID (sql_select C (\<lambda>e. aeID e = a) (pt_audits db)))) else Inr []) = Inr b"
      by (simp add: known)
    then obtain b where b: "(if a \<noteq> [] \<and> ?R = []
        then query_row (Inr (map aeID (sql_select C (\<lambda>e. aeID e = a) (pt_audits db)))) else Inr []) = Inr b" ..
    have texts: "with_text C (if a = [] then [] else [a]) r = r" "with_text C [a] q = q"
      for r :: "audit_event list sql" and q :: "string list sql"
      using ok by simp_all
    have "pg_ListAudits C n a db =
        (if ?lim < int (length ?R)
         then (let items = take (nat ?lim) ?R in Inr \<lparr>pgItems = items, pgNext = aeID (last items)\<rparr>)
         else Inr \<lparr>pgItems = ?R, pgNext = []\<rparr>)"
      unfolding pg_ListAudits_def Let_def texts rows sum.case b by (rule refl)
    also have "\<dots> = audit_window n a (pt_audits db)"
      by (subst page_of_rows [OF clamp_pos], subst audit_window_def)
        (simp only: Let_def Some option.case)
    finally show ?thesis .
  qed
qed

lemma pg_list_audits_meets:
  assumes "pg_inv db" and "pgCollate C = id" and "pg_stores C (ListAudits_op n a)"
  shows "pg_meets C (ListAudits_op n a) db"
proof -
  have "pgText C a" using assms(3) by simp
  with assms(1,2) show ?thesis by (simp add: meets_def pg_list_audits) (simp add: pg_abs_def)
qed

theorem pg_meets_spec:
  "pg_inv db \<Longrightarrow> pgCollate C = id \<Longrightarrow> pg_stores C op \<Longrightarrow> adm op (pg_abs db) \<Longrightarrow> pg_meets C op db"
  by (cases op; hypsubst;
    (rule pg_lookups_meet pg_inserts_meet pg_upserts_meet pg_tagged_meet pg_role_meets pg_remove_meets
      pg_revoke_meets pg_by_sid_meets pg_create_meets pg_by_email_meets pg_disable_meets
      pg_lists_meet pg_members_meet pg_for_user_meets pg_add_member_meets pg_add_client_meets
      pg_by_sid_get_meets pg_delete_meets pg_take_code_meets pg_take_refresh_meets
      pg_list_audits_meets; assumption))

end
