(* ===== verification/PgProps.thy ===== *)
theory PgProps
  imports PgRepos
begin

section \<open>Two stores, one behaviour\<close>

text \<open>
  The Postgres store answers a run of calls as the memory store answers the same run with its
  times in microseconds; and single use of authorization codes holds for concurrent requests,
  whose statements interleave.
\<close>

subsection \<open>Equal answers\<close>

lemma mem_emails_unique: "mem_inv st \<Longrightarrow> emails_unique (mem_abs st)"
  unfolding emails_unique_def using mem_users.email_unique [of st] by (metis option.inject)

lemma empty_stores: "pg_abs empty_db = mem_abs NewStore"
  by (simp add: pg_abs_def mem_abs_def empty_db_def NewStore_def sidRP_view_def consents_view_def
      members_view_def fun_eq_iff)

lemma agree_from:
  assumes "pgCollate C = id"
  shows "list_all (pg_stores C) ops \<Longrightarrow> adm_run (map cut ops) (pg_abs db) \<Longrightarrow>
    pg_inv db \<Longrightarrow> mem_inv st \<Longrightarrow> pg_abs db = mem_abs st \<Longrightarrow>
    list_all2 same_answer (answers (pg_repos C) ops db) (answers (mem_repos it) (map cut ops) st)"
proof (induction ops arbitrary: db st)
  case Nil
  then show ?case by simp
next
  case (Cons op ops)
  let ?p = "exec (pg_repos C) op db" and ?m = "exec (mem_repos it) (cut op) st"
  have adm: "adm (cut op) (pg_abs db)" using Cons.prems(2) by simp
  have pg: "meets pg_abs pg_inv (cut op) db ?p"
    using pg_meets_spec [OF Cons.prems(3) assms] Cons.prems(1) adm by simp
  have mem: "meets mem_abs mem_inv (cut op) st ?m"
    by (rule mem.meets_spec [OF Cons.prems(4)]) (use adm Cons.prems(5) in simp)
  have "same_answer (fst ?p) (fst ?m)"
    by (rule spec_out_same [OF mem_emails_unique [OF Cons.prems(4)], of "cut op"])
      (use pg mem adm Cons.prems(5) in \<open>simp_all add: meets_def\<close>)
  moreover have "list_all2 same_answer (answers (pg_repos C) ops (snd ?p))
      (answers (mem_repos it) (map cut ops) (snd ?m))"
    by (rule Cons.IH) (use pg mem Cons.prems in \<open>simp_all add: meets_def\<close>)
  ultimately show ?case by simp
qed

text \<open>
  The collation of the database only decides the order of the lists that are sorted by a text column,
  and the pages of the audit trail: everything else is as under the collation by bytes.
\<close>

definition by_bytes :: "pgconf \<Rightarrow> pgconf" where
  "by_bytes C = C\<lparr>pgCollate := id\<rparr>"

lemma by_bytes_conf [simp]:
  "pgText (by_bytes C) = pgText C" "pgScan (by_bytes C) = pgScan C" "pgCollate (by_bytes C) = id"
  by (simp_all add: by_bytes_def)

lemma by_bytes_statements [simp]:
  "with_text (by_bytes C) ps r = with_text C ps r" "scan (by_bytes C) tbl = scan C tbl"
  "sql_select (by_bytes C) P tbl = sql_select C P tbl"
  by (simp_all add: with_text_def scan_def sql_select_def Let_def)

lemma by_bytes_takes [simp]:
  "take_code_update (by_bytes C) h db = take_code_update C h db" "take_code_select (by_bytes C) h db = take_code_select C h db"
  "take_refresh_update (by_bytes C) h db = take_refresh_update C h db"
  "take_refresh_select (by_bytes C) h db = take_refresh_select C h db"
  by (simp_all add: take_code_update_def take_code_select_def take_refresh_update_def take_refresh_select_def)

lemma by_bytes_taken [simp]:
  "pg_TakeCode (by_bytes C) h db = pg_TakeCode C h db" "pg_TakeRefresh (by_bytes C) h db = pg_TakeRefresh C h db"
  by (auto simp: pg_TakeCode_def pg_TakeRefresh_def split: prod.split sum.split)

fun same_content :: "answer \<Rightarrow> answer \<Rightarrow> bool" where
  "same_content (Users_ans r) (Users_ans r') = same_list (\<lambda>_. ()) r r'"
| "same_content (Clients_ans r) (Clients_ans r') = same_list (\<lambda>_. ()) r r'"
| "same_content (Strings_ans r) (Strings_ans r') = same_list (\<lambda>_. ()) r r'"
| "same_content a b = same_answer a b"

fun lists_audits :: "op \<Rightarrow> bool" where
  "lists_audits (ListAudits_op n a) = True"
| "lists_audits op = False"

lemma same_content_same: "same_answer x y \<Longrightarrow> same_content x y"
  by (cases "(x, y)" rule: same_content.cases) (auto simp: same_list_def split: sum.split)

lemma sorted_same: "same_list (\<lambda>_. ()) (Inr (sort_key f xs)) (Inr ys) \<longleftrightarrow> mset xs = mset ys"
  by (auto simp: same_list_def map_replicate_const dest: mset_eq_length)

lemma sorted_lists_any:
  assumes "same_answer (fst (exec (pg_repos (by_bytes C)) op db)) y"
    and "op \<in> {ListUsers_op, ListClients_op} \<union> range ListSessionClients_op"
  shows "same_content (fst (exec (pg_repos C) op db)) y"
  using assms
  by (cases y)
    (auto simp: pg_repos_def pg_ListUsers_def pg_ListClients_def pg_ListSessionClients_def sorted_same
      with_text_def all_rows_def same_list_def map_replicate_const split: if_splits)

lemma other_ops_any:
  assumes "\<not> lists_audits op" and "op \<notin> {ListUsers_op, ListClients_op} \<union> range ListSessionClients_op"
  shows "exec (pg_repos (by_bytes C)) op db = exec (pg_repos C) op db"
proof -
  note defs = pg_repos_def pg_Create_def pg_GetByEmail_def pg_GetByID_def pg_SetUserDisabled_def pg_PutSession_def
    pg_GetSession_def pg_GetSessionBySID_def pg_DeleteSession_def pg_AddSessionClient_def pg_CreateClient_def
    pg_GetClient_def pg_UpdateClient_def pg_SetClientSecret_def pg_PutCode_def
    pg_PutRefresh_def pg_GetRefresh_def
    pg_RevokeFamily_def pg_PutAccess_def pg_GetAccess_def pg_PutConsent_def pg_GetConsent_def pg_AppendAudit_def
    pg_CreateOrganization_def pg_GetOrganization_def pg_ListOrganizations_def pg_ListOrganizationsForUser_def
    pg_AddOrganizationMember_def pg_ListOrganizationMembers_def pg_GetOrganizationMembership_def
    pg_UpdateOrganizationMemberRole_def pg_RemoveOrganizationMember_def pg_SetSessionActiveOrg_def pg_SetSessionActiveOrgBySID_def
  show ?thesis using assms by (cases op) (simp_all add: defs)
qed

lemma sorted_lists_state:
  "op \<in> {ListUsers_op, ListClients_op} \<union> range ListSessionClients_op \<Longrightarrow> snd (exec R op s) = s"
  by auto

lemma any_collation:
  "list_all (\<lambda>op. \<not> lists_audits op) ops \<Longrightarrow> list_all2 same_answer (answers (pg_repos (by_bytes C)) ops db) ys \<Longrightarrow>
    list_all2 same_content (answers (pg_repos C) ops db) ys"
proof (induction ops arbitrary: db ys)
  case (Cons op ops)
  have "snd (exec (pg_repos (by_bytes C)) op db) = snd (exec (pg_repos C) op db)"
    using Cons.prems(1) other_ops_any [of op C db] sorted_lists_state [of op "pg_repos C" db]
      sorted_lists_state [of op "pg_repos (by_bytes C)" db]
    by (cases "op \<in> {ListUsers_op, ListClients_op} \<union> range ListSessionClients_op") simp_all
  moreover have "same_content (fst (exec (pg_repos C) op db)) y"
    if "same_answer (fst (exec (pg_repos (by_bytes C)) op db)) y" for y
    using Cons.prems(1) that other_ops_any [of op C db] sorted_lists_any [OF that] same_content_same
    by (cases "op \<in> {ListUsers_op, ListClients_op} \<union> range ListSessionClients_op") simp_all
  ultimately show ?case using Cons.prems Cons.IH by (auto simp: list_all2_Cons1)
qed simp

text \<open>
  C15. The two stores are interchangeable. From an empty database, any run of calls of the
  persistence interface whose texts the database can store, that inserts fresh rows and refers to rows
  that exist, gets from the Postgres store the answers that the memory store gives to the same
  calls with times cut to microseconds. In a database that collates text by bytes only rows of
  a list with equal times may change places. Under any other collation the same holds of all calls
  but \<open>ListAudits\<close>, except that the users, the clients and the clients of a session, which Postgres
  sorts by a text column, may come in another order.
\<close>

theorem stores_agree:
  assumes "list_all (\<lambda>op. list_all (pgText C) (texts op)) ops" and "adm_run (map cut ops) (pg_abs empty_db)"
  shows "(pgCollate C = id \<longrightarrow> list_all2 same_answer (answers (pg_repos C) ops empty_db)
      (answers (mem_repos it) (map cut ops) NewStore))
    \<and> (list_all (\<lambda>op. \<not> lists_audits op) ops \<longrightarrow> list_all2 same_content (answers (pg_repos C) ops empty_db)
      (answers (mem_repos it) (map cut ops) NewStore))"
proof (intro conjI impI)
  show "list_all2 same_answer (answers (pg_repos C) ops empty_db) (answers (mem_repos it) (map cut ops) NewStore)"
    if "pgCollate C = id"
    using agree_from [OF that _ assms(2) pg_inv_empty mem_inv_NewStore empty_stores] assms(1) by simp
  have "list_all2 same_answer (answers (pg_repos (by_bytes C)) ops empty_db) (answers (mem_repos it) (map cut ops) NewStore)"
    using agree_from [OF _ _ assms(2) pg_inv_empty mem_inv_NewStore empty_stores, of "by_bytes C"] assms(1) by simp
  then show "list_all2 same_content (answers (pg_repos C) ops empty_db) (answers (mem_repos it) (map cut ops) NewStore)"
    if "list_all (\<lambda>op. \<not> lists_audits op) ops" by (rule any_collation [OF that])
qed

definition sample_conf :: pgconf where
  "sample_conf = \<lparr>pgText = (\<lambda>s. CHR 0x00 \<notin> set s), pgScan = (\<lambda>n. rev [0..<n]), pgCollate = id\<rparr>"

definition sample_ops :: "op list" where
  "sample_ops =
    [Create_op (zero_user\<lparr>uID := ''u1'', uEmail := ''Ann@example.com'', uCreatedAt := 1234567\<rparr>),
     PutSession_op \<lparr>sTokenHash = ''h'', sUserID = ''u1'', sSID = ''s'', sActiveOrgID = [], sExpiresAt = 5000001\<rparr>,
     GetSessionBySID_op ''s'',
     CreateOrganization_op \<lparr>oID = ''o1'', oName = ''Org'', oCreatedAt = 2500\<rparr>,
     AddOrganizationMember_op \<lparr>mOrgID = ''o1'', mUserID = ''u1'', mRole = OrgRoleOwner, mJoinedAt = 2600\<rparr>,
     ListOrganizationsForUser_op ''u1'',
     SetSessionActiveOrgBySID_op ''s'' ''o1'',
     GetSession_op ''h'', DeleteSession_op ''h'', GetSession_op ''h'']"

lemma sample_ops_admissible: "adm_run (map cut sample_ops) (pg_abs empty_db)"
proof -
  have free: "\<not> email_taken e (pg_abs empty_db)" for e
    by (simp add: email_taken_def pg_abs_def empty_db_def)
  have "TrimSpace ''s'' \<noteq> []" by code_simp
  then show ?thesis
    by (simp add: sample_ops_def free one_sid_def has_sid_def)
      (simp add: pg_abs_def empty_db_def)
qed

theorem stores_agree_witness:
  "list_all2 same_answer (answers (pg_repos sample_conf) sample_ops empty_db)
      (answers (mem_repos id) (map cut sample_ops) NewStore)
    \<and> list_all2 same_content (answers (pg_repos (sample_conf\<lparr>pgCollate := rev\<rparr>)) sample_ops empty_db)
      (answers (mem_repos id) (map cut sample_ops) NewStore)"
proof (intro conjI)
  have coll: "pgCollate sample_conf = id" by (simp add: sample_conf_def)
  have texts: "list_all (\<lambda>op. list_all (pgText sample_conf) (texts op)) sample_ops" by code_simp
  show "list_all2 same_answer (answers (pg_repos sample_conf) sample_ops empty_db)
      (answers (mem_repos id) (map cut sample_ops) NewStore)"
    using stores_agree [OF texts sample_ops_admissible] coll by blast
  have "list_all (\<lambda>op. \<not> lists_audits op) sample_ops" by (simp add: sample_ops_def)
  then show "list_all2 same_content (answers (pg_repos (sample_conf\<lparr>pgCollate := rev\<rparr>)) sample_ops empty_db)
      (answers (mem_repos id) (map cut sample_ops) NewStore)"
    using stores_agree [of "sample_conf\<lparr>pgCollate := rev\<rparr>" sample_ops id] texts sample_ops_admissible by simp
qed

subsection \<open>Concurrent redemption of one code\<close>

text \<open>
  The requests that redeem the code \<open>h\<close>, each before its \<open>UPDATE\<close> (\<open>Ready\<close>), between its two
  statements (\<open>Missed\<close>) or back from \<open>TakeCode\<close> (\<open>Took\<close>). A step is one statement of one of them,
  a new request, or a statement of some other method: one on another table, the \<open>INSERT\<close> of
  \<open>PutCode\<close>, or the \<open>UPDATE\<close> of \<open>TakeCode\<close> for another code.
\<close>

datatype taker = Ready | Missed | Took "auth_code res"

inductive take_step :: "pgconf \<Rightarrow> string \<Rightarrow> taker list \<times> pgdb \<Rightarrow> taker list \<times> pgdb \<Rightarrow> bool"
  for C :: pgconf and h :: string
where
  update: "i < length ts \<Longrightarrow> ts ! i = Ready \<Longrightarrow> take_code_update C h db = (Inr c, db') \<Longrightarrow>
    take_step C h (ts, db) (ts[i := Took (Inr c)], db')"
| no_row: "i < length ts \<Longrightarrow> ts ! i = Ready \<Longrightarrow> take_code_update C h db = (Inl NoRows, db') \<Longrightarrow>
    take_step C h (ts, db) (ts[i := Missed], db')"
| refused: "i < length ts \<Longrightarrow> ts ! i = Ready \<Longrightarrow> take_code_update C h db = (Inl (PgError e), db') \<Longrightarrow>
    take_step C h (ts, db) (ts[i := Took (Inl (mapErr (PgError e)))], db')"
| select: "i < length ts \<Longrightarrow> ts ! i = Missed \<Longrightarrow>
    take_step C h (ts, db) (ts[i := Took (take_code_select C h db)], db)"
| arrive: "take_step C h (ts, db) (ts @ [Ready], db)"
| elsewhere: "pt_codes db' = pt_codes db \<Longrightarrow> take_step C h (ts, db) (ts, db')"
| issue: "take_step C h (ts, db) (ts, snd (pg_PutCode C c db))"
| other_take: "k \<noteq> h \<Longrightarrow> take_step C h (ts, db) (ts, snd (take_code_update C k db))"

fun won :: "taker \<Rightarrow> bool" where
  "won (Took (Inr c)) = True"
| "won _ = False"

fun returned :: "taker \<Rightarrow> bool" where
  "returned (Took r) = True"
| "returned _ = False"

definition code_rows :: "string \<Rightarrow> pgdb \<Rightarrow> auth_code list" where
  "code_rows h db = filter (\<lambda>c. acHash c = h) (pt_codes db)"

abbreviation winners :: "taker list \<Rightarrow> nat" where
  "winners ts \<equiv> length (filter won ts)"

text \<open>What each statement does to the rows of the code.\<close>

lemma rows_after_update:
  assumes "pgText C h"
  shows "code_rows h (snd (take_code_update C h db)) =
      map (\<lambda>c. if acUsed c then c else c\<lparr>acUsed := True\<rparr>) (code_rows h db)"
    and "fst (take_code_update C h db) =
      query_row (Inr (map (\<lambda>c. c\<lparr>acUsed := True\<rparr>) (filter (\<lambda>c. \<not> acUsed c) (code_rows h db))))"
proof -
  have "filter (\<lambda>c. acHash c = h) (map (\<lambda>c. if acHash c = h \<and> \<not> acUsed c then c\<lparr>acUsed := True\<rparr> else c) cs) =
      map (\<lambda>c. if acUsed c then c else c\<lparr>acUsed := True\<rparr>) (filter (\<lambda>c. acHash c = h) cs)" for cs :: "auth_code list"
    by (induction cs) auto
  then show "code_rows h (snd (take_code_update C h db)) =
      map (\<lambda>c. if acUsed c then c else c\<lparr>acUsed := True\<rparr>) (code_rows h db)"
    using assms by (simp add: take_code_update_def sql_update_def code_rows_def)
  show "fst (take_code_update C h db) =
      query_row (Inr (map (\<lambda>c. c\<lparr>acUsed := True\<rparr>) (filter (\<lambda>c. \<not> acUsed c) (code_rows h db))))"
    using assms by (simp add: take_code_update_def sql_update_def code_rows_def conj_commute)
qed

lemma rows_after_other_take:
  assumes "k \<noteq> h"
  shows "code_rows h (snd (take_code_update C k db)) = code_rows h db"
proof -
  have "filter (\<lambda>c. acHash c = h) (map (\<lambda>c. if acHash c = k \<and> \<not> acUsed c then c\<lparr>acUsed := True\<rparr> else c) cs) =
      filter (\<lambda>c. acHash c = h) cs" for cs :: "auth_code list"
    using assms by (induction cs) auto
  then show ?thesis
    unfolding take_code_update_def with_text_def sql_update_def code_rows_def by simp
qed

lemma rows_after_put:
  "code_rows h (snd (pg_PutCode C c db)) = code_rows h db \<or>
    code_rows h db = [] \<and> (\<exists>r. code_rows h (snd (pg_PutCode C c db)) = [r])"
  by (auto simp: pg_PutCode_def exec_put_def with_text_def sql_insert_def code_rows_def list_ex_iff
      filter_empty_conv split: sum.split)

lemma select_used:
  assumes "code_rows h db = [c]" and "pgText C h"
  shows "take_code_select C h db = Inl ErrUsed"
proof -
  have "mset (sql_select C (\<lambda>c. acHash c = h) (pt_codes db)) = mset (code_rows h db)"
    by (simp add: sql_select_def code_rows_def)
  then have "sql_select C (\<lambda>c. acHash c = h) (pt_codes db) = [c]" using assms(1) by simp
  then show ?thesis using assms(2) by (simp add: take_code_select_def query_row_def)
qed

lemma winners_update:
  assumes i: "i < length ts" and lost: "\<not> won (ts ! i)"
  shows "winners (ts[i := t]) = winners ts + (if won t then 1 else 0)"
proof -
  have "winners ts = winners (take i ts @ ts ! i # drop (Suc i) ts)"
    by (simp only: id_take_nth_drop [OF i, symmetric])
  then show ?thesis using lost by (simp add: upd_conv_take_nth_drop [OF i])
qed

text \<open>
  The number of winners is at most the number of used rows, of which there is at most one.
\<close>

definition take_inv :: "string \<Rightarrow> taker list \<times> pgdb \<Rightarrow> bool" where
  "take_inv h q \<longleftrightarrow> length (code_rows h (snd q)) \<le> 1 \<and>
    winners (fst q) \<le> length (filter acUsed (code_rows h (snd q)))"

lemma take_inv_step:
  assumes step: "take_step C h q q'" and ok: "pgText C h" and inv: "take_inv h q"
  shows "take_inv h q'"
  using step inv
proof (cases rule: take_step.cases)
  case (update i ts db c db')
  note rows = rows_after_update [OF ok, of db]
  have "code_rows h db \<noteq> [] \<and> \<not> acUsed (hd (code_rows h db))"
    using rows(2) update(5) inv
    by (cases "code_rows h db") (auto simp: query_row_def take_inv_def update(1) split: if_splits)
  with inv update rows(1) show ?thesis
    by (cases "code_rows h db") (auto simp: take_inv_def winners_update)
next
  case (no_row i ts db db')
  with inv rows_after_update(1) [OF ok, of db] show ?thesis
    by (cases "code_rows h db") (auto simp: take_inv_def winners_update split: if_splits)
next
  case (refused i ts db e db')
  with inv rows_after_update(1) [OF ok, of db] show ?thesis
    by (cases "code_rows h db") (auto simp: take_inv_def winners_update split: if_splits)
next
  case (select i ts db)
  have "\<not> won (Took (take_code_select C h db))"
    by (simp add: take_code_select_def split: sum.split)
  with select inv show ?thesis by (simp add: take_inv_def winners_update)
next
  case (issue ts db c)
  with inv rows_after_put [of h C c db] show ?thesis by (auto simp: take_inv_def)
qed (simp_all add: take_inv_def rows_after_other_take, simp add: code_rows_def)

text \<open>A code that was there and unused: before and after the one \<open>UPDATE\<close> that finds it.\<close>

definition outcome_of :: "auth_code \<Rightarrow> taker \<Rightarrow> bool" where
  "outcome_of c t \<longleftrightarrow>
    t = Ready \<or> t = Missed \<or> t = Took (Inr (c\<lparr>acUsed := True\<rparr>)) \<or> t = Took (Inl ErrUsed)"

definition live_inv :: "string \<Rightarrow> auth_code \<Rightarrow> taker list \<times> pgdb \<Rightarrow> bool" where
  "live_inv h c q \<longleftrightarrow>
    code_rows h (snd q) = [c] \<and> \<not> acUsed c \<and> list_all (\<lambda>t. t = Ready) (fst q) \<or>
    code_rows h (snd q) = [c\<lparr>acUsed := True\<rparr>] \<and> winners (fst q) = 1 \<and> list_all (outcome_of c) (fst q)"

lemma list_all_update: "list_all P ts \<Longrightarrow> P t \<Longrightarrow> list_all P (ts[i := t])"
  using set_update_subset_insert [of ts i t] by (auto simp: list_all_iff)

lemma ready_winners: "list_all (\<lambda>t. t = Ready) ts \<Longrightarrow> winners ts = 0"
  by (induction ts) auto

lemma ready_outcomes: "list_all (\<lambda>t. t = Ready) ts \<Longrightarrow> list_all (outcome_of c) ts"
  by (simp add: list_all_iff outcome_of_def)

lemma live_inv_step:
  assumes step: "take_step C h q q'" and ok: "pgText C h" and inv: "live_inv h c q"
  shows "live_inv h c q'"
  using step inv
proof (cases rule: take_step.cases)
  case (update i ts db d db')
  note rows = rows_after_update [OF ok, of db]
  from inv update(1) consider
      (live) "code_rows h db = [c]" "\<not> acUsed c" "list_all (\<lambda>t. t = Ready) ts"
    | (used) "code_rows h db = [c\<lparr>acUsed := True\<rparr>]"
    by (auto simp: live_inv_def)
  then show ?thesis
  proof cases
    case live
    then have d: "d = c\<lparr>acUsed := True\<rparr>" and after: "code_rows h db' = [c\<lparr>acUsed := True\<rparr>]"
      using rows update(5) by (simp_all add: query_row_def)
    have "winners (ts[i := Took (Inr d)]) = 1"
      using update(3,4) ready_winners [OF live(3)] by (simp add: winners_update)
    moreover have "list_all (outcome_of c) (ts[i := Took (Inr d)])"
      by (rule list_all_update [OF ready_outcomes [OF live(3)]]) (simp add: outcome_of_def d)
    ultimately show ?thesis using after update(2) by (simp add: live_inv_def)
  next
    case used
    with rows(2) update(5) show ?thesis by (simp add: query_row_def)
  qed
next
  case (no_row i ts db db')
  note rows = rows_after_update [OF ok, of db]
  from inv no_row(1,5) rows have "code_rows h db = [c\<lparr>acUsed := True\<rparr>]" "winners ts = 1" "list_all (outcome_of c) ts"
    by (auto simp: live_inv_def query_row_def)
  with no_row rows(1) show ?thesis
    by (auto simp: live_inv_def winners_update outcome_of_def intro!: list_all_update)
next
  case (refused i ts db e db')
  with inv rows_after_update(2) [OF ok, of db] show ?thesis
    by (auto simp: live_inv_def query_row_def)
next
  case (select i ts db)
  have "\<not> list_all (\<lambda>t. t = Ready) ts"
    using select(3,4) by (auto simp: list_all_length)
  with inv select(1) have now: "code_rows h db = [c\<lparr>acUsed := True\<rparr>]" "winners ts = 1" "list_all (outcome_of c) ts"
    by (auto simp: live_inv_def)
  with select select_used [OF now(1) ok] show ?thesis
    by (auto simp: live_inv_def winners_update outcome_of_def intro!: list_all_update)
next
  case (issue ts db d)
  with inv rows_after_put [of h C d db] show ?thesis by (auto simp: live_inv_def)
next
  case (other_take k ts db)
  with inv show ?thesis by (simp add: live_inv_def rows_after_other_take)
next
  case (elsewhere db' db ts)
  with inv show ?thesis by (simp add: live_inv_def code_rows_def)
next
  case (arrive ts db)
  with inv show ?thesis by (simp add: live_inv_def outcome_of_def)
qed

text \<open>
  C3. A code is redeemed once even under concurrent load. However the statements of any number
  of concurrent \<open>TakeCode\<close> calls for one code interleave with each other and with the statements of
  the other methods, at most one call gets the code. If the code was stored and unused when
  the calls began and all of them have returned, exactly one got it, marked used, and every
  other one reports \<open>ErrUsed\<close>.
\<close>

theorem code_taken_once_concurrently:
  assumes "(take_step C h)\<^sup>*\<^sup>* (replicate n Ready, db) (ts, db')" and "pgText C h"
    and "length (code_rows h db) \<le> 1"
  shows "winners ts \<le> 1 \<and>
    (code_rows h db = [c] \<and> \<not> acUsed c \<and> list_all returned ts \<and> ts \<noteq> [] \<longrightarrow>
      winners ts = 1 \<and>
      list_all (\<lambda>t. t = Took (Inr (c\<lparr>acUsed := True\<rparr>)) \<or> t = Took (Inl ErrUsed)) ts)"
proof -
  have none: "list_all (\<lambda>t. t = Ready) (replicate n Ready)" by (simp add: list_all_iff)
  have "take_inv h (ts, db')"
    using assms(1)
  proof (induction rule: rtranclp_induct)
    case base
    show ?case using assms(3) ready_winners [OF none] by (simp add: take_inv_def)
  next
    case (step q q')
    then show ?case using take_inv_step assms(2) by blast
  qed
  then have once: "winners ts \<le> 1"
    unfolding take_inv_def by (auto intro: order_trans [OF _ order_trans [OF length_filter_le]])
  have "winners ts = 1 \<and> list_all (\<lambda>t. t = Took (Inr (c\<lparr>acUsed := True\<rparr>)) \<or> t = Took (Inl ErrUsed)) ts"
    if live: "code_rows h db = [c]" "\<not> acUsed c" and ret: "list_all returned ts" "ts \<noteq> []"
  proof -
    have "live_inv h c (ts, db')"
      using assms(1)
    proof (induction rule: rtranclp_induct)
      case base
      show ?case using live none by (simp add: live_inv_def)
    next
      case (step q q')
      then show ?case using live_inv_step assms(2) by blast
    qed
    moreover have "\<not> list_all (\<lambda>t. t = Ready) ts"
      using ret by (cases ts) auto
    ultimately have "winners ts = 1" "list_all (outcome_of c) ts" by (auto simp: live_inv_def)
    then show ?thesis using ret(1) unfolding list_all_iff outcome_of_def by (metis returned.simps(2,3))
  qed
  with once show ?thesis by blast
qed

definition sample_code :: auth_code where
  "sample_code = \<lparr>acHash = ''h'', acClientID = ''rp'', acUserID = ''u1'', acRedirectURI = ''https://rp/cb'',
     acScopes = [''openid''], acNonce = [], acCodeChallenge = ''ch'', acSessionSID = ''s'',
     acExpiresAt = 60000, acUsed = False\<rparr>"

definition code_db :: "auth_code \<Rightarrow> pgdb" where
  "code_db c = empty_db\<lparr>pt_codes := [c]\<rparr>"

text \<open>Two requests race: the first \<open>UPDATE\<close> wins, the second call finds the code used.\<close>

lemma sample_race:
  "(take_step sample_conf ''h'')\<^sup>*\<^sup>* (replicate 2 Ready, code_db sample_code)
    ([Took (Inr (sample_code\<lparr>acUsed := True\<rparr>)), Took (Inl ErrUsed)], code_db (sample_code\<lparr>acUsed := True\<rparr>))"
proof -
  let ?used = "sample_code\<lparr>acUsed := True\<rparr>" and ?S = "take_step sample_conf ''h''"
  note defs = take_code_update_def take_code_select_def sql_update_def sql_select_def scan_def query_row_def
    code_db_def sample_code_def sample_conf_def with_text_def
  have "?S ([Ready, Ready], code_db sample_code) ([Took (Inr ?used), Ready], code_db ?used)"
    using take_step.update [of 0 "[Ready, Ready]" sample_conf "''h''" "code_db sample_code" ?used "code_db ?used"]
    by (simp add: defs)
  moreover have "?S ([Took (Inr ?used), Ready], code_db ?used) ([Took (Inr ?used), Missed], code_db ?used)"
    using take_step.no_row [of 1 "[Took (Inr ?used), Ready]" sample_conf "''h''" "code_db ?used" "code_db ?used"]
    by (simp add: defs)
  moreover have "?S ([Took (Inr ?used), Missed], code_db ?used) ([Took (Inr ?used), Took (Inl ErrUsed)], code_db ?used)"
    using take_step.select [of 1 "[Took (Inr ?used), Missed]" sample_conf "''h''" "code_db ?used"]
    by (simp add: defs)
  ultimately have "?S\<^sup>*\<^sup>* ([Ready, Ready], code_db sample_code)
      ([Took (Inr ?used), Took (Inl ErrUsed)], code_db ?used)"
    by (metis (no_types, lifting) converse_rtranclp_into_rtranclp rtranclp.rtrancl_refl)
  then show ?thesis by (simp add: numeral_2_eq_2)
qed

theorem code_taken_once_concurrently_witness:
  "winners [Took (Inr (sample_code\<lparr>acUsed := True\<rparr>)), Took (Inl ErrUsed)] = 1 \<and>
    code_rows ''h'' (code_db sample_code) = [sample_code]"
proof -
  have row: "code_rows ''h'' (code_db sample_code) = [sample_code]"
    by (simp add: code_rows_def code_db_def sample_code_def)
  have ok: "pgText sample_conf ''h''" by code_simp
  show ?thesis
    using code_taken_once_concurrently [OF sample_race ok, of sample_code] row
    by (simp add: sample_code_def)
qed

end
