(* ===== verification/Conformance.thy ===== *)
theory Conformance
  imports PgProps
begin

section \<open>The conformance tests of a store\<close>

text \<open>
  \<open>store/storetest\<close>: the test suite that both stores must pass, as a script of calls and checks.
  A \<open>t.Fatal\<close> is a failed check; the script goes on only after a check that holds, and a suite
  passes when every check does. \<open>new k\<close> is the \<open>k\<close>-th identifier that the suite draws. The locale
  \<open>spec_store\<close> is what the specification of \<open>StoreOps\<close> promises to a client, whichever
  store is behind it; the suite is run once inside it.
\<close>

subsection \<open>Scripts\<close>

datatype script = Pass | Call op "answer \<Rightarrow> bool" "answer \<Rightarrow> script"

primrec passes :: "'s repos \<Rightarrow> script \<Rightarrow> 's \<Rightarrow> bool" where
  "passes R Pass s = True"
| "passes R (Call op check next) s =
    (check (fst (exec R op s)) \<and> passes R (next (fst (exec R op s))) (snd (exec R op s)))"

abbreviation calls :: "op \<Rightarrow> (answer \<Rightarrow> bool) \<Rightarrow> script \<Rightarrow> script" where
  "calls op check rest \<equiv> Call op check (\<lambda>_. rest)"

definition ok_ans :: "answer \<Rightarrow> bool" where
  "ok_ans x \<longleftrightarrow> x = Done_ans (Inr ())"

subsection \<open>The suite\<close>

definition suite_now :: int where
  "suite_now = 1786946400 * second"

definition user_script :: "(nat \<Rightarrow> string) \<Rightarrow> script \<Rightarrow> script" where
  "user_script new rest =
    (let u = zero_user\<lparr>uID := new 0, uEmail := ''A@Example.COM'', uName := ''A'', uPasswordHash := ''x'',
           uCreatedAt := suite_now\<rparr>;
         dup = u\<lparr>uID := new 1\<rparr>
     in calls (Create_op u) ok_ans (
        calls (GetByEmail_op ''a@example.com'')
          (\<lambda>x. case x of User_ans (Inr got) \<Rightarrow> uEmail got = ''a@example.com'' | _ \<Rightarrow> False) (
        calls (GetByID_op (uID u)) (\<lambda>x. case x of User_ans (Inr _) \<Rightarrow> True | _ \<Rightarrow> False) (
        calls (Create_op dup) (\<lambda>x. x = Done_ans (Inl ErrConflict)) rest))))"

definition code_script :: "(nat \<Rightarrow> string) \<Rightarrow> script \<Rightarrow> script" where
  "code_script new rest =
    (let c = \<lparr>acHash = new 2, acClientID = ''c'', acUserID = ''u'', acRedirectURI = ''http://127.0.0.1/cb'',
           acScopes = [''openid'', ''email''], acNonce = ''n'', acCodeChallenge = ''ch'', acSessionSID = [],
           acExpiresAt = suite_now + 60 * second, acUsed = False\<rparr>
     in calls (PutCode_op c) ok_ans (
        calls (TakeCode_op (acHash c))
          (\<lambda>x. case x of Code_ans (Inr got) \<Rightarrow> acNonce got = ''n'' \<and> length (acScopes got) = 2 | _ \<Rightarrow> False) (
        calls (TakeCode_op (acHash c)) (\<lambda>x. x = Code_ans (Inl ErrUsed)) (
        calls (TakeCode_op (''missing-'' @ new 3)) (\<lambda>x. x = Code_ans (Inl ErrNotFound)) rest))))"

definition suite_refresh :: "string \<Rightarrow> string \<Rightarrow> refresh_token" where
  "suite_refresh hash fam = \<lparr>rtHash = hash, rtFamilyID = fam, rtClientID = ''c'', rtUserID = ''u'',
     rtScopes = [''openid''], rtSessionSID = [], rtExpiresAt = suite_now + 3600 * second, rtRevoked = False\<rparr>"

text \<open>The test drops the error of this lookup; its zero token is not revoked.\<close>

definition revoked_ans :: "answer \<Rightarrow> bool" where
  "revoked_ans x = (case x of Refresh_ans (Inr t) \<Rightarrow> rtRevoked t | _ \<Rightarrow> False)"

definition family_script :: "(nat \<Rightarrow> string) \<Rightarrow> script \<Rightarrow> script" where
  "family_script new rest =
    (let fam = new 4;
         a = suite_refresh (new 5) fam;
         b = suite_refresh (new 6) fam;
         other = suite_refresh (new 7) (new 8);
         live = suite_refresh (new 9) fam
     in calls (PutRefresh_op a) ok_ans (
        calls (PutRefresh_op b) ok_ans (
        calls (PutRefresh_op other) ok_ans (
        calls (PutRefresh_op live) ok_ans (
        calls (TakeRefresh_op (rtHash live))
          (\<lambda>x. case x of Refresh_ans (Inr taken) \<Rightarrow> rtFamilyID taken = fam | _ \<Rightarrow> False) (
        calls (TakeRefresh_op (rtHash live)) (\<lambda>x. x = Refresh_ans (Inl ErrUsed)) (
        calls (RevokeFamily_op fam) ok_ans (
        calls (GetRefresh_op (rtHash a)) revoked_ans (
        calls (GetRefresh_op (rtHash b)) revoked_ans (
        calls (GetRefresh_op (rtHash other)) (\<lambda>x. \<not> revoked_ans x) rest))))))))))"

definition session_script :: "(nat \<Rightarrow> string) \<Rightarrow> script \<Rightarrow> script" where
  "session_script new rest =
    (let u = zero_user\<lparr>uID := new 10, uEmail := new 11 @ ''@example.com'', uName := ''B'',
           uPasswordHash := ''x'', uCreatedAt := suite_now\<rparr>;
         sess = \<lparr>sTokenHash = new 12, sUserID = uID u, sSID = ''sid-'' @ new 13, sActiveOrgID = [],
           sExpiresAt = suite_now + 3600 * second\<rparr>;
         c = \<lparr>cID = new 14, cName = ''RP'', cType = ClientPublic, cSecretHash = [],
           cRedirectURIs = [''http://127.0.0.1/cb'', ''http://127.0.0.1/cb2''], cPostLogoutRedirectURIs = [],
           cFrontChannelLogoutURI = [], cBackChannelLogoutURI = [], cTokenEndpointAuth = []\<rparr>;
         at = \<lparr>atHash = new 15, atClientID = cID c, atUserID = uID u, atScopes = [''openid''],
           atSessionSID = [], atExpiresAt = suite_now + 3600 * second\<rparr>
     in calls (Create_op u) ok_ans (
        calls (PutSession_op sess) ok_ans (
        calls (GetSession_op (sTokenHash sess))
          (\<lambda>x. case x of Session_ans (Inr got) \<Rightarrow> sUserID got = uID u \<and> sSID got = sSID sess | _ \<Rightarrow> False) (
        calls (AddSessionClient_op (sSID sess) ''rp-a'') ok_ans (
        calls (ListSessionClients_op (sSID sess)) (\<lambda>x. x = Strings_ans (Inr [''rp-a''])) (
        calls (DeleteSession_op (sTokenHash sess)) ok_ans (
        calls (GetSession_op (sTokenHash sess)) (\<lambda>x. x = Session_ans (Inl ErrNotFound)) (
        calls (CreateClient_op c) ok_ans (
        calls (GetClient_op (cID c))
          (\<lambda>x. case x of Client_ans (Inr got) \<Rightarrow> length (cRedirectURIs got) = 2 \<and> cType got = ClientPublic
             | _ \<Rightarrow> False) (
        calls (CreateClient_op c) (\<lambda>x. x = Done_ans (Inl ErrConflict)) (
        calls (PutConsent_op \<lparr>gUserID = uID u, gClientID = cID c, gScopes = [''openid'']\<rparr>) ok_ans (
        calls (GetConsent_op (uID u) (cID c))
          (\<lambda>x. case x of Consent_ans (Inr got) \<Rightarrow> ''openid'' \<in> set (gScopes got) | _ \<Rightarrow> False) (
        calls (PutAccess_op at) ok_ans (
        calls (GetAccess_op (atHash at))
          (\<lambda>x. case x of Access_ans (Inr got) \<Rightarrow> atUserID got = uID u | _ \<Rightarrow> False) rest))))))))))))))"

definition suite_audit :: "string \<Rightarrow> audit_type \<Rightarrow> int \<Rightarrow> string \<Rightarrow> audit_event" where
  "suite_audit i typ at note = \<lparr>aeID = i, aeType = typ, aeAt = at, aeSubject = [], aeClientID = [],
     aeIP = [], aeNote = note\<rparr>"

definition audit_script :: "(nat \<Rightarrow> string) \<Rightarrow> script \<Rightarrow> script" where
  "audit_script new rest =
    (calls (AppendAudit_op (suite_audit (new 19) AuditLoginFail suite_now ''a'')) ok_ans (
     calls (AppendAudit_op (suite_audit (new 20) AuditConsent (suite_now + second) ''b'')) ok_ans (
     calls (AppendAudit_op (suite_audit (new 21) AuditTokenIssue (suite_now + 2 * second) ''c'')) ok_ans (
     Call (ListAudits_op 2 [])
       (\<lambda>x. case x of Page_ans (Inr page1) \<Rightarrow>
            length (pgItems page1) = 2 \<and> aeNote (hd (pgItems page1)) = ''c'' \<and> pgNext page1 \<noteq> []
          | _ \<Rightarrow> False)
       (\<lambda>x. case x of Page_ans (Inr page1) \<Rightarrow>
            calls (ListAudits_op 2 (pgNext page1))
              (\<lambda>y. case y of Page_ans (Inr page2) \<Rightarrow>
                   length (pgItems page2) = 1 \<and> aeNote (hd (pgItems page2)) = ''a'' \<and> pgNext page2 = []
                 | _ \<Rightarrow> False) (
            calls (ListAudits_op 2 ''missing'') (\<lambda>y. y = Page_ans (Inl ErrNotFound)) (
            calls (SetUserDisabled_op ''missing'' True) (\<lambda>y. y = Done_ans (Inl ErrNotFound)) rest))
          | _ \<Rightarrow> Pass)))))"

definition admin_script :: "(nat \<Rightarrow> string) \<Rightarrow> script" where
  "admin_script new =
    (let u = zero_user\<lparr>uID := new 16, uEmail := new 17 @ ''@example.com'', uName := ''C'',
           uPasswordHash := ''x'', uCreatedAt := suite_now\<rparr>;
         c = \<lparr>cID = new 18, cName = ''old'', cType = ClientPublic, cSecretHash = [],
           cRedirectURIs = [''http://127.0.0.1/a''], cPostLogoutRedirectURIs = [],
           cFrontChannelLogoutURI = [], cBackChannelLogoutURI = [], cTokenEndpointAuth = []\<rparr>;
         p = \<lparr>pName = ''new'', pRedirectURIs = [''http://127.0.0.1/b''],
           pPostLogoutRedirectURIs = [''http://127.0.0.1/out''],
           pFrontChannelLogoutURI = ''http://127.0.0.1/fc'', pBackChannelLogoutURI = ''http://127.0.0.1/bc''\<rparr>
     in calls (Create_op u) ok_ans (
        calls (SetUserDisabled_op (uID u) True) ok_ans (
        calls (GetByID_op (uID u))
          (\<lambda>x. case x of User_ans (Inr got) \<Rightarrow> uDisabled got | _ \<Rightarrow> False) (
        calls ListUsers_op (\<lambda>x. case x of Users_ans (Inr users) \<Rightarrow> users \<noteq> [] | _ \<Rightarrow> False) (
        calls (CreateClient_op c) ok_ans (
        calls (UpdateClient_op (cID c) p) ok_ans (
        calls (GetClient_op (cID c))
          (\<lambda>x. case x of Client_ans (Inr got) \<Rightarrow> cName got = ''new'' \<and>
                take 1 (cRedirectURIs got) = [''http://127.0.0.1/b''] \<and>
                take 1 (cPostLogoutRedirectURIs got) = [''http://127.0.0.1/out''] \<and>
                cFrontChannelLogoutURI got = ''http://127.0.0.1/fc'' \<and>
                cBackChannelLogoutURI got = ''http://127.0.0.1/bc''
             | _ \<Rightarrow> False) (
        calls (SetClientSecret_op (cID c) ''hash'') ok_ans (
        calls ListClients_op (\<lambda>x. case x of Clients_ans (Inr clients) \<Rightarrow> clients \<noteq> [] | _ \<Rightarrow> False) (
        audit_script new Pass))))))))))"

definition Repos_suite :: "(nat \<Rightarrow> string) \<Rightarrow> script" where
  "Repos_suite new =
    user_script new (code_script new (family_script new (session_script new (admin_script new))))"

subsection \<open>Running a script against the specification\<close>

text \<open>
  \<open>holds seen ok scr a\<close>: from the meaning \<open>a\<close>, every call of the script is admissible and
  accepted, and every answer that the specification allows passes its check. \<open>seen op\<close> is the
  call as the store sees it.
\<close>

primrec holds :: "(op \<Rightarrow> op) \<Rightarrow> (op \<Rightarrow> bool) \<Rightarrow> script \<Rightarrow> astore \<Rightarrow> bool" where
  "holds seen ok Pass a = True"
| "holds seen ok (Call op check next) a =
    (ok op \<and> adm op a \<and>
     (\<forall>x. spec_out (seen op) a x \<longrightarrow> check x \<and> holds seen ok (next x) (spec_post (seen op) a)))"

lemma holds_weaken:
  assumes "\<And>op. ok op \<Longrightarrow> seen op = op \<and> ok' op"
  shows "holds id ok scr a \<Longrightarrow> holds seen ok' scr a"
  using assms by (induction scr arbitrary: a) auto

locale spec_store =
  fixes R :: "'s repos" and mean :: "'s \<Rightarrow> astore" and good :: "'s \<Rightarrow> bool"
    and seen :: "op \<Rightarrow> op" and ok :: "op \<Rightarrow> bool"
  assumes keeps_spec: "good s \<Longrightarrow> ok op \<Longrightarrow> adm op (mean s) \<Longrightarrow>
    meets mean good (seen op) s (exec R op s)"
begin

lemma holds_passes: "good s \<Longrightarrow> holds seen ok scr (mean s) \<Longrightarrow> passes R scr s"
proof (induction scr arbitrary: s)
  case Pass
  then show ?case by simp
next
  case (Call op check nxt)
  let ?p = "exec R op s"
  have m: "meets mean good (seen op) s ?p" using keeps_spec Call.prems by simp
  then have c: "check (fst ?p)" "holds seen ok (nxt (fst ?p)) (mean (snd ?p))"
    using Call.prems(2) by (simp_all add: meets_def)
  have "passes R (nxt (fst ?p)) (snd ?p)"
    by (rule Call.IH [OF _ _ c(2)]) (use m in \<open>simp_all add: meets_def\<close>)
  with c(1) show ?case by simp
qed

end

interpretation mem_spec: spec_store "mem_repos it" mem_abs mem_inv id "\<lambda>_. True" for it
  by unfold_locales (simp add: mem.meets_spec)

text \<open>The Postgres store, when names are collated by bytes and the server stores the parameters.\<close>

interpretation pg_spec: spec_store "pg_repos C" pg_abs pg_inv cut "\<lambda>op. pgCollate C = id \<and> pg_stores C op" for C
  by unfold_locales (use pg_meets_spec in blast)

subsection \<open>The suite passes\<close>

text \<open>
  What the suite relies on of \<open>ulid.Make\<close>: its 22 identifiers have 26 ASCII characters, none of them a bar,
  and differ even when letter case is ignored.
\<close>

definition plain_text :: "string \<Rightarrow> bool" where
  "plain_text s \<longleftrightarrow> list_all (\<lambda>c. 0 < (of_char c :: nat) \<and> (of_char c :: nat) < 128) s"

definition ulids :: "(nat \<Rightarrow> string) \<Rightarrow> bool" where
  "ulids new \<longleftrightarrow>
    distinct (map (\<lambda>n. ToLower (new n)) [0..<22]) \<and>
    list_all (\<lambda>n. length (new n) = 26 \<and> plain_text (new n) \<and> CHR ''|'' \<notin> set (new n)) [0..<22]"

definition suite_op :: "op \<Rightarrow> bool" where
  "suite_op op \<longleftrightarrow> cut op = op \<and> list_all plain_text (texts op)"

lemma ulidsD:
  assumes "ulids new"
  shows "m < 22 \<Longrightarrow> n < 22 \<Longrightarrow> ToLower (new m) = ToLower (new n) \<longleftrightarrow> m = n"
    and "m < 22 \<Longrightarrow> n < 22 \<Longrightarrow> new m = new n \<longleftrightarrow> m = n"
    and "n < 22 \<Longrightarrow> length (new n) = 26" and "n < 22 \<Longrightarrow> plain_text (new n)"
    and "n < 22 \<Longrightarrow> CHR ''|'' \<notin> set (new n)" and "n < 22 \<Longrightarrow> new n \<noteq> []"
proof -
  show low: "ToLower (new m) = ToLower (new n) \<longleftrightarrow> m = n" if "m < 22" "n < 22" for m n
    using assms that by (auto simp: ulids_def distinct_map inj_on_def)
  show "new m = new n \<longleftrightarrow> m = n" if "m < 22" "n < 22" for m n
    using low [OF that] by metis
  have all: "length (new n) = 26 \<and> plain_text (new n) \<and> CHR ''|'' \<notin> set (new n)" if "n < 22" for n
    using assms that by (simp add: ulids_def list_all_iff)
  then show "n < 22 \<Longrightarrow> length (new n) = 26" and "n < 22 \<Longrightarrow> plain_text (new n)"
    and "n < 22 \<Longrightarrow> CHR ''|'' \<notin> set (new n)" by simp_all
  show "new n \<noteq> []" if "n < 22" using all [OF that] by auto
qed

lemma missing_fresh:
  assumes "ulids new" and "n < 22"
  shows "''missing'' \<noteq> new n"
proof -
  have "length ''missing'' \<noteq> length (new n)" using ulidsD(3) [OF assms] by simp
  then show ?thesis by metis
qed

lemma plain_simps [simp]:
  "plain_text []" "plain_text (c # s) \<longleftrightarrow> 0 < (of_char c :: nat) \<and> (of_char c :: nat) < 128 \<and> plain_text s"
  "plain_text (s @ t) \<longleftrightarrow> plain_text s \<and> plain_text t"
  by (simp_all add: plain_text_def)

lemma plain_lower [simp]: "plain_text (ToLower s) \<longleftrightarrow> plain_text s"
  by (induction s) (auto simp: ToLower_def plain_text_def lower_char_def Let_def)

lemma ToLower_append [simp]: "ToLower (s @ t) = ToLower s @ ToLower t"
  by (simp add: ToLower_def)

lemma found_User:
  "(\<forall>x. (\<exists>r. x = f r \<and> P r) \<longrightarrow> Q x) \<longleftrightarrow> (\<forall>r. P r \<longrightarrow> Q (f r))"
  by auto

lemma code_script_holds:
  assumes new: "ulids new" and codes: "av_codes a = Map.empty"
    and rest: "\<And>m. holds id suite_op rest (a\<lparr>av_codes := m\<rparr>)"
  shows "holds id suite_op (code_script new rest) a"
proof -
  have "length (''missing-'' @ new 3) \<noteq> length (new 2)" using ulidsD(3) [OF new] by simp
  then have "''missing-'' @ new 3 \<noteq> new 2" by metis
  then show ?thesis
    using ulidsD [OF new] codes rest
    by (simp add: code_script_def suite_op_def ok_ans_def suite_now_def usec_def Let_def)
qed

lemma family_script_holds:
  assumes new: "ulids new" and refresh: "av_refresh a = Map.empty"
    and rest: "\<And>m. holds id suite_op rest (a\<lparr>av_refresh := m\<rparr>)"
  shows "holds id suite_op (family_script new rest) a"
  using ulidsD [OF new] refresh rest
  by (simp add: family_script_def suite_op_def ok_ans_def suite_now_def usec_def Let_def
      suite_refresh_def revoked_ans_def)

lemma user_script_holds:
  assumes new: "ulids new" and users: "av_users a = Map.empty"
    and rest: "\<And>u. uEmail u = ''a@example.com'' \<Longrightarrow> holds id suite_op rest (a\<lparr>av_users := [new 0 \<mapsto> u]\<rparr>)"
  shows "holds id suite_op (user_script new rest) a"
proof -
  have low: "ToLower ''A@Example.COM'' = ''a@example.com''" "ToLower ''a@example.com'' = ''a@example.com''"
    by code_simp+
  show ?thesis
  using ulidsD [OF new] users rest
  by (simp add: user_script_def suite_op_def ok_ans_def suite_now_def usec_def Let_def zero_user_def
      email_taken_def found_User low split: sum.split)
qed

lemma lists_rows_single: "lists_rows {x} id id r \<longleftrightarrow> r = Inr [x]"
proof
  assume "lists_rows {x} id id r"
  then obtain xs where xs: "r = Inr xs" "set xs = {x}" "distinct xs" by (auto simp: lists_rows_def)
  then have "length xs = 1" using distinct_card [of xs] by simp
  with xs show "r = Inr [x]" by (cases xs) auto
qed (simp add: lists_rows_def)

lemma lists_rows_some:
  "lists_rows rows ident key r \<Longrightarrow> x \<in> rows \<Longrightarrow> \<exists>xs. r = Inr xs \<and> xs \<noteq> []"
  unfolding lists_rows_def by (metis empty_iff list.set(1))

lemma lists_rows_insert: "lists_rows (insert x X) ident key r \<Longrightarrow> \<exists>xs. r = Inr xs \<and> xs \<noteq> []"
  using lists_rows_some [of "insert x X" ident key r x] by simp

definition suite_email :: "string \<Rightarrow> string" where
  "suite_email i = ToLower i @ ''@example.com''"

lemma suite_email: "ToLower (i @ ''@example.com'') = suite_email i"
proof -
  have low: "ToLower ''@example.com'' = ''@example.com''" by code_simp
  show ?thesis unfolding suite_email_def ToLower_append low by (rule refl)
qed

lemma plain_suite_email [simp]: "plain_text (suite_email i) \<longleftrightarrow> plain_text i"
  by (simp add: suite_email_def)

lemma session_script_holds:
  assumes new: "ulids new" and users: "av_users a = [new 0 \<mapsto> u]" and u: "uEmail u = ''a@example.com''"
    and fresh: "av_sidRP a = (\<lambda>_. {})" "av_clients a = Map.empty"
    and rest: "\<And>v s y c g t. uEmail v = suite_email (new 11) \<Longrightarrow>
      holds id suite_op rest (a\<lparr>av_users := [new 0 \<mapsto> u, new 10 \<mapsto> v], av_sessions := s, av_sidRP := y,
        av_clients := [new 14 \<mapsto> c], av_consents := g, av_access := t\<rparr>)"
  shows "holds id suite_op (session_script new rest) a"
proof -
  have "length (suite_email (new 11)) \<noteq> length ''a@example.com''"
    using ulidsD(3) [OF new] by (simp add: suite_email_def)
  then have "suite_email (new 11) \<noteq> ''a@example.com''" by metis
  then have "\<not> email_taken (suite_email (new 11)) a"
    using users u by (auto simp: email_taken_def)
  then show ?thesis
    using ulidsD [OF new] users fresh rest
    by (simp add: session_script_def suite_op_def ok_ans_def suite_now_def usec_def Let_def zero_user_def
        suite_email lists_rows_single fun_upd_twist del: ToLower_append)
qed

lemma suite_page:
  assumes "distinct [i, j, k]"
  shows "audit_window 2 [] [suite_audit i AuditLoginFail suite_now ''a'',
      suite_audit j AuditConsent (suite_now + second) ''b'', suite_audit k AuditTokenIssue (suite_now + 2 * second) ''c''] =
    Inr \<lparr>pgItems = [suite_audit k AuditTokenIssue (suite_now + 2 * second) ''c'',
      suite_audit j AuditConsent (suite_now + second) ''b''], pgNext = j\<rparr>"
    and "j \<noteq> [] \<Longrightarrow> audit_window 2 j [suite_audit i AuditLoginFail suite_now ''a'',
      suite_audit j AuditConsent (suite_now + second) ''b'', suite_audit k AuditTokenIssue (suite_now + 2 * second) ''c''] =
    Inr \<lparr>pgItems = [suite_audit i AuditLoginFail suite_now ''a''], pgNext = []\<rparr>"
    and "x \<noteq> [] \<Longrightarrow> x \<notin> {i, j, k} \<Longrightarrow> audit_window 2 x [suite_audit i AuditLoginFail suite_now ''a'',
      suite_audit j AuditConsent (suite_now + second) ''b'', suite_audit k AuditTokenIssue (suite_now + 2 * second) ''c''] =
    Inl ErrNotFound"
  using assms
  by (auto simp: audit_window_def clampAuditLimit_def newest_key_def less_eq_newest_def suite_audit_def
      suite_now_def Let_def)

lemma audit_script_holds:
  assumes new: "ulids new" and audits: "av_audits a = []" and users: "av_users a ''missing'' = None"
  shows "holds id suite_op (audit_script new Pass) a"
proof -
  have ids: "distinct [new 19, new 20, new 21]" by (simp add: ulidsD(2) [OF new])
  have gone: "''missing'' \<notin> {new 19, new 20, new 21}" using missing_fresh [OF new] by simp
  note pages = suite_page(1,2) [OF ids] suite_page(3) [OF ids _ gone]
  have idsE: "aeID (suite_audit i t x n) = i" "aeNote (suite_audit i t x n) = n"
    "aeAt (suite_audit i t x n) = x" "aeSubject (suite_audit i t x n) = []"
    "aeClientID (suite_audit i t x n) = []" "aeIP (suite_audit i t x n) = []" "(suite_audit i t x n)\<lparr>aeAt := y\<rparr> = suite_audit i t y n" for i t x y n
    by (simp_all add: suite_audit_def)
  have times: "usec suite_now = suite_now" "usec (suite_now + second) = suite_now + second"
    "usec (suite_now + 2000000000) = suite_now + 2000000000"
    by (simp_all add: usec_def suite_now_def)
  show ?thesis
    using ulidsD [OF new] audits users pages
    by (simp add: audit_script_def suite_op_def ok_ans_def idsE times)
qed

lemma admin_script_holds:
  assumes new: "ulids new" and users: "av_users a = [new 0 \<mapsto> u, new 10 \<mapsto> v]"
    and mails: "uEmail u = ''a@example.com''" "uEmail v = suite_email (new 11)"
    and clients: "av_clients a = [new 14 \<mapsto> c]" and audits: "av_audits a = []"
  shows "holds id suite_op (admin_script new) a"
proof -
  have "length (suite_email (new 17)) \<noteq> length ''a@example.com''"
    using ulidsD(3) [OF new] by (simp add: suite_email_def)
  then have "suite_email (new 17) \<noteq> ''a@example.com''" by metis
  moreover have "suite_email (new 17) \<noteq> suite_email (new 11)"
    by (simp add: suite_email_def ulidsD(1) [OF new])
  ultimately have free: "\<not> email_taken (suite_email (new 17)) a"
    using users mails by (auto simp: email_taken_def)
  note gone = missing_fresh [OF new]
  have audit: "holds id suite_op (audit_script new Pass) b"
    if "av_audits b = []" "av_users b ''missing'' = None" for b
    using that by (rule audit_script_holds [OF new])
  show ?thesis
    using ulidsD [OF new] users clients audits free gone
    by (simp add: admin_script_def suite_op_def ok_ans_def suite_now_def usec_def Let_def zero_user_def
        suite_email patched_def audit del: ToLower_append)
      (force dest!: lists_rows_insert)
qed

text \<open>The whole suite, from a store without rows.\<close>

lemma suite_holds:
  assumes new: "ulids new"
  shows "holds id suite_op (Repos_suite new) (pg_abs empty_db)"
  unfolding Repos_suite_def
  by (intro user_script_holds code_script_holds family_script_holds session_script_holds
      admin_script_holds new)
    (simp_all add: pg_abs_def empty_db_def)

text \<open>
  C16. Both stores pass the conformance suite of \<open>storetest\<close>: for any 22 identifiers that
  \<open>ulid.Make\<close> may draw, every check of the suite holds on a new memory store and on an empty
  Postgres database that collates names by bytes and stores ASCII text.
\<close>

theorem stores_conform:
  assumes "ulids new" and "pgCollate C = id" and "\<And>s. plain_text s \<Longrightarrow> pgText C s"
  shows "passes (mem_repos it) (Repos_suite new) NewStore \<and> passes (pg_repos C) (Repos_suite new) empty_db"
proof
  have suite: "holds id suite_op (Repos_suite new) (pg_abs empty_db)" by (rule suite_holds [OF assms(1)])
  have "holds id (\<lambda>_. True) (Repos_suite new) (mem_abs NewStore)"
    using holds_weaken [OF _ suite, of id "\<lambda>_. True"] by (simp add: empty_stores)
  then show "passes (mem_repos it) (Repos_suite new) NewStore"
    by (rule mem_spec.holds_passes [OF mem_inv_NewStore])
  have "holds cut (\<lambda>op. pgCollate C = id \<and> pg_stores C op) (Repos_suite new) (pg_abs empty_db)"
    by (rule holds_weaken [OF _ suite]) (use assms(2,3) in \<open>auto simp: suite_op_def list_all_iff\<close>)
  then show "passes (pg_repos C) (Repos_suite new) empty_db"
    by (rule pg_spec.holds_passes [OF pg_inv_empty])
qed

definition sample_ulid :: "nat \<Rightarrow> string" where
  "sample_ulid n = char_of (n + 65) # replicate 25 (CHR ''0'')"

lemma sample_ulids: "ulids sample_ulid"
proof -
  have first: "of_char (lower_char (char_of (n + 65))) = n + 97" if "n < 22" for n :: nat
    using that by (simp add: lower_char_def)
  have "inj_on (\<lambda>n. ToLower (sample_ulid n)) {0..<22}"
  proof (rule inj_onI)
    fix m n :: nat
    assume mn: "m \<in> {0..<22}" "n \<in> {0..<22}" "ToLower (sample_ulid m) = ToLower (sample_ulid n)"
    have "hd (ToLower (sample_ulid m)) = hd (ToLower (sample_ulid n))" by (simp only: mn(3))
    then have eq: "lower_char (char_of (m + 65)) = lower_char (char_of (n + 65))"
      by (simp add: sample_ulid_def ToLower_def)
    have "m + 97 = of_char (lower_char (char_of (m + 65)))" using first [of m] mn(1) by simp
    also have "\<dots> = n + 97" unfolding eq using first [of n] mn(2) by simp
    finally show "m = n" by simp
  qed
  moreover have "CHR ''|'' \<noteq> char_of (n + 65)" if "n < 22" for n :: nat
  proof
    assume "CHR ''|'' = char_of (n + 65)"
    then have "(of_char CHR ''|'' :: nat) = of_char (char_of (n + 65) :: char)" by (rule arg_cong)
    with that show False by simp
  qed
  ultimately show ?thesis
    by (auto simp: ulids_def distinct_map list_all_iff sample_ulid_def plain_text_def)
qed

theorem stores_conform_witness:
  "passes (mem_repos id) (Repos_suite sample_ulid) NewStore \<and>
    passes (pg_repos sample_conf) (Repos_suite sample_ulid) empty_db"
proof (rule stores_conform)
  show "ulids sample_ulid" by (rule sample_ulids)
  show "pgCollate sample_conf = id" by (simp add: sample_conf_def)
  show "pgText sample_conf s" if "plain_text s" for s
    using that by (auto simp: sample_conf_def plain_text_def list_all_iff)
qed

end
