(* ===== verification/Migrate.thy ===== *)
theory Migrate
  imports Domain
begin

section \<open>Migrations\<close>

text \<open>
  \<open>store/postgres/migrate.go\<close>: the embedded scripts are applied in the order of their names, each
  recorded in the table \<open>schema_migrations\<close>. The files are the directory entries of
  \<open>migrations\<close> (name, whether a directory, content); running a script in its transaction is the
  parameter \<open>runs\<close>: the error, or the schema after it.
\<close>

record 's migrated =
  mg_table :: "string list option"
  mg_schema :: 's

type_synonym 's runs = "string \<Rightarrow> 's \<Rightarrow> string + 's"

type_synonym mig_file = "string \<times> bool \<times> string"

definition HasSuffix :: "string \<Rightarrow> string \<Rightarrow> bool" where
  "HasSuffix s t \<longleftrightarrow> length t \<le> length s \<and> drop (length s - length t) s = t"

definition migration_names :: "mig_file list \<Rightarrow> string list" where
  "migration_names files =
    sort (map fst (filter (\<lambda>(name, isDir, body). \<not> (isDir \<or> \<not> HasSuffix name ''.sql'')) files))"

text \<open>The script of a name; \<open>execScript\<close> puts it between \<open>BEGIN\<close> and \<open>COMMIT\<close>.\<close>

definition execScript :: "'s runs \<Rightarrow> string \<Rightarrow> 's migrated \<Rightarrow> string option \<times> 's migrated" where
  "execScript runs body d =
    (case runs (''BEGIN;'' @ [CHR 0x0A] @ body @ [CHR 0x0A] @ ''COMMIT;'') (mg_schema d) of
       Inl e \<Rightarrow> (Some e, d)
     | Inr s \<Rightarrow> (None, d\<lparr>mg_schema := s\<rparr>))"

definition applied :: "'s migrated \<Rightarrow> string list" where
  "applied d = (case mg_table d of None \<Rightarrow> [] | Some vs \<Rightarrow> vs)"

fun migrate_loop :: "'s runs \<Rightarrow> mig_file list \<Rightarrow> string list \<Rightarrow> 's migrated \<Rightarrow> string option \<times> 's migrated" where
  "migrate_loop runs files [] d = (None, d)"
| "migrate_loop runs files (name # names) d =
    (if name \<in> set (applied d) then migrate_loop runs files names d
     else case map_of files name of
         None \<Rightarrow> (Some ''file does not exist'', d)
       | Some (_, body) \<Rightarrow>
           (case execScript runs body d of
              (Some e, d1) \<Rightarrow> (Some (''migration '' @ name @ '': '' @ e), d1)
            | (None, d1) \<Rightarrow>
                migrate_loop runs files names (d1\<lparr>mg_table := Some (applied d1 @ [name])\<rparr>)))"

definition migrate :: "'s runs \<Rightarrow> mig_file list \<Rightarrow> 's migrated \<Rightarrow> string option \<times> 's migrated" where
  "migrate runs files d =
    migrate_loop runs files (migration_names files) (d\<lparr>mg_table := Some (applied d)\<rparr>)"

text \<open>Running scripts one after the other.\<close>

fun run_scripts :: "'s runs \<Rightarrow> mig_file list \<Rightarrow> string list \<Rightarrow> 's \<Rightarrow> string + 's" where
  "run_scripts runs files [] s = Inr s"
| "run_scripts runs files (name # names) s =
    (case map_of files name of
       None \<Rightarrow> Inl []
     | Some (_, body) \<Rightarrow>
         (case runs (''BEGIN;'' @ [CHR 0x0A] @ body @ [CHR 0x0A] @ ''COMMIT;'') s of
            Inl e \<Rightarrow> Inl e
          | Inr s' \<Rightarrow> run_scripts runs files names s'))"

lemma applied_simps [simp]:
  "applied (d\<lparr>mg_table := Some vs\<rparr>) = vs" "applied (d\<lparr>mg_schema := s\<rparr>) = applied d"
  by (simp_all add: applied_def)

lemma migrate_loop_done:
  "set names \<subseteq> set (applied d) \<Longrightarrow> migrate_loop runs files names d = (None, d)"
  by (induction names) auto

lemma migrate_loop_ok:
  assumes "migrate_loop runs files names d = (None, d')" and "distinct names" and "mg_table d \<noteq> None"
  shows "applied d' = applied d @ filter (\<lambda>n. n \<notin> set (applied d)) names \<and> mg_table d' \<noteq> None \<and>
    run_scripts runs files (filter (\<lambda>n. n \<notin> set (applied d)) names) (mg_schema d) = Inr (mg_schema d')"
  using assms
proof (induction names arbitrary: d)
  case Nil
  then show ?case by simp
next
  case (Cons n ns)
  show ?case
  proof (cases "n \<in> set (applied d)")
    case True
    with Cons show ?thesis by simp
  next
    case False
    obtain dir body where f: "map_of files n = Some (dir, body)"
      using Cons.prems(1) False by (auto split: option.splits)
    obtain s where s: "runs (''BEGIN;'' @ [CHR 0x0A] @ body @ [CHR 0x0A] @ ''COMMIT;'') (mg_schema d) = Inr s"
      using Cons.prems(1) False f by (auto simp: execScript_def split: sum.splits)
    let ?d = "d\<lparr>mg_schema := s, mg_table := Some (applied d @ [n])\<rparr>"
    have "migrate_loop runs files ns ?d = (None, d')"
      using Cons.prems(1) False f s by (simp add: execScript_def)
    from Cons.IH [OF this] Cons.prems(2)
    have "applied d' = applied ?d @ filter (\<lambda>m. m \<notin> set (applied ?d)) ns \<and> mg_table d' \<noteq> None \<and>
        run_scripts runs files (filter (\<lambda>m. m \<notin> set (applied ?d)) ns) (mg_schema ?d) = Inr (mg_schema d')"
      by simp
    moreover have "filter (\<lambda>m. m \<notin> set (applied ?d)) ns = filter (\<lambda>m. m \<notin> set (applied d)) ns"
      using Cons.prems(2) by (auto intro!: filter_cong simp: applied_def)
    ultimately show ?thesis using False f s by (simp add: applied_def)
  qed
qed

lemma migrate_ok:
  assumes "migrate runs files d = (None, d')" and "distinct (map fst files)"
  shows "applied d' = applied d @ filter (\<lambda>n. n \<notin> set (applied d)) (migration_names files)"
    and "run_scripts runs files (filter (\<lambda>n. n \<notin> set (applied d)) (migration_names files)) (mg_schema d) =
      Inr (mg_schema d')"
    and "migrate runs files d' = (None, d')"
proof -
  let ?names = "migration_names files"
  have dist: "distinct ?names" using assms(2) by (simp add: migration_names_def distinct_map_filter)
  have loop: "migrate_loop runs files ?names (d\<lparr>mg_table := Some (applied d)\<rparr>) = (None, d')"
    using assms(1) by (simp add: migrate_def)
  show names: "applied d' = applied d @ filter (\<lambda>n. n \<notin> set (applied d)) ?names"
    and "run_scripts runs files (filter (\<lambda>n. n \<notin> set (applied d)) ?names) (mg_schema d) = Inr (mg_schema d')"
    using migrate_loop_ok [OF loop dist] by simp_all
  have "set ?names \<subseteq> set (applied d')" unfolding names by auto
  moreover have "d'\<lparr>mg_table := Some (applied d')\<rparr> = d'"
    using migrate_loop_ok [OF loop dist] by (auto simp: applied_def)
  ultimately show "migrate runs files d' = (None, d')"
    by (simp add: migrate_def migrate_loop_done)
qed

text \<open>
  C32. A successful migration applies exactly the scripts that were not recorded yet, each once, in
  the order of their names, and records them; the next start finds nothing to do and leaves
  the database as it is.
\<close>

theorem migrations_apply_once:
  assumes "migrate runs files d = (None, d')" and "distinct (map fst files)"
  shows "let todo = filter (\<lambda>n. n \<notin> set (applied d)) (migration_names files)
    in sorted todo \<and> distinct todo \<and> applied d' = applied d @ todo \<and>
      run_scripts runs files todo (mg_schema d) = Inr (mg_schema d') \<and>
      migrate runs files d' = (None, d')"
proof -
  have "distinct (migration_names files)" "sorted (migration_names files)"
    using assms(2) by (simp_all add: migration_names_def distinct_map_filter)
  then show ?thesis
    using migrate_ok [OF assms] by (simp add: Let_def sorted_filter [where f = id, simplified])
qed

definition sample_files :: "mig_file list" where
  "sample_files = [(''0002_admin.sql'', False, ''B''), (''0001_init.sql'', False, ''A''),
     (''notes'', False, ''''), (''old.sql'', True, '''')]"

theorem migrations_apply_once_witness:
  "let d' = \<lparr>mg_table = Some [''0001_init.sql'', ''0002_admin.sql''], mg_schema = (2::int)\<rparr>
   in migrate (\<lambda>_ n. Inr (n + 1)) sample_files d' = (None, d')"
proof -
  let ?d' = "\<lparr>mg_table = Some [''0001_init.sql'', ''0002_admin.sql''], mg_schema = (2::int)\<rparr>"
  have "migrate (\<lambda>_ n. Inr (n + 1)) sample_files \<lparr>mg_table = None, mg_schema = 0\<rparr> = (None, ?d')"
    by code_simp
  moreover have "distinct (map fst sample_files)" by code_simp
  ultimately show ?thesis
    using migrations_apply_once [of "\<lambda>_ n. Inr (n + 1)" sample_files "\<lparr>mg_table = None, mg_schema = 0\<rparr>" ?d']
    by (simp add: Let_def)
qed

end
