(* ===== verification/Start.thy ===== *)
theory Start
  imports SeedProps Conformance Migrate
begin

section \<open>Process start\<close>

text \<open>
  \<open>cmd/server/main.go\<close> with what it calls: the signing key (\<open>oidc.LoadRSA\<close>, \<open>GenerateRSA\<close>), the
  store (\<open>openRepos\<close>, \<open>postgres.Open\<close>), the seeds and \<open>web.NewServer\<close>. Files, PEM, PKCS#8, RSA and
  jwx keys are the parameter \<open>keylib\<close>, connecting to a database and running its scripts are
  parameters too, and so is parsing the embedded page templates. An error ends the process.
\<close>

subsection \<open>The signing key\<close>

datatype 'k parsed_key = RsaKey 'k | OtherKey

record ('k, 'j) keylib =
  OsReadFile :: "string \<Rightarrow> string + string"
  PemDecode :: "string \<Rightarrow> string option"
  ParsePKCS8 :: "string \<Rightarrow> string + 'k parsed_key"
  RsaGenerate :: "nat \<Rightarrow> string + 'k"
  JwkFromRaw :: "'k \<Rightarrow> string + 'j"
  JwkSet :: "'j \<Rightarrow> string \<Rightarrow> string \<Rightarrow> string + 'j"
  JwkPublic :: "'j \<Rightarrow> string + 'j"
  JwkAddKey :: "'j \<Rightarrow> 'j list \<Rightarrow> string + 'j list"

record 'j signer =
  sgKey :: 'j
  sgPub :: "'j list"
  sgKid :: string

text \<open>The \<open>if err != nil { return nil, err }\<close> of a sequence of calls.\<close>

definition or_fail :: "'e + 'a \<Rightarrow> ('a \<Rightarrow> 'e + 'b) \<Rightarrow> 'e + 'b" where
  "or_fail r f = (case r of Inl e \<Rightarrow> Inl e | Inr v \<Rightarrow> f v)"

definition fromRSA :: "('k, 'j) keylib \<Rightarrow> 'k \<Rightarrow> string + 'j signer" where
  "fromRSA K priv =
    or_fail (JwkFromRaw K priv) (\<lambda>key.
    let kid = ''dev-1'' in
    or_fail (JwkSet K key ''kid'' kid) (\<lambda>key.
    or_fail (JwkSet K key ''alg'' ''RS256'') (\<lambda>key.
    or_fail (JwkPublic K key) (\<lambda>pub.
    or_fail (JwkAddKey K pub []) (\<lambda>set.
    Inr \<lparr>sgKey = key, sgPub = set, sgKid = kid\<rparr>)))))"

definition LoadRSA :: "('k, 'j) keylib \<Rightarrow> string \<Rightarrow> string + 'j signer" where
  "LoadRSA K path =
    or_fail (OsReadFile K path) (\<lambda>raw.
    case PemDecode K raw of
      None \<Rightarrow> Inl (''no PEM block in '' @ path)
    | Some block \<Rightarrow>
        (case ParsePKCS8 K block of
           Inl e \<Rightarrow> Inl (''parse pkcs8: '' @ e)
         | Inr OtherKey \<Rightarrow> Inl ''not an RSA private key''
         | Inr (RsaKey k) \<Rightarrow> fromRSA K k))"

definition GenerateRSA :: "('k, 'j) keylib \<Rightarrow> string + 'j signer" where
  "GenerateRSA K = or_fail (RsaGenerate K 2048) (fromRSA K)"

definition JWKS :: "'j signer \<Rightarrow> 'j list" where
  "JWKS s = sgPub s"

subsection \<open>The store\<close>

record pgserver =
  PoolNew :: "string \<Rightarrow> string + pgdb migrated"
  PoolPing :: "pgdb migrated \<Rightarrow> string option"
  RunScript :: "pgdb runs"
  MigrationFS :: "mig_file list"

definition Open_pg :: "pgserver \<Rightarrow> string \<Rightarrow> string + pgdb migrated" where
  "Open_pg P databaseURL =
    (case PoolNew P databaseURL of
       Inl e \<Rightarrow> Inl (''postgres connect: '' @ e)
     | Inr pool \<Rightarrow>
         (case PoolPing P pool of
            Some e \<Rightarrow> Inl (''postgres ping: '' @ e)
          | None \<Rightarrow>
              (case migrate (RunScript P) (MigrationFS P) pool of
                 (Some e, _) \<Rightarrow> Inl e
               | (None, pool) \<Rightarrow> Inr pool)))"

datatype opened = OnMemory store | OnPostgres "pgdb migrated"

definition openRepos :: "pgserver \<Rightarrow> config \<Rightarrow> string + opened" where
  "openRepos P cfg =
    (if Store cfg = StorePostgres then map_sum id OnPostgres (Open_pg P (DatabaseURL cfg))
     else Inr (OnMemory NewStore))"

subsection \<open>The server\<close>

definition template_names :: "string list" where
  "template_names = [''login'', ''register'', ''consent'', ''home'', ''end_session'', ''logged_out'', ''front_channel'']"

text \<open>A new server has no pending requests and no login failures; the routes are \<open>routes\<close>.\<close>

definition NewServer :: "(string \<Rightarrow> string option) \<Rightarrow> 's world \<Rightarrow> string + 's world" where
  "NewServer parse w =
    (case List.map_filter parse template_names of
       e # _ \<Rightarrow> Inl e
     | [] \<Rightarrow> Inr (w\<lparr>w_hits := [], w_pending := []\<rparr>))"

definition process_world :: "'s \<Rightarrow> 's world" where
  "process_world s = \<lparr>w_store = s, w_draws = 0, w_ids = 0, w_hits = [], w_pending = [], w_sent = []\<rparr>"

text \<open>Where the server listens: its address, its key, its settings, and the state behind it.\<close>

datatype 'j outcome =
    Exit
  | MemoryServer string "'j signer" env "store world"
  | PostgresServer string "'j signer" env "pgdb world"

definition seed_and_serve ::
    "(string \<Rightarrow> json option) \<Rightarrow> (string \<Rightarrow> string option) \<Rightarrow> 's repos \<Rightarrow> env \<Rightarrow> 's \<Rightarrow> 's world option" where
  "seed_and_serve unmarshal parse R E s =
    (case seed_all unmarshal R E (process_world s) of
       (Inl _, _) \<Rightarrow> None
     | (Inr _, w) \<Rightarrow> (case NewServer parse w of Inl _ \<Rightarrow> None | Inr w \<Rightarrow> Some w))"

definition main_start ::
    "(string \<Rightarrow> int option) \<Rightarrow> ('k, 'j) keylib \<Rightarrow> pgserver \<Rightarrow> pgconf \<Rightarrow> (string \<Rightarrow> json option) \<Rightarrow>
      (string \<Rightarrow> string option) \<Rightarrow> iter_order \<Rightarrow> env \<Rightarrow> environ \<Rightarrow> 'j outcome" where
  "main_start ParseDuration K P C unmarshal parse it E getenv =
    (case FromEnv ParseDuration getenv of
       Inl _ \<Rightarrow> Exit
     | Inr cfg \<Rightarrow>
         (case (if DevGenerateKeys cfg then GenerateRSA K else LoadRSA K (RSAPrivateKeyPath cfg)) of
            Inl _ \<Rightarrow> Exit
          | Inr sg \<Rightarrow>
              (let E = E\<lparr>Cfg := cfg\<rparr>
               in case openRepos P cfg of
                    Inl _ \<Rightarrow> Exit
                  | Inr (OnMemory st) \<Rightarrow>
                      (case seed_and_serve unmarshal parse (mem_repos it) E st of
                         None \<Rightarrow> Exit
                       | Some w \<Rightarrow> MemoryServer (HTTPAddr cfg) sg E w)
                  | Inr (OnPostgres pool) \<Rightarrow>
                      (case seed_and_serve unmarshal parse (pg_repos C) E (mg_schema pool) of
                         None \<Rightarrow> Exit
                       | Some w \<Rightarrow> PostgresServer (HTTPAddr cfg) sg E w))))"

subsection \<open>What a listening process guarantees\<close>

lemma or_fail_Inr: "or_fail r f = Inr v \<longleftrightarrow> (\<exists>u. r = Inr u \<and> f u = Inr v)"
  by (cases r) (simp_all add: or_fail_def)

definition rsa_file :: "('k, 'j) keylib \<Rightarrow> string \<Rightarrow> 'j signer \<Rightarrow> bool" where
  "rsa_file K path sg \<longleftrightarrow>
    (\<exists>raw block k. OsReadFile K path = Inr raw \<and> PemDecode K raw = Some block \<and>
      ParsePKCS8 K block = Inr (RsaKey k) \<and> fromRSA K k = Inr sg)"

lemma LoadRSA_ok:
  assumes "LoadRSA K path = Inr sg"
  shows "rsa_file K path sg"
proof -
  obtain raw where raw: "OsReadFile K path = Inr raw"
    using assms by (cases "OsReadFile K path") (simp_all add: LoadRSA_def or_fail_def)
  obtain block where block: "PemDecode K raw = Some block"
    using assms raw by (cases "PemDecode K raw") (simp_all add: LoadRSA_def or_fail_def)
  obtain parsed where parsed: "ParsePKCS8 K block = Inr parsed"
    using assms raw block by (cases "ParsePKCS8 K block") (simp_all add: LoadRSA_def or_fail_def)
  obtain k where "parsed = RsaKey k"
    using assms raw block parsed by (cases parsed) (simp_all add: LoadRSA_def or_fail_def)
  then show ?thesis
    using assms raw block parsed by (simp add: rsa_file_def LoadRSA_def or_fail_def)
qed

text \<open>The published set is made from the public half of the key that signs.\<close>

definition publishes_public :: "('k, 'j) keylib \<Rightarrow> 'j signer \<Rightarrow> bool" where
  "publishes_public K sg \<longleftrightarrow>
    (\<exists>pub. JwkPublic K (sgKey sg) = Inr pub \<and> JwkAddKey K pub [] = Inr (JWKS sg))"

lemma fromRSA_publishes: "fromRSA K k = Inr sg \<Longrightarrow> publishes_public K sg"
  by (auto simp: fromRSA_def or_fail_Inr publishes_public_def JWKS_def Let_def)

lemma LoadRSA_publishes: "LoadRSA K path = Inr sg \<Longrightarrow> publishes_public K sg"
  using LoadRSA_ok [of K path sg] fromRSA_publishes by (auto simp: rsa_file_def)

lemma GenerateRSA_publishes: "GenerateRSA K = Inr sg \<Longrightarrow> publishes_public K sg"
  using fromRSA_publishes by (auto simp: GenerateRSA_def or_fail_Inr)

lemma Open_pg_ok:
  assumes "Open_pg P url = Inr pool" and "distinct (map fst (MigrationFS P))"
  shows "set (migration_names (MigrationFS P)) \<subseteq> set (applied pool)"
proof -
  obtain p0 where "migrate (RunScript P) (MigrationFS P) p0 = (None, pool)"
    using assms(1) by (auto simp: Open_pg_def split: sum.splits option.splits prod.splits)
  then have "applied pool = applied p0 @ filter (\<lambda>n. n \<notin> set (applied p0)) (migration_names (MigrationFS P))"
    using migrate_ok [OF _ assms(2)] by blast
  then show ?thesis by auto
qed

text \<open>The seeds leave the login failures and the pending requests alone.\<close>

definition keeps_server :: "('s world \<Rightarrow> 'r \<times> 's world) \<Rightarrow> bool" where
  "keeps_server f \<longleftrightarrow> (\<forall>w. w_hits (snd (f w)) = w_hits w \<and> w_pending (snd (f w)) = w_pending w)"

lemma keeps_on_store: "keeps_server (on_store f)"
  by (simp add: keeps_server_def on_store_eq)

lemma keeps_and_then: "keeps_server f \<Longrightarrow> keeps_server g \<Longrightarrow> keeps_server (and_then f g)"
  by (simp add: keeps_server_def and_then_def split: prod.split sum.split) (metis snd_conv)

lemma keeps_Register: "keeps_server (Register us E inp)"
  by (simp add: keeps_server_def Register_def Hash_password_def id_New_def on_store_eq Let_def
      split: sum.split option.split prod.split)

lemma keeps_DemoUser: "keeps_server (DemoUser us E)"
  using keeps_Register [of us E "\<lparr>rEmail = SeedDemoEmail (Cfg E), rPassword = SeedDemoPassword (Cfg E), rName = SeedDemoName (Cfg E)\<rparr>"]
  by (simp add: keeps_server_def DemoUser_def Let_def split: sum.split prod.split) (metis snd_conv)

lemma keeps_DemoOrganization: "keeps_server (DemoOrganization R E)"
  by (simp add: keeps_server_def DemoOrganization_def seed_org_def id_New_def on_store_eq Let_def
      split: sum.split list.split prod.split)

lemma keeps_seed_all: "keeps_server (seed_all unmarshal R E)"
  unfolding seed_all_def
  by (intro keeps_and_then keeps_on_store keeps_DemoUser keeps_DemoOrganization)

lemma seed_and_serve_ok:
  assumes "seed_and_serve unmarshal parse R E s = Some w"
  shows "seed_all unmarshal R E (process_world s) = (Inr (), w) \<and> List.map_filter parse template_names = []"
proof -
  obtain v where v: "seed_all unmarshal R E (process_world s) = (Inr (), v)" "NewServer parse v = Inr w"
    using assms by (auto simp: seed_and_serve_def split: prod.splits sum.splits)
  have "w_hits v = [] \<and> w_pending v = []"
    using keeps_seed_all [of unmarshal R E] v(1) unfolding keeps_server_def
    by (metis process_world_def snd_conv world.select_convs(4,5))
  then have "v\<lparr>w_hits := [], w_pending := []\<rparr> = v" by simp
  with v show ?thesis by (simp add: NewServer_def split: list.splits)
qed

lemma ids_ok_Cfg: "ids_ok U E \<Longrightarrow> ids_ok U (E\<lparr>Cfg := cfg\<rparr>)"
  by (simp add: ids_ok_def)

lemma main_start_listens:
  assumes "main_start ParseDuration K P C unmarshal parse it E getenv \<noteq> Exit"
  obtains cfg sg where "FromEnv ParseDuration getenv = Inr cfg"
    and "(if DevGenerateKeys cfg then GenerateRSA K else LoadRSA K (RSAPrivateKeyPath cfg)) = Inr sg"
    and "if Store cfg = StorePostgres
      then \<exists>pool w. Open_pg P (DatabaseURL cfg) = Inr pool \<and>
        seed_and_serve unmarshal parse (pg_repos C) (E\<lparr>Cfg := cfg\<rparr>) (mg_schema pool) = Some w \<and>
        main_start ParseDuration K P C unmarshal parse it E getenv = PostgresServer (HTTPAddr cfg) sg (E\<lparr>Cfg := cfg\<rparr>) w
      else \<exists>w. seed_and_serve unmarshal parse (mem_repos it) (E\<lparr>Cfg := cfg\<rparr>) NewStore = Some w \<and>
        main_start ParseDuration K P C unmarshal parse it E getenv = MemoryServer (HTTPAddr cfg) sg (E\<lparr>Cfg := cfg\<rparr>) w"
proof -
  obtain cfg where cfg: "FromEnv ParseDuration getenv = Inr cfg"
    using assms by (cases "FromEnv ParseDuration getenv") (simp_all add: main_start_def)
  let ?key = "if DevGenerateKeys cfg then GenerateRSA K else LoadRSA K (RSAPrivateKeyPath cfg)"
  obtain sg where sg: "?key = Inr sg"
    using assms cfg by (cases ?key) (simp_all add: main_start_def)
  show ?thesis
  proof (cases "Store cfg = StorePostgres")
    case True
    then obtain pool where "Open_pg P (DatabaseURL cfg) = Inr pool"
      using assms cfg sg by (cases "Open_pg P (DatabaseURL cfg)") (simp_all add: main_start_def openRepos_def Let_def)
    then show ?thesis
      using assms cfg sg True
      by (intro that [OF cfg sg]) (auto simp: main_start_def openRepos_def Let_def split: option.splits)
  next
    case False
    then show ?thesis
      using assms cfg sg
      by (intro that [OF cfg sg]) (auto simp: main_start_def openRepos_def Let_def split: option.splits)
  qed
qed

lemma accepted_key:
  assumes "FromEnv ParseDuration getenv = Inr cfg"
    and "(if DevGenerateKeys cfg then GenerateRSA K else LoadRSA K (RSAPrivateKeyPath cfg)) = Inr sg"
  shows "publishes_public K sg"
    and "Env cfg \<noteq> EnvDevelopment \<Longrightarrow> rsa_file K (RSAPrivateKeyPath cfg) sg"
    and "Env cfg = EnvProduction \<Longrightarrow> CookieSecure cfg"
    and "Store cfg \<noteq> StorePostgres \<Longrightarrow> Env cfg = EnvDevelopment"
  using assms(2) FromEnv_fields(1) [OF assms(1)] LoadRSA_publishes GenerateRSA_publishes LoadRSA_ok
  by (auto simp: validateProfile_ok env_names split: if_splits)

lemma memory_start_reachable:
  assumes "ids_ok U E" and "seed_and_serve unmarshal parse (mem_repos it) (E\<lparr>Cfg := cfg\<rparr>) NewStore = Some w"
  shows "reachable U w"
  using booted [OF ids_ok_Cfg [OF assms(1)], of unmarshal it cfg w] seed_and_serve_ok [OF assms(2)]
  by (simp add: process_world_def start_world_def)

text \<open>What every listening process went through: its settings, its key and its page templates.\<close>

definition prepared ::
    "(string \<Rightarrow> int option) \<Rightarrow> ('k, 'j) keylib \<Rightarrow> (string \<Rightarrow> string option) \<Rightarrow> environ \<Rightarrow> config \<Rightarrow> 'j signer \<Rightarrow> bool" where
  "prepared ParseDuration K parse getenv cfg sg \<longleftrightarrow>
    FromEnv ParseDuration getenv = Inr cfg
    \<and> (if DevGenerateKeys cfg then GenerateRSA K else LoadRSA K (RSAPrivateKeyPath cfg)) = Inr sg
    \<and> (\<forall>name \<in> set template_names. parse name = None)"

lemma templates_parsed: "List.map_filter parse names = [] \<longleftrightarrow> (\<forall>name \<in> set names. parse name = None)"
  by (induction names) (simp_all add: map_filter_simps split: option.split)

text \<open>
  C31. A process listens only after its settings were accepted, its key was made, its store was
  opened, every page template parsed and all seeds succeeded, on either store; the state it starts in is
  what the seeds left. Then it is safe: it publishes the public half of the key it signs with; outside
  development that key was read from the configured file and the store is Postgres, with every
  embedded migration recorded; in production the cookies are secure. On the memory store the state
  it starts in is one of the reachable states. Documented behaviour used: names in a directory
  are distinct, and ULIDs do not repeat.
\<close>

theorem server_starts_safely:
  assumes "distinct (map fst (MigrationFS P))" and "ids_ok U E"
  shows "case main_start ParseDuration K P C unmarshal parse it E getenv of
      Exit \<Rightarrow> True
    | MemoryServer addr sg E' w \<Rightarrow>
        prepared ParseDuration K parse getenv (Cfg E') sg \<and> addr = HTTPAddr (Cfg E') \<and>
        Env (Cfg E') = EnvDevelopment \<and> publishes_public K sg \<and> reachable U w \<and>
        seed_all unmarshal (mem_repos it) E' (process_world NewStore) = (Inr (), w)
    | PostgresServer addr sg E' w \<Rightarrow>
        prepared ParseDuration K parse getenv (Cfg E') sg \<and> addr = HTTPAddr (Cfg E') \<and>
        publishes_public K sg \<and>
        (Env (Cfg E') \<noteq> EnvDevelopment \<longrightarrow> rsa_file K (RSAPrivateKeyPath (Cfg E')) sg) \<and>
        (Env (Cfg E') = EnvProduction \<longrightarrow> CookieSecure (Cfg E')) \<and>
        (\<exists>pool. Open_pg P (DatabaseURL (Cfg E')) = Inr pool \<and>
          set (migration_names (MigrationFS P)) \<subseteq> set (applied pool) \<and>
          seed_all unmarshal (pg_repos C) E' (process_world (mg_schema pool)) = (Inr (), w))"
proof (cases "main_start ParseDuration K P C unmarshal parse it E getenv = Exit")
  case True
  then show ?thesis by simp
next
  case False
  then obtain cfg sg where cfg: "FromEnv ParseDuration getenv = Inr cfg"
    and sg: "(if DevGenerateKeys cfg then GenerateRSA K else LoadRSA K (RSAPrivateKeyPath cfg)) = Inr sg"
    and out: "if Store cfg = StorePostgres
      then \<exists>pool w. Open_pg P (DatabaseURL cfg) = Inr pool \<and>
        seed_and_serve unmarshal parse (pg_repos C) (E\<lparr>Cfg := cfg\<rparr>) (mg_schema pool) = Some w \<and>
        main_start ParseDuration K P C unmarshal parse it E getenv = PostgresServer (HTTPAddr cfg) sg (E\<lparr>Cfg := cfg\<rparr>) w
      else \<exists>w. seed_and_serve unmarshal parse (mem_repos it) (E\<lparr>Cfg := cfg\<rparr>) NewStore = Some w \<and>
        main_start ParseDuration K P C unmarshal parse it E getenv = MemoryServer (HTTPAddr cfg) sg (E\<lparr>Cfg := cfg\<rparr>) w"
    by (rule main_start_listens)
  note safe = accepted_key [OF cfg sg]
  show ?thesis
  proof (cases "Store cfg = StorePostgres")
    case True
    then obtain pool w where pg: "Open_pg P (DatabaseURL cfg) = Inr pool"
      "seed_and_serve unmarshal parse (pg_repos C) (E\<lparr>Cfg := cfg\<rparr>) (mg_schema pool) = Some w"
      "main_start ParseDuration K P C unmarshal parse it E getenv = PostgresServer (HTTPAddr cfg) sg (E\<lparr>Cfg := cfg\<rparr>) w"
      using out by auto
    then have "prepared ParseDuration K parse getenv cfg sg"
      using cfg sg seed_and_serve_ok [OF pg(2)] by (simp add: prepared_def templates_parsed)
    then show ?thesis using pg safe Open_pg_ok [OF pg(1) assms(1)] seed_and_serve_ok [OF pg(2)] by auto
  next
    case False
    then obtain w where mem: "seed_and_serve unmarshal parse (mem_repos it) (E\<lparr>Cfg := cfg\<rparr>) NewStore = Some w"
      "main_start ParseDuration K P C unmarshal parse it E getenv = MemoryServer (HTTPAddr cfg) sg (E\<lparr>Cfg := cfg\<rparr>) w"
      using out by auto
    then have "prepared ParseDuration K parse getenv cfg sg"
      using cfg sg seed_and_serve_ok [OF mem(1)] by (simp add: prepared_def templates_parsed)
    then show ?thesis
      using False mem safe memory_start_reachable [OF assms(2) mem(1)] seed_and_serve_ok [OF mem(1)] by auto
  qed
qed

definition sample_keys :: "(string, string) keylib" where
  "sample_keys = \<lparr>OsReadFile = (\<lambda>p. if p = ''/run/key.pem'' then Inr ''pem'' else Inl ''no such file''),
     PemDecode = (\<lambda>raw. if raw = ''pem'' then Some ''der'' else None),
     ParsePKCS8 = (\<lambda>b. Inr (RsaKey b)), RsaGenerate = (\<lambda>n. Inr ''fresh''),
     JwkFromRaw = Inr, JwkSet = (\<lambda>j k v. Inr j), JwkPublic = (\<lambda>j. Inr ''public''),
     JwkAddKey = (\<lambda>j js. Inr (js @ [j]))\<rparr>"

definition sample_pgserver :: pgserver where
  "sample_pgserver = \<lparr>PoolNew = (\<lambda>url. Inr \<lparr>mg_table = None, mg_schema = empty_db\<rparr>), PoolPing = (\<lambda>p. None),
     RunScript = (\<lambda>sql s. Inr s), MigrationFS = sample_files\<rparr>"

definition prod_environ :: environ where
  "prod_environ k = (case map_of
     [(''IDENTITY_ENV'', ''production''), (''IDENTITY_STORE'', ''postgres''),
      (''IDENTITY_DATABASE_URL'', ''postgres://db''), (''IDENTITY_RSA_PRIVATE_KEY_PATH'', ''/run/key.pem''),
      (''IDENTITY_COOKIE_SECURE'', ''true'')] k of None \<Rightarrow> [] | Some v \<Rightarrow> v)"

theorem server_starts_safely_witness:
  "case main_start (\<lambda>s. None) sample_keys sample_pgserver sample_conf (\<lambda>s. None) (\<lambda>t. None) id sample_env prod_environ of
     PostgresServer addr sg E w \<Rightarrow> CookieSecure (Cfg E) \<and> rsa_file sample_keys (RSAPrivateKeyPath (Cfg E)) sg
   | _ \<Rightarrow> False"
proof -
  have "case FromEnv (\<lambda>s. None) prod_environ of
      Inl _ \<Rightarrow> False
    | Inr cfg \<Rightarrow> Env cfg = EnvProduction \<and> DevGenerateKeys cfg = False \<and> RSAPrivateKeyPath cfg = ''/run/key.pem'' \<and>
        Store cfg = StorePostgres \<and> SeedPublicClientID cfg = [] \<and> SeedDemoRPBRedirect cfg = [] \<and>
        TrimSpace (SeedExtraClientsJSON cfg) = [] \<and> SeedDemoEmail cfg = []"
    by code_simp
  then obtain cfg where f: "FromEnv (\<lambda>s. None) prod_environ = Inr cfg" "Env cfg = EnvProduction"
    "\<not> DevGenerateKeys cfg" "RSAPrivateKeyPath cfg = ''/run/key.pem''" "Store cfg = StorePostgres"
    and s: "SeedPublicClientID cfg = []" "SeedDemoRPBRedirect cfg = []" "TrimSpace (SeedExtraClientsJSON cfg) = []"
      "SeedDemoEmail cfg = []"
    by (auto split: sum.splits)
  have key: "\<exists>sg. LoadRSA sample_keys ''/run/key.pem'' = Inr sg"
    by (simp add: LoadRSA_def fromRSA_def or_fail_def sample_keys_def)
  have "\<exists>pool. migrate (\<lambda>sql s. Inr s) sample_files \<lparr>mg_table = None, mg_schema = empty_db\<rparr> = (None, pool)"
  proof -
    have "migration_names sample_files = [''0001_init.sql'', ''0002_admin.sql'']" by code_simp
    then show ?thesis by (simp add: migrate_def applied_def execScript_def sample_files_def)
  qed
  then have pool: "\<exists>pool. Open_pg sample_pgserver url = Inr pool" for url
    by (auto simp: Open_pg_def sample_pgserver_def)
  have seeds: "seed_all (\<lambda>s. None) R (sample_env\<lparr>Cfg := cfg\<rparr>) w = (Inr (), w)" for R :: "pgdb repos" and w
    using s by (simp add: seed_all_def and_then_def on_store_eq PublicClient_def DemoRPB_def ExtraClients_def
        DemoUser_def DemoOrganization_def Let_def)
  have serve: "seed_and_serve (\<lambda>s. None) (\<lambda>t. None) R (sample_env\<lparr>Cfg := cfg\<rparr>) st \<noteq> None" for R :: "pgdb repos" and st
    by (simp add: seed_and_serve_def seeds NewServer_def template_names_def map_filter_simps)
  let ?m = "main_start (\<lambda>s. None) sample_keys sample_pgserver sample_conf (\<lambda>s. None) (\<lambda>t. None) id sample_env prod_environ"
  obtain addr sg E w where m: "?m = PostgresServer addr sg E w"
    using f key pool [of "DatabaseURL cfg"] serve
    by (fastforce simp: main_start_def openRepos_def Let_def split: option.splits)
  have "distinct (map fst (MigrationFS sample_pgserver))" by code_simp
  moreover have "ids_ok dec sample_env"
    using inj_dec dec_digits [of "CHR ''|''"] by (auto simp: ids_ok_def)
  ultimately show ?thesis
    using server_starts_safely [where P = sample_pgserver and U = dec and E = sample_env and ParseDuration = "\<lambda>s. None"
        and K = sample_keys and C = sample_conf and unmarshal = "\<lambda>s. None" and parse = "\<lambda>t. None" and it = id
        and getenv = prod_environ]
      m f(1,2) by (auto simp: env_names prepared_def)
qed

end
