(* ===== verification/Spec2Isabelle.thy ===== *)
theory Spec2Isabelle
  imports StoreProps Divergences Resume Start
begin

section \<open>The identity provider pf-identity\<close>

text \<open>
  The repository is an OAuth 2.1 / OpenID Connect identity provider in Go
  (\<open>apps/server\<close>): browser accounts and sessions, an authorization endpoint with consent
  and PKCE, a token endpoint with rotating refresh tokens, logout that tells the relying parties,
  organizations, an admin API, and two stores behind one persistence interface. These theories
  model its logic as functions and prove what makes each part correct.

  \<^bold>\<open>How the code is modelled.\<close> A Go string is a byte string (\<open>string\<close>), a Go map an association list
  with one entry per key (\<open>gomap\<close>), a fallible function returns \<open>derr + 'a\<close>, and a pointer receiver
  or package state becomes an argument that is returned updated. A struct is a record whose fields
  carry a short prefix, an interface (\<open>domain/repos.go\<close>) a record of functions over a store of
  type \<open>'s\<close>, so that services and handlers take their dependencies as the Go code does. What a
  process keeps is the record \<open>world\<close> (store, limiter hits, pending authorization requests,
  counters of random and ULID draws, notices sent), and what it reads from outside the
  repository is the record \<open>env\<close>: the clock, \<open>crypto/rand\<close>, \<open>ulid.Make\<close>, \<open>argon2.IDKey\<close>,
  \<open>mail.ParseAddress\<close>, signing and parsing of JWTs (jwx), and the configuration. A handler is a
  function from repos, environment, request and world to a response and a new world; one request
  reads one instant of the clock. The order in which Go visits a map is a parameter (\<open>iter_order\<close>).
  The bodies of JSON requests are parsed values, those of responses and pages are data.

  \<^bold>\<open>Libraries.\<close> \<open>Prelude\<close>: maps, iteration, results, runs of requests. \<open>GoStrings\<close>, \<open>Codec\<close>, \<open>GoURL\<close>:
  the parts of \<open>strings\<close>, \<open>strconv\<close>, SHA-256, base64 and \<open>net/url\<close> that the program uses,
  executable. \<open>Http\<close>: requests, responses, \<open>http.Redirect\<close>. \<open>UrlProps\<close>: queries survive escaping and
  parsing. \<open>SampleEnv\<close>, \<open>Samples\<close>: the concrete server of the witnesses.

  \<^bold>\<open>Data and services.\<close> \<open>Domain\<close>: \<open>domain/domain.go\<close> and \<open>errors.go\<close>. \<open>OAuth\<close>: \<open>internal/oauth\<close>.
  \<open>Config\<close>: \<open>config.go\<close>. \<open>Runtime\<close>: \<open>env\<close>, \<open>world\<close>, \<open>random\<close>, \<open>id\<close>. \<open>RateLimit\<close>, \<open>Password\<close>,
  \<open>SessionService\<close>, \<open>Account\<close>, \<open>OrgService\<close>, \<open>Signer\<close>, \<open>Seed\<close>: the packages of those names. \<open>RateLimit\<close> also
  has the calls of concurrent logins on the limiter, as the relation \<open>guess_run\<close>, with the bound on
  the guesses that get past it; \<open>handleLogin_guesses\<close> in \<open>WebProps\<close> shows that logins served one
  at a time are such a run.

  \<^bold>\<open>Stores.\<close> \<open>Repos\<close>: the interfaces of \<open>domain/repos.go\<close>, the abstract store \<open>astore\<close>, and one locale
  per interface with the contract that its clients rely on (\<open>repos_contract\<close> is their union,
  \<open>take_once\<close> is shared by codes and refresh tokens). \<open>MemStore\<close>, \<open>MemRepos\<close>: \<open>store/memory\<close>, its
  invariant \<open>mem_inv\<close>, its meaning \<open>mem_abs\<close> and the interpretation of every contract. \<open>StoreOps\<close>: every
  call of the interface as a value, with what an implementation answers (\<open>spec_out\<close>), how the
  meaning changes (\<open>spec_post\<close>), and the calls on which both stores are meant to agree (\<open>adm\<close>).
  \<open>PgStore\<close>: \<open>store/postgres\<close> as SQL statements over tables with their keys, unique columns and
  foreign keys; the text that the database accepts, the order of a scan and the collation are
  parameters. \<open>PgInv\<close>, \<open>PgRepos\<close>: the invariant \<open>pg_inv\<close> of the tables, their meaning \<open>pg_abs\<close>, and that
  every method meets the specification. \<open>PgProps\<close>: the stores agree, under the collation by bytes and,
  up to the order of some lists, under any other, and the race for one code as the step
  relation \<open>take_step\<close>. \<open>Conformance\<close>: \<open>storetest\<close> as a script. \<open>Migrate\<close>: \<open>migrate.go\<close>, over a
  parameter that runs a script.

  \<^bold>\<open>The server.\<close> \<open>Messages\<close>, \<open>WebCore\<close>, \<open>WebToken\<close>, \<open>WebAuthorize\<close>, \<open>WebLogout\<close>, \<open>WebAccount\<close>, \<open>WebJson\<close>,
  \<open>WebOrgs\<close>, \<open>WebAdmin\<close>, \<open>WebAdminOrgs\<close>, \<open>Discovery\<close>: the files of \<open>internal/web\<close>, one theory each or one
  for two. \<open>Serve\<close>: the route table and how \<open>net/http\<close> cleans and matches paths; \<open>serve\<close> is a
  whole request. \<open>Start\<close>: \<open>cmd/server/main.go\<close> with loading the key, opening the store and
  \<open>web.NewServer\<close>.

  \<^bold>\<open>What the lemmas show.\<close> Inside the contract locales, for any store that keeps them: a taken row
  stays taken, sessions live and die with their expiry, an address names one account, the outcome
  of every branch of the token endpoint (\<open>TokenProps\<close>), and that refresh token families keep one
  live token. \<open>SysInv\<close>, \<open>ServeInv\<close>, \<open>TokenInv\<close>, \<open>AdminInv\<close>, \<open>SeedInv\<close>: every handler and every seed keeps
  the invariant \<open>sys_inv\<close>, by which every reference of a row resolves, codes and pending requests are
  bound to safe addresses, and every organization has an owner; \<open>ServeProps\<close> draws the
  conclusions for the states a process can reach by serving requests one at a time. \<open>AuthProps\<close>, \<open>WebProps\<close>:
  the authorization endpoint, and login, logout, logout by ID token and CSRF. \<open>Resume\<close>: a login
  resumes the authorization request that it interrupted. \<open>SeedProps\<close>: seeding twice. \<open>StoreProps\<close>:
  the memory store alone. \<open>Divergences\<close>: behaviour that differs from what the code seems to intend.
  Properties of handlers are stated for the memory store through the interpretations; the
  Postgres store is tied to it by \<open>stores_agree\<close>.

  \<^bold>\<open>Bounds.\<close> Only \<open>read_pages\<close> has fuel; one page more than there are events is enough, which is part
  of its theorem. All other functions are total.

  \<^bold>\<open>Not modelled.\<close> Rendering templates and the bytes of HTTP messages (pages are a template's name and its
  data); the insides of RSA, PEM, PKCS#8, Argon2id and jwx (parameters); connections to Postgres that
  are lost or cancelled in the middle of a method; the difference between a nil and an empty slice;
  \<open>id.Parse\<close>, which no modelled code calls. The memory store and the limiter take a mutex in every
  method and a Postgres method is one statement, save \<open>TakeCode\<close> and \<open>TakeRefresh\<close>, so their
  operations are atomic steps here; requests that interleave inside one handler are modelled
  only for the login limiter (\<open>RateLimit\<close>), for the removal of owners and for a refresh that meets a
  reuse (both in \<open>Divergences\<close>), and for \<open>TakeCode\<close> (\<open>PgProps\<close>). What becomes of a back-channel notice
  after it was handed to the HTTP client is not modelled either; the code ignores it.
\<close>

end
